(* ===== verification/Fcpf_Prelude.thy ===== *)
theory Fcpf_Prelude
  imports
    Main
    "HOL-Library.Sublist"
    "HOL-Library.Multiset"
    "HOL-Library.Char_ord"
    "HOL-Library.List_Lexorder"
begin

text \<open>
  Prelude: the lemma collections of the development and the generic facts about lists,
  folds and digit strings that several components share.
\<close>

named_theorems go_simps \<open>evaluation rules of the modelled Go library functions\<close>
named_theorems msg_simps \<open>facts about the literal texts of the program\<close>

type_synonym bytes = "char list"

abbreviation newline :: char where "newline \<equiv> CHR 0x0A"
abbreviation nul :: char where "nul \<equiv> CHR 0x00"
abbreviation dquote :: char where "dquote \<equiv> CHR 0x22"
abbreviation backslash :: char where "backslash \<equiv> CHR 0x5C"

section \<open>Lists\<close>

lemma drop_append_length [simp]: "drop (length xs) (xs @ ys) = ys"
  by simp

lemma take_append_length [simp]: "take (length xs) (xs @ ys) = xs"
  by simp

lemma filter_eq_Nil_iff: "filter P xs = [] \<longleftrightarrow> (\<forall>x \<in> set xs. \<not> P x)"
  by (induction xs) auto

lemma prefix_append_self [simp, intro]: "prefix xs (xs @ ys)"
  by (simp add: prefix_def)

lemma dropWhile_all: "(\<forall>x \<in> set xs. P x) \<Longrightarrow> dropWhile P (xs @ ys) = dropWhile P ys"
  by (induction xs) auto

lemma dropWhile_hd_not: "xs = [] \<or> \<not> P (hd xs) \<Longrightarrow> dropWhile P xs = xs"
  by (cases xs) auto

text \<open>The last \<open>n\<close> elements of a list: what a bounded tail buffer holds.\<close>

definition take_last :: "nat \<Rightarrow> 'a list \<Rightarrow> 'a list" where
  "take_last n xs = drop (length xs - n) xs"

lemma length_take_last [simp]: "length (take_last n xs) = min n (length xs)"
  by (simp add: take_last_def)

lemma take_last_short: "length xs \<le> n \<Longrightarrow> take_last n xs = xs"
  by (simp add: take_last_def)

lemma suffix_take_last: "suffix (take_last n xs) xs"
  by (simp add: take_last_def suffix_drop)

lemma take_last_snoc:
  assumes "0 < n"
  shows "take_last n (xs @ [x]) =
    (if n \<le> length (take_last n xs) then tl (take_last n xs) else take_last n xs) @ [x]"
proof (cases "n \<le> length xs")
  case True
  then have "Suc (length xs) - n = Suc (length xs - n)" by simp
  then show ?thesis using True assms
    by (simp add: take_last_def drop_Suc tl_drop)
next
  case False
  then show ?thesis by (simp add: take_last_def)
qed

section \<open>Digit strings\<close>

text \<open>
  Numbers are printed by \<open>fmt\<close> and \<open>strconv\<close> in base ten or sixteen: most significant
  digit first, a single zero for zero.
\<close>

fun digits_of :: "nat \<Rightarrow> nat \<Rightarrow> nat list" where
  "digits_of b n = (if b < 2 \<or> n < b then [n] else digits_of b (n div b) @ [n mod b])"

declare digits_of.simps [simp del]

definition value_of :: "nat \<Rightarrow> nat list \<Rightarrow> nat" where
  "value_of b ds = foldl (\<lambda>v d. v * b + d) 0 ds"

lemma value_of_Nil [simp]: "value_of b [] = 0"
  by (simp add: value_of_def)

lemma value_of_snoc [simp]: "value_of b (ds @ [d]) = value_of b ds * b + d"
  by (simp add: value_of_def)

lemma foldl_value: "foldl (\<lambda>v d. v * b + d) a ds = a * b ^ length ds + value_of b ds"
proof (induction ds rule: rev_induct)
  case Nil
  then show ?case by simp
next
  case (snoc d ds)
  then show ?case by (simp add: algebra_simps)
qed

lemma value_of_append: "value_of b (xs @ ys) = value_of b xs * b ^ length ys + value_of b ys"
proof -
  have "value_of b (xs @ ys) = foldl (\<lambda>v d. v * b + d) (value_of b xs) ys"
    by (simp add: value_of_def)
  then show ?thesis by (simp add: foldl_value)
qed

lemma value_of_zeros [simp]: "value_of b (replicate k 0) = 0"
  by (induction k) (simp_all add: value_of_def)

lemma value_of_pad [simp]: "value_of b (replicate k 0 @ ds) = value_of b ds"
  by (simp add: value_of_append)

lemma value_of_digits_of [simp]: "value_of b (digits_of b n) = n"
proof (induction b n rule: digits_of.induct)
  case (1 b n)
  then show ?case
    by (subst digits_of.simps) (auto simp: value_of_def)
qed

lemma digits_of_nonempty [simp]: "digits_of b n \<noteq> []"
  by (subst digits_of.simps) simp

lemma digits_of_less: "2 \<le> b \<Longrightarrow> d \<in> set (digits_of b n) \<Longrightarrow> d < b"
proof (induction b n arbitrary: d rule: digits_of.induct)
  case (1 b n)
  from "1.prems" have "d = n \<and> n < b \<or> (\<not> n < b \<and> (d \<in> set (digits_of b (n div b)) \<or> d = n mod b))"
    by (subst (asm) digits_of.simps) (auto split: if_splits)
  with 1 show ?case by auto
qed

lemma digits_of_inj: "digits_of b m = digits_of b n \<Longrightarrow> m = n"
  by (metis value_of_digits_of)

lemma length_digits_of: "2 \<le> b \<Longrightarrow> 0 < k \<Longrightarrow> length (digits_of b n) \<le> k \<longleftrightarrow> n < b ^ k"
proof (induction k arbitrary: n)
  case 0
  then show ?case by simp
next
  case (Suc k)
  show ?case
  proof (cases "n < b")
    case True
    have "1 \<le> b ^ k" using Suc.prems by simp
    then have "b * 1 \<le> b * b ^ k" by (rule mult_le_mono2)
    then have "b \<le> b ^ Suc k" unfolding power_Suc mult_1_right .
    with True have "n < b ^ Suc k" by (rule less_le_trans)
    with True show ?thesis by (subst digits_of.simps) simp
  next
    case False
    then have len: "length (digits_of b n) = Suc (length (digits_of b (n div b)))"
      using Suc.prems by (subst digits_of.simps) simp
    show ?thesis
    proof (cases "k = 0")
      case True
      have "0 < length (digits_of b (n div b))" by simp
      then show ?thesis using True False len by simp
    next
      case k: False
      have "n div b < b ^ k \<longleftrightarrow> n < b ^ Suc k"
        using Suc.prems by (simp add: div_less_iff_less_mult mult.commute)
      with k Suc len show ?thesis by simp
    qed
  qed
qed

lemma digits_of_head_nonzero:
  "2 \<le> b \<Longrightarrow> 0 < n \<Longrightarrow> hd (digits_of b n) \<noteq> 0"
proof (induction b n rule: digits_of.induct)
  case (1 b n)
  show ?case
  proof (cases "n < b")
    case True
    with 1 show ?thesis by (subst digits_of.simps) simp
  next
    case False
    with 1 have "0 < n div b" by (simp add: div_greater_zero_iff)
    with 1 False show ?thesis by (subst digits_of.simps) simp
  qed
qed

end
