(* ===== verification/Go_Map.thy ===== *)
theory Go_Map
  imports Fcpf_Prelude
begin

text \<open>
  Go maps with ordered keys. The model keeps the entries sorted by key, one per key: the
  order in which \<open>fmt\<close> prints a map and \<open>encoding/json\<close> writes one. The program never
  depends on the iteration order of a map otherwise. The interface the other components
  use is the locale \<open>keyed_map\<close>; the sorted association list provides it.
\<close>

section \<open>The interface\<close>

locale keyed_map =
  fixes empty :: 'm
    and lookup :: "'m \<Rightarrow> 'k \<Rightarrow> 'v option"
    and put :: "'k \<Rightarrow> 'v \<Rightarrow> 'm \<Rightarrow> 'm"
    and invar :: "'m \<Rightarrow> bool"
  assumes lookup_empty: "lookup empty k = None"
    and lookup_put: "invar m \<Longrightarrow> lookup (put k v m) k' = (if k' = k then Some v else lookup m k')"
    and invar_empty: "invar empty"
    and invar_put: "invar m \<Longrightarrow> invar (put k v m)"
begin

text \<open>Storing a list of entries one after the other: the last entry of a key wins.\<close>

lemma invar_put_all: "invar m \<Longrightarrow> invar (foldl (\<lambda>m (k, v). put k v m) m kvs)"
  by (induction kvs arbitrary: m) (auto simp: invar_put)

lemma lookup_put_all:
  "invar m \<Longrightarrow> lookup (foldl (\<lambda>m (k, v). put k v m) m kvs) k =
    (case map_of (rev kvs) k of Some v \<Rightarrow> Some v | None \<Rightarrow> lookup m k)"
proof (induction kvs arbitrary: m)
  case Nil
  then show ?case by simp
next
  case (Cons kv kvs)
  obtain k0 v0 where kv: "kv = (k0, v0)" by (cases kv)
  from Cons.prems have "invar (put k0 v0 m)" by (rule invar_put)
  from Cons.IH [OF this] show ?case
    by (auto simp: kv lookup_put [OF Cons.prems] map_add_def split: option.splits)
qed

lemma lookup_put_all_empty:
  "lookup (foldl (\<lambda>m (k, v). put k v m) empty kvs) k = map_of (rev kvs) k"
  by (simp add: lookup_put_all [OF invar_empty] lookup_empty split: option.splits)

text \<open>Storing only keys that are not there yet: the first entry of a key wins.\<close>

lemma lookup_put_new:
  "invar m \<Longrightarrow> invar (foldl (\<lambda>m (k, v). if lookup m k = None then put k v m else m) m kvs) \<and>
    lookup (foldl (\<lambda>m (k, v). if lookup m k = None then put k v m else m) m kvs) k =
    (case lookup m k of Some v \<Rightarrow> Some v | None \<Rightarrow> map_of kvs k)"
proof (induction kvs arbitrary: m)
  case Nil
  then show ?case by (simp split: option.splits)
next
  case (Cons kv kvs)
  obtain k0 v0 where kv: "kv = (k0, v0)" by (cases kv)
  define m' where "m' = (if lookup m k0 = None then put k0 v0 m else m)"
  have inv: "invar m'" using Cons.prems by (simp add: m'_def invar_put)
  have "lookup m' k = (if lookup m k0 = None \<and> k = k0 then Some v0 else lookup m k)"
    using lookup_put [OF Cons.prems] by (simp add: m'_def)
  then show ?case
    using Cons.IH [OF inv] by (auto simp: kv m'_def [symmetric] split: option.splits)
qed

lemmas map_laws = lookup_empty lookup_put invar_empty invar_put

end

section \<open>Sorted association lists\<close>

type_synonym ('k, 'v) go_map = "('k \<times> 'v) list"

fun gm_put :: "'k::linorder \<Rightarrow> 'v \<Rightarrow> ('k, 'v) go_map \<Rightarrow> ('k, 'v) go_map" where
  "gm_put k v [] = [(k, v)]"
| "gm_put k v ((k', v') # m) =
    (if k < k' then (k, v) # (k', v') # m
     else if k = k' then (k, v) # m
     else (k', v') # gm_put k v m)"

definition gm_get :: "('k, 'v) go_map \<Rightarrow> 'k \<Rightarrow> 'v option" where
  "gm_get m k = map_of m k"

definition gm_ok :: "('k::linorder, 'v) go_map \<Rightarrow> bool" where
  "gm_ok m \<longleftrightarrow> sorted_wrt (<) (map fst m)"

text \<open>Reading a key of a Go map with no second result: the zero value when it is missing.\<close>

definition gm_str :: "('k, string) go_map \<Rightarrow> 'k \<Rightarrow> string" where
  "gm_str m k = (case gm_get m k of Some v \<Rightarrow> v | None \<Rightarrow> [])"

lemma gm_put_keys [simp]: "fst ` set (gm_put k v m) = insert k (fst ` set m)"
  by (induction k v m rule: gm_put.induct) (simp_all add: insert_commute)

lemma gm_ok_put: "gm_ok m \<Longrightarrow> gm_ok (gm_put k v m)"
proof (induction m)
  case (Cons kv m)
  obtain k0 v0 where kv: "kv = (k0, v0)" by (cases kv)
  have "gm_ok m" using Cons.prems by (simp add: gm_ok_def kv)
  with Cons.IH have ok: "gm_ok (gm_put k v m)" .
  have low: "\<forall>x \<in> fst ` set m. k0 < x" using Cons.prems by (simp add: kv gm_ok_def)
  show ?case
  proof (cases "k0 < k")
    case True
    with low have "\<forall>x \<in> fst ` set (gm_put k v m). k0 < x" by simp
    with True ok show ?thesis by (auto simp: kv gm_ok_def)
  next
    case False
    with Cons.prems show ?thesis by (auto simp: kv gm_ok_def)
  qed
qed (simp add: gm_ok_def)

lemma gm_get_put: "gm_ok m \<Longrightarrow> gm_get (gm_put k v m) k' = (if k' = k then Some v else gm_get m k')"
proof (induction m)
  case (Cons kv m)
  obtain k0 v0 where kv: "kv = (k0, v0)" by (cases kv)
  have "gm_ok m" using Cons.prems by (simp add: gm_ok_def kv)
  with Cons.IH show ?case by (auto simp: kv gm_get_def)
qed (simp add: gm_get_def)

interpretation gm: keyed_map "[]" gm_get gm_put gm_ok
  by unfold_locales (simp_all add: gm_get_put gm_ok_put, simp_all add: gm_get_def gm_ok_def)

text \<open>Values of a well-formed map, in key order.\<close>

lemma gm_get_iff: "gm_ok m \<Longrightarrow> gm_get m k = Some v \<longleftrightarrow> (k, v) \<in> set m"
  unfolding gm_ok_def gm_get_def
  by (rule map_of_eq_Some_iff) (simp add: strict_sorted_iff)

text \<open>Two well-formed maps with the same entries are the same list.\<close>

lemma gm_ext:
  assumes "gm_ok m" and "gm_ok n" and "\<And>k. gm_get m k = gm_get n k"
  shows "m = n"
proof -
  have "set m = set n"
    using assms gm_get_iff [OF assms(1)] gm_get_iff [OF assms(2)] by auto
  moreover have "distinct (map fst m)" and "distinct (map fst n)"
    and "sorted (map fst m)" and "sorted (map fst n)"
    using assms(1,2) by (simp_all add: gm_ok_def strict_sorted_iff)
  ultimately show ?thesis
    by (intro map_sorted_distinct_set_unique [of fst])
      (auto simp: distinct_map inj_on_def)
qed

end
