(* ===== verification/Go_Strings.thy ===== *)
theory Go_Strings
  imports Fcpf_Prelude
begin

text \<open>
  The parts of Go's \<open>strings\<close>, \<open>strconv\<close>, \<open>fmt\<close> and \<open>bufio\<close> packages that the program
  uses, on strings as byte lists (a Go string is a sequence of bytes). White space is
  Unicode white space in its UTF-8 encoding, as \<open>unicode.IsSpace\<close> has it. Quoting with
  the \<open>%q\<close> verb is exact for ASCII; a byte above 127 is always escaped.
\<close>

section \<open>White space\<close>

definition ascii_space :: "char \<Rightarrow> bool" where
  "ascii_space c \<longleftrightarrow> c \<in> {CHR 0x09, CHR 0x0A, CHR 0x0B, CHR 0x0C, CHR 0x0D, CHR 0x20}"

definition utf8_spaces :: "string list" where
  "utf8_spaces =
    [[CHR 0xC2, CHR 0x85], [CHR 0xC2, CHR 0xA0], [CHR 0xE1, CHR 0x9A, CHR 0x80],
     [CHR 0xE2, CHR 0x80, CHR 0x80], [CHR 0xE2, CHR 0x80, CHR 0x81],
     [CHR 0xE2, CHR 0x80, CHR 0x82], [CHR 0xE2, CHR 0x80, CHR 0x83],
     [CHR 0xE2, CHR 0x80, CHR 0x84], [CHR 0xE2, CHR 0x80, CHR 0x85],
     [CHR 0xE2, CHR 0x80, CHR 0x86], [CHR 0xE2, CHR 0x80, CHR 0x87],
     [CHR 0xE2, CHR 0x80, CHR 0x88], [CHR 0xE2, CHR 0x80, CHR 0x89],
     [CHR 0xE2, CHR 0x80, CHR 0x8A], [CHR 0xE2, CHR 0x80, CHR 0xA8],
     [CHR 0xE2, CHR 0x80, CHR 0xA9], [CHR 0xE2, CHR 0x80, CHR 0xAF],
     [CHR 0xE2, CHR 0x81, CHR 0x9F], [CHR 0xE3, CHR 0x80, CHR 0x80]]"

text \<open>
  The number of bytes of the white-space character at the head of a string, zero when
  there is none. A lead byte never occurs inside another UTF-8 character, so matching
  byte sequences at any position agrees with decoding from the front.
\<close>

definition ascii :: "char \<Rightarrow> bool" where
  "ascii c \<longleftrightarrow> of_char c < (128::nat)"

definition space_len_in :: "string list \<Rightarrow> string \<Rightarrow> nat" where
  "space_len_in us s =
    (case s of [] \<Rightarrow> 0
     | c # cs \<Rightarrow> if ascii_space c then 1 else if ascii c then 0
         else (case find (\<lambda>u. prefix u s) us of Some u \<Rightarrow> length u | None \<Rightarrow> 0))"

abbreviation space_len :: "string \<Rightarrow> nat" where
  "space_len \<equiv> space_len_in utf8_spaces"

lemma space_len_in_le: "space_len_in us s \<le> length s"
  by (auto simp: space_len_in_def find_Some_iff dest: prefix_length_le split: list.splits option.splits)

lemma space_len_in_Nil [simp]: "space_len_in us [] = 0"
  by (simp add: space_len_in_def)

function trim_left_in :: "string list \<Rightarrow> string \<Rightarrow> string" where
  "trim_left_in us s =
    (if space_len_in us s = 0 then s else trim_left_in us (drop (space_len_in us s) s))"
  by pat_completeness auto
termination
proof (relation "measure (\<lambda>(us, s). length s)")
  fix us s
  assume "space_len_in us s \<noteq> 0"
  with space_len_in_le [of us s]
  show "((us, drop (space_len_in us s) s), (us, s)) \<in> measure (\<lambda>(us, s). length s)"
    by auto
qed simp

declare trim_left_in.simps [simp del]

definition trim_space :: "string \<Rightarrow> string" where
  "trim_space s =
    rev (trim_left_in (map rev utf8_spaces) (rev (trim_left_in utf8_spaces s)))"

function str_fields_from :: "string \<Rightarrow> string \<Rightarrow> string list" where
  "str_fields_from cur s =
    (case s of
       [] \<Rightarrow> (if cur = [] then [] else [rev cur])
     | c # cs \<Rightarrow>
         if space_len s = 0 then str_fields_from (c # cur) cs
         else (if cur = [] then [] else [rev cur]) @ str_fields_from [] (drop (space_len s) s))"
  by pat_completeness auto
termination
proof (relation "measure (\<lambda>(cur, s). length s)")
  fix cur s c cs
  assume "s = c # cs" and "space_len s \<noteq> 0"
  with space_len_in_le [of utf8_spaces s]
  show "(([], drop (space_len s) s), (cur, s)) \<in> measure (\<lambda>(cur, s). length s)"
    by auto
qed auto

declare str_fields_from.simps [simp del]

definition str_fields :: "string \<Rightarrow> string list" where
  "str_fields s = str_fields_from [] s"

section \<open>Searching and splitting\<close>

text \<open>
  \<open>strings.Cut\<close>: the parts around the first occurrence of a separator. The not-found case
  is \<open>None\<close> (Go returns the whole string, the empty string and \<open>false\<close>).
\<close>

fun cut :: "string \<Rightarrow> string \<Rightarrow> (string \<times> string) option" where
  "cut s sep =
    (if prefix sep s then Some ([], drop (length sep) s)
     else (case s of [] \<Rightarrow> None
           | c # cs \<Rightarrow> map_option (\<lambda>(a, b). (c # a, b)) (cut cs sep)))"

declare cut.simps [simp del]

definition contains :: "string \<Rightarrow> string \<Rightarrow> bool" where
  "contains s sub \<longleftrightarrow> sublist sub s"

lemma cut_found: "cut s sep = Some (a, b) \<Longrightarrow> s = a @ sep @ b"
proof (induction s sep arbitrary: a b rule: cut.induct)
  case (1 s sep)
  show ?case
  proof (cases "prefix sep s")
    case True
    with "1.prems" show ?thesis by (subst (asm) cut.simps) (auto simp: prefix_def)
  next
    case False
    with "1.prems" obtain c cs where s: "s = c # cs" and
      "map_option (\<lambda>(a, b). (c # a, b)) (cut cs sep) = Some (a, b)"
      by (subst (asm) cut.simps) (auto split: list.splits)
    then obtain a' where "cut cs sep = Some (a', b)" and a: "a = c # a'" by auto
    with "1.IH" [OF False s] show ?thesis by (simp add: s a)
  qed
qed

lemma cut_None_iff: "cut s sep = None \<longleftrightarrow> \<not> contains s sep"
proof (induction s sep rule: cut.induct)
  case (1 s sep)
  show ?case
  proof (cases "prefix sep s")
    case True
    then show ?thesis by (subst cut.simps) (simp add: contains_def prefix_imp_sublist)
  next
    case np: False
    show ?thesis
    proof (cases s)
      case Nil
      with np show ?thesis by (subst cut.simps) (simp add: contains_def)
    next
      case (Cons c cs)
      with np 1 show ?thesis
        by (subst cut.simps) (simp add: contains_def sublist_Cons_right)
    qed
  qed
qed

text \<open>The first occurrence: no earlier split point fits.\<close>

lemma cut_single:
  "cut s [x] = (if x \<in> set s
    then Some (takeWhile (\<lambda>c. c \<noteq> x) s, tl (dropWhile (\<lambda>c. c \<noteq> x) s)) else None)"
  by (induction s) (subst cut.simps, auto)+

definition split_on :: "char \<Rightarrow> string \<Rightarrow> string list" where
  "split_on x s = foldr (\<lambda>c acc. if c = x then [] # acc
     else (case acc of [] \<Rightarrow> [[c]] | w # ws \<Rightarrow> (c # w) # ws)) s [[]]"

fun split_n :: "nat \<Rightarrow> char \<Rightarrow> string \<Rightarrow> string list" where
  "split_n 0 x s = []"
| "split_n (Suc 0) x s = [s]"
| "split_n (Suc (Suc n)) x s =
    (case cut s [x] of None \<Rightarrow> [s] | Some (a, b) \<Rightarrow> a # split_n (Suc n) x b)"

fun join :: "string \<Rightarrow> string list \<Rightarrow> string" where
  "join sep [] = []"
| "join sep [s] = s"
| "join sep (s # ss) = s @ sep @ join sep ss"

definition trim_right_char :: "char \<Rightarrow> string \<Rightarrow> string" where
  "trim_right_char x s = rev (dropWhile (\<lambda>c. c = x) (rev s))"

definition trim_char :: "char \<Rightarrow> string \<Rightarrow> string" where
  "trim_char x s = trim_right_char x (dropWhile (\<lambda>c. c = x) s)"

lemma split_on_nonempty [simp]: "split_on x s \<noteq> []"
  by (cases s) (auto simp: split_on_def split: list.splits)

lemma split_on_Nil [simp]: "split_on x [] = [[]]"
  by (simp add: split_on_def)

lemma split_on_Cons [simp]:
  "split_on x (c # s) = (if c = x then [] # split_on x s
     else (c # hd (split_on x s)) # tl (split_on x s))"
proof -
  have "foldr (\<lambda>c acc. if c = x then [] # acc
     else (case acc of [] \<Rightarrow> [[c]] | w # ws \<Rightarrow> (c # w) # ws)) s [[]] = split_on x s"
    by (simp add: split_on_def)
  then show ?thesis
    using split_on_nonempty [of x s]
    by (cases "split_on x s") (auto simp: split_on_def)
qed

lemma join_Cons: "ss \<noteq> [] \<Longrightarrow> join sep (s # ss) = s @ sep @ join sep ss"
  by (cases ss) auto

lemma join_split_on: "join [x] (split_on x s) = s"
proof (induction s)
  case (Cons c s)
  obtain w ws where w: "split_on x s = w # ws"
    using split_on_nonempty [of x s] by (cases "split_on x s") auto
  with Cons show ?case by (cases ws) (auto simp: join_Cons)
qed simp

lemma split_on_parts: "w \<in> set (split_on x s) \<Longrightarrow> x \<notin> set w"
proof (induction s arbitrary: w)
  case (Cons c s)
  obtain v vs where v: "split_on x s = v # vs"
    using split_on_nonempty [of x s] by (cases "split_on x s") auto
  with Cons show ?case by (auto split: if_splits)
qed simp

lemma split_on_no_sep: "x \<notin> set s \<Longrightarrow> split_on x s = [s]"
  by (induction s) auto

lemma split_on_append:
  "x \<notin> set a \<Longrightarrow> split_on x (a @ x # b) = a # split_on x b"
  by (induction a) auto

section \<open>Case and quoting\<close>

definition upper_char :: "char \<Rightarrow> char" where
  "upper_char c = (if CHR ''a'' \<le> c \<and> c \<le> CHR ''z'' then char_of (of_char c - 32 :: nat) else c)"

definition lower_char :: "char \<Rightarrow> char" where
  "lower_char c = (if CHR ''A'' \<le> c \<and> c \<le> CHR ''Z'' then char_of (of_char c + 32 :: nat) else c)"

definition to_upper :: "string \<Rightarrow> string" where "to_upper = map upper_char"
definition to_lower :: "string \<Rightarrow> string" where "to_lower = map lower_char"

definition lower_digit :: "nat \<Rightarrow> char" where
  "lower_digit d = (if d < 10 then char_of (48 + d) else char_of (87 + d))"

definition upper_digit :: "nat \<Rightarrow> char" where
  "upper_digit d = (if d < 10 then char_of (48 + d) else char_of (55 + d))"

definition quote_char :: "char \<Rightarrow> string" where
  "quote_char c =
    (if c = dquote then [backslash, dquote]
     else if c = backslash then [backslash, backslash]
     else if c = CHR 0x07 then backslash # ''a''
     else if c = CHR 0x08 then backslash # ''b''
     else if c = CHR 0x0C then backslash # ''f''
     else if c = newline then backslash # ''n''
     else if c = CHR 0x0D then backslash # ''r''
     else if c = CHR 0x09 then backslash # ''t''
     else if c = CHR 0x0B then backslash # ''v''
     else if of_char c < (32::nat) \<or> 127 \<le> (of_char c :: nat)
       then backslash # ''x'' @ [lower_digit (of_char c div 16), lower_digit (of_char c mod 16)]
     else [c])"

definition quote :: "string \<Rightarrow> string" where
  "quote s = dquote # concat (map quote_char s) @ [dquote]"

section \<open>Numbers\<close>

definition dec :: "nat \<Rightarrow> string" where
  "dec n = map lower_digit (digits_of 10 n)"

definition dec_int :: "int \<Rightarrow> string" where
  "dec_int i = (if i < 0 then ''-'' @ dec (nat (- i)) else dec (nat i))"

definition hex :: "nat \<Rightarrow> string" where
  "hex n = map lower_digit (digits_of 16 n)"

text \<open>Hexadecimal digits of either case, and the number they denote.\<close>

definition hex_digit_value :: "char \<Rightarrow> nat option" where
  "hex_digit_value c =
    (let n = (of_char c :: nat) in
     if 48 \<le> n \<and> n \<le> 57 then Some (n - 48)
     else if 65 \<le> n \<and> n \<le> 70 then Some (n - 55)
     else if 97 \<le> n \<and> n \<le> 102 then Some (n - 87) else None)"

definition read_hex :: "bytes \<Rightarrow> nat option" where
  "read_hex bs = map_option (value_of 16) (those (map hex_digit_value bs))"

text \<open>The verb \<open>%0wX\<close>: upper-case hexadecimal, padded with zeros to at least \<open>w\<close> digits.\<close>

definition hex_pad :: "nat \<Rightarrow> nat \<Rightarrow> string" where
  "hex_pad w n = (let ds = digits_of 16 n in
     map upper_digit (replicate (w - length ds) 0 @ ds))"

definition is_dec_digit :: "char \<Rightarrow> bool" where
  "is_dec_digit c \<longleftrightarrow> CHR ''0'' \<le> c \<and> c \<le> CHR ''9''"

definition dec_digit :: "char \<Rightarrow> nat" where
  "dec_digit c = of_char c - 48"

definition min_int64 :: int where "min_int64 = - (2 ^ 63)"
definition max_int64 :: int where "max_int64 = 2 ^ 63 - 1"

text \<open>
  \<open>strconv.ParseInt\<close> in base ten and 64 bits: the value and whether the error is nil. A
  syntax error gives zero, a range error the nearest bound. \<open>Atoi\<close> is the same function.
\<close>

definition parse_int :: "string \<Rightarrow> int \<times> bool" where
  "parse_int s =
    (let (neg, ds) = (case s of [] \<Rightarrow> (False, [])
        | c # cs \<Rightarrow> if c = CHR ''-'' then (True, cs) else if c = CHR ''+'' then (False, cs)
            else (False, s));
         v = int (value_of 10 (map dec_digit ds)); i = (if neg then - v else v)
     in if ds = [] \<or> \<not> list_all is_dec_digit ds then (0, False)
        else if max_int64 < i then (max_int64, False)
        else if i < min_int64 then (min_int64, False)
        else (i, True))"

definition atoi :: "string \<Rightarrow> int option" where
  "atoi s = (case parse_int s of (i, ok) \<Rightarrow> if ok then Some i else None)"

lemma of_char_lower_digit: "d < 16 \<Longrightarrow>
  (of_char (lower_digit d) :: nat) = (if d < 10 then 48 + d else 87 + d)"
  by (simp add: lower_digit_def)

lemma of_char_upper_digit: "d < 16 \<Longrightarrow>
  (of_char (upper_digit d) :: nat) = (if d < 10 then 48 + d else 55 + d)"
  by (simp add: upper_digit_def)

lemma upper_digit_inj: "d < 16 \<Longrightarrow> e < 16 \<Longrightarrow> upper_digit d = upper_digit e \<longleftrightarrow> d = e"
proof
  assume de: "d < 16" "e < 16" and "upper_digit d = upper_digit e"
  then have "(of_char (upper_digit d) :: nat) = of_char (upper_digit e)" by simp
  with de have "(if d < 10 then 48 + d else 55 + d) = (if e < 10 then 48 + e else 55 + e)"
    by (simp only: of_char_upper_digit)
  with de show "d = e" by (simp split: if_splits)
qed simp

lemma lower_digit_inj: "d < 16 \<Longrightarrow> e < 16 \<Longrightarrow> lower_digit d = lower_digit e \<longleftrightarrow> d = e"
proof
  assume de: "d < 16" "e < 16" and "lower_digit d = lower_digit e"
  then have "(of_char (lower_digit d) :: nat) = of_char (lower_digit e)" by simp
  with de have "(if d < 10 then 48 + d else 87 + d) = (if e < 10 then 48 + e else 87 + e)"
    by (simp only: of_char_lower_digit)
  with de show "d = e" by (simp split: if_splits)
qed simp

lemma char_le_iff: "(c::char) \<le> d \<longleftrightarrow> (of_char c :: nat) \<le> of_char d"
  by (simp add: less_eq_char_def)

lemma is_dec_digit_iff: "is_dec_digit c \<longleftrightarrow> 48 \<le> (of_char c :: nat) \<and> (of_char c :: nat) \<le> 57"
  by (simp add: is_dec_digit_def char_le_iff)

lemma is_dec_digit_lower [simp]: "d < 10 \<Longrightarrow> is_dec_digit (lower_digit d)"
  by (simp add: is_dec_digit_iff of_char_lower_digit)

lemma dec_digit_lower [simp]: "d < 10 \<Longrightarrow> dec_digit (lower_digit d) = d"
  by (simp add: dec_digit_def of_char_lower_digit)

lemma dec_nonempty [simp]: "dec n \<noteq> []"
  by (simp add: dec_def)

lemma dec_digits [simp]: "list_all is_dec_digit (dec n)"
  using digits_of_less [of 10 _ n] by (auto simp: dec_def list_all_iff)

lemma dec_digits_mem: "c \<in> set (dec n) \<Longrightarrow> is_dec_digit c"
  using dec_digits [of n] by (auto simp: list_all_iff)

lemma value_dec [simp]: "value_of 10 (map dec_digit (dec n)) = n"
proof -
  have "map dec_digit (dec n) = digits_of 10 n"
    using digits_of_less [of 10 _ n] by (auto simp: dec_def intro!: map_idI)
  then show ?thesis by simp
qed

lemma dec_inj [simp]: "dec m = dec n \<longleftrightarrow> m = n"
  by (metis value_dec)

lemma hd_dec_digit: "is_dec_digit (hd (dec n))"
  by (rule dec_digits_mem [of _ n]) simp

text \<open>Printing and parsing a number is the identity on the 64-bit range.\<close>

lemma parse_int_dec:
  assumes "int n \<le> max_int64"
  shows "parse_int (dec n) = (int n, True)"
proof -
  obtain c cs where c: "dec n = c # cs" by (cases "dec n") auto
  then have "is_dec_digit c" using hd_dec_digit [of n] by simp
  then have "c \<noteq> CHR ''-''" and "c \<noteq> CHR ''+''" by (auto simp: is_dec_digit_iff)
  moreover have "value_of 10 (map dec_digit (c # cs)) = n" using value_dec [of n] c by simp
  moreover have "list_all is_dec_digit (c # cs)" using dec_digits [of n] c by simp
  moreover have "min_int64 \<le> int n" by (simp add: min_int64_def)
  ultimately show ?thesis using assms c
    by (auto simp: parse_int_def Let_def)
qed

lemma atoi_dec: "int n \<le> max_int64 \<Longrightarrow> atoi (dec n) = Some (int n)"
  by (simp add: atoi_def parse_int_dec)

section \<open>Lines\<close>

text \<open>
  \<open>bufio.Scanner\<close> with \<open>ScanLines\<close>: the lines of the input without their line ends (one
  trailing carriage return is dropped with the newline), and whether the scan stopped at
  a line that does not fit the buffer of \<open>limit\<close> bytes.
\<close>

definition drop_cr :: "string \<Rightarrow> string" where
  "drop_cr s = (if s \<noteq> [] \<and> last s = CHR 0x0D then butlast s else s)"

fun scan_raw :: "nat \<Rightarrow> string list \<Rightarrow> string list \<times> bool" where
  "scan_raw limit [] = ([], False)"
| "scan_raw limit [l] =
    (if l = [] then ([], False) else if limit \<le> length l then ([], True) else ([drop_cr l], False))"
| "scan_raw limit (l # ls) =
    (if limit \<le> length l then ([], True)
     else (case scan_raw limit ls of (ts, long) \<Rightarrow> (drop_cr l # ts, long)))"

definition scan_lines :: "nat \<Rightarrow> string \<Rightarrow> string list \<times> bool" where
  "scan_lines limit s = scan_raw limit (split_on newline s)"

definition default_token_max :: nat where "default_token_max = 65536"
definition big_token_max :: nat where "big_token_max = 1048576"

section \<open>Fields\<close>

text \<open>A blank separates the fields on its two sides; a word without spaces is one field.\<close>

lemma utf8_spaces_no_blank: "u \<in> set utf8_spaces \<Longrightarrow> CHR '' '' \<notin> set u"
  by (auto simp: utf8_spaces_def)

lemma prefix_before_blank:
  assumes "CHR '' '' \<notin> set u"
  shows "prefix u (a @ CHR '' '' # b) \<longleftrightarrow> prefix u a"
proof
  assume p: "prefix u (a @ CHR '' '' # b)"
  show "prefix u a"
  proof (rule ccontr)
    assume "\<not> prefix u a"
    with p have "prefix (a @ [CHR '' '']) u"
      by (metis append_Cons append_Nil append_assoc prefix_append prefix_same_cases prefix_Cons prefix_snoc not_prefix_cases self_append_conv2 strict_prefixI' )
    with assms show False by (auto simp: prefix_def)
  qed
qed (auto simp: prefix_def)

lemma find_cong_set: "(\<And>x. x \<in> set xs \<Longrightarrow> P x \<longleftrightarrow> Q x) \<Longrightarrow> find P xs = find Q xs"
  by (induction xs) auto

lemma space_len_before_blank: "a \<noteq> [] \<Longrightarrow> space_len (a @ CHR '' '' # b) = space_len a"
proof -
  assume "a \<noteq> []"
  then obtain c cs where a: "a = c # cs" by (cases a) auto
  have "find (\<lambda>u. prefix u (a @ CHR '' '' # b)) utf8_spaces = find (\<lambda>u. prefix u a) utf8_spaces"
    by (rule find_cong_set) (simp add: prefix_before_blank utf8_spaces_no_blank)
  then show ?thesis by (simp add: space_len_in_def a)
qed

lemma str_fields_from_blank:
  "str_fields_from cur (a @ CHR '' '' # b) = str_fields_from cur a @ str_fields_from [] b"
proof (induction cur a rule: str_fields_from.induct)
  case (1 cur s)
  show ?case
  proof (cases s)
    case Nil
    have "space_len (CHR '' '' # b) = 1" by (simp add: space_len_in_def ascii_space_def)
    then show ?thesis using Nil by (subst (1 2) str_fields_from.simps) simp
  next
    case (Cons c cs)
    show ?thesis
    proof (cases "space_len s = 0")
      case True
      with Cons 1(1) [OF Cons True] space_len_before_blank [of s b] show ?thesis
        by (subst (1 2) str_fields_from.simps) simp
    next
      case False
      have "drop (space_len s) (s @ CHR '' '' # b) = drop (space_len s) s @ CHR '' '' # b"
        using space_len_in_le [of utf8_spaces s] by simp
      with Cons False 1(2) [OF Cons False] space_len_before_blank [of s b] show ?thesis
        by (subst (1 2) str_fields_from.simps) simp
    qed
  qed
qed

lemma str_fields_blank: "str_fields (a @ CHR '' '' # b) = str_fields a @ str_fields b"
  by (simp add: str_fields_def str_fields_from_blank)

lemma str_fields_word:
  assumes "list_all (\<lambda>c. ascii c \<and> \<not> ascii_space c) w"
  shows "str_fields_from cur w = (if w = [] \<and> cur = [] then [] else [rev cur @ w])"
  using assms
proof (induction w arbitrary: cur)
  case Nil
  then show ?case by (subst str_fields_from.simps) simp
next
  case (Cons c w)
  then have "space_len (c # w) = 0" by (simp add: space_len_in_def)
  with Cons show ?case by (subst str_fields_from.simps) simp
qed

definition plain_word :: "string \<Rightarrow> bool" where
  "plain_word w \<longleftrightarrow> list_all (\<lambda>c. ascii c \<and> \<not> ascii_space c) w"

lemma plain_word_append [simp]: "plain_word (a @ b) \<longleftrightarrow> plain_word a \<and> plain_word b"
  by (simp add: plain_word_def)

lemma plain_word_simps [simp]:
  "plain_word []" "plain_word (c # w) \<longleftrightarrow> ascii c \<and> \<not> ascii_space c \<and> plain_word w"
  by (simp_all add: plain_word_def)

lemma str_fields_plain: "plain_word w \<Longrightarrow> w \<noteq> [] \<Longrightarrow> str_fields w = [w]"
  by (simp add: str_fields_def str_fields_word plain_word_def)

lemma plain_dec [simp]: "plain_word (dec n)"
  unfolding plain_word_def list_all_iff
proof
  fix c assume "c \<in> set (dec n)"
  then have "is_dec_digit c" by (rule dec_digits_mem)
  then have "48 \<le> (of_char c :: nat)" "(of_char c :: nat) \<le> 57" by (simp_all add: is_dec_digit_iff)
  then show "ascii c \<and> \<not> ascii_space c" by (auto simp: ascii_def ascii_space_def)
qed

end
