(* ===== verification/Go_Float.thy ===== *)
theory Go_Float
  imports Complex_Main Go_Strings
begin

text \<open>
  Go's \<open>float64\<close>: IEEE 754 binary64 with round to nearest, ties to even. A finite value is
  a sign and a magnitude, the magnitude a rational number that binary64 can represent.
\<close>

datatype f64 = NaN | Inf bool | Fin bool rat

definition pow2 :: "int \<Rightarrow> rat" where
  "pow2 e = (if 0 \<le> e then 2 ^ nat e else 1 / 2 ^ nat (- e))"

fun bit_len :: "nat \<Rightarrow> nat" where
  "bit_len n = (if n = 0 then 0 else Suc (bit_len (n div 2)))"

declare bit_len.simps [simp del]

definition half_even :: "rat \<Rightarrow> int" where
  "half_even q = (let f = floor q; r = q - of_int f in
     if r < 1 / 2 then f else if 1 / 2 < r then f + 1 else if even f then f else f + 1)"

text \<open>
  The exponent of the last of the 53 significand bits of a positive rational, not below
  that of the subnormal numbers.
\<close>

definition ulp_exp :: "rat \<Rightarrow> int" where
  "ulp_exp m = (let (p, q) = quotient_of m;
       e = int (bit_len (nat p)) - int (bit_len (nat q)) - 53;
       e' = (if 2 ^ 53 \<le> m / pow2 e then e + 1 else e)
     in max e' (- 1074))"

definition round_mag :: "bool \<Rightarrow> rat \<Rightarrow> f64" where
  "round_mag neg m =
    (if m = 0 then Fin neg 0
     else let e = ulp_exp m; v = of_int (half_even (m / pow2 e)) * pow2 e
       in if 2 ^ 1024 \<le> v then Inf neg else Fin neg v)"

definition signed :: "bool \<Rightarrow> rat \<Rightarrow> rat" where
  "signed neg m = (if neg then - m else m)"

definition round_rat :: "rat \<Rightarrow> f64" where
  "round_rat q = round_mag (q < 0) \<bar>q\<bar>"

definition f_of_int :: "int \<Rightarrow> f64" where
  "f_of_int i = round_rat (of_int i)"

abbreviation f_zero :: f64 where "f_zero \<equiv> Fin False 0"

fun f_add :: "f64 \<Rightarrow> f64 \<Rightarrow> f64" where
  "f_add NaN y = NaN"
| "f_add x NaN = NaN"
| "f_add (Inf s) (Inf t) = (if s = t then Inf s else NaN)"
| "f_add (Inf s) y = Inf s"
| "f_add x (Inf t) = Inf t"
| "f_add (Fin s a) (Fin t b) =
    (let q = signed s a + signed t b in
     if q = 0 then Fin (s \<and> t) 0 else round_rat q)"

fun f_mul :: "f64 \<Rightarrow> f64 \<Rightarrow> f64" where
  "f_mul NaN y = NaN"
| "f_mul x NaN = NaN"
| "f_mul (Inf s) (Inf t) = Inf (s \<noteq> t)"
| "f_mul (Inf s) (Fin t b) = (if b = 0 then NaN else Inf (s \<noteq> t))"
| "f_mul (Fin s a) (Inf t) = (if a = 0 then NaN else Inf (s \<noteq> t))"
| "f_mul (Fin s a) (Fin t b) = round_mag (s \<noteq> t) (a * b)"

fun f_div :: "f64 \<Rightarrow> f64 \<Rightarrow> f64" where
  "f_div NaN y = NaN"
| "f_div x NaN = NaN"
| "f_div (Inf s) (Inf t) = NaN"
| "f_div (Inf s) (Fin t b) = Inf (s \<noteq> t)"
| "f_div (Fin s a) (Inf t) = Fin (s \<noteq> t) 0"
| "f_div (Fin s a) (Fin t b) =
    (if b = 0 then (if a = 0 then NaN else Inf (s \<noteq> t)) else round_mag (s \<noteq> t) (a / b))"

text \<open>Comparison: every comparison with NaN is false; the two zeros are equal.\<close>

fun f_less :: "f64 \<Rightarrow> f64 \<Rightarrow> bool" where
  "f_less NaN y = False"
| "f_less x NaN = False"
| "f_less (Inf s) (Inf t) = (s \<and> \<not> t)"
| "f_less (Inf s) (Fin t b) = s"
| "f_less (Fin s a) (Inf t) = (\<not> t)"
| "f_less (Fin s a) (Fin t b) = (signed s a < signed t b)"

definition is_neg :: "f64 \<Rightarrow> bool" where
  "is_neg x = (case x of NaN \<Rightarrow> False | Inf s \<Rightarrow> s | Fin s _ \<Rightarrow> s)"

definition is_zero :: "f64 \<Rightarrow> bool" where
  "is_zero x = (case x of Fin _ m \<Rightarrow> m = 0 | _ \<Rightarrow> False)"

text \<open>\<open>math.Min\<close> and \<open>math.Max\<close>, with their rules for infinities, NaN and the zeros.\<close>

definition f_min :: "f64 \<Rightarrow> f64 \<Rightarrow> f64" where
  "f_min x y =
    (if x = Inf True \<or> y = Inf True then Inf True
     else if x = NaN \<or> y = NaN then NaN
     else if is_zero x \<and> is_zero y then (if is_neg x then x else y)
     else if f_less x y then x else y)"

definition f_max :: "f64 \<Rightarrow> f64 \<Rightarrow> f64" where
  "f_max x y =
    (if x = Inf False \<or> y = Inf False then Inf False
     else if x = NaN \<or> y = NaN then NaN
     else if is_zero x \<and> is_zero y then (if is_neg x then y else x)
     else if f_less y x then x else y)"

text \<open>
  The verbs \<open>%.0f\<close> and \<open>%.1f\<close>: the exact decimal value rounded to the given number of
  places, ties to even.
\<close>

definition pad_left :: "nat \<Rightarrow> char \<Rightarrow> string \<Rightarrow> string" where
  "pad_left w c s = replicate (w - length s) c @ s"

definition fmt_f :: "nat \<Rightarrow> f64 \<Rightarrow> string" where
  "fmt_f places x =
    (case x of NaN \<Rightarrow> ''NaN''
     | Inf neg \<Rightarrow> (if neg then ''-Inf'' else ''+Inf'')
     | Fin neg m \<Rightarrow>
        let n = nat (half_even (m * 10 ^ places))
        in (if neg then ''-'' else []) @ dec (n div 10 ^ places) @
           (if places = 0 then [] else ''.'' @ pad_left places CHR ''0'' (dec (n mod 10 ^ places))))"

lemma half_even_int [simp]: "half_even (of_int i) = i"
  by (simp add: half_even_def Let_def)

lemma half_even_mono: "x \<le> y \<Longrightarrow> half_even x \<le> half_even y"
proof -
  assume xy: "x \<le> y"
  then have fl: "\<lfloor>x\<rfloor> \<le> \<lfloor>y\<rfloor>" by (rule floor_mono)
  have bx: "half_even x \<le> \<lfloor>x\<rfloor> + 1" and by1: "\<lfloor>y\<rfloor> \<le> half_even y"
    by (auto simp: half_even_def Let_def)
  show ?thesis
  proof (cases "\<lfloor>x\<rfloor> = \<lfloor>y\<rfloor>")
    case True
    with xy show ?thesis by (auto simp: half_even_def Let_def)
  next
    case False
    with fl bx by1 show ?thesis by linarith
  qed
qed

lemma f_less_irrefl [simp]: "\<not> f_less x x"
  by (cases x) (auto simp: signed_def)

lemma f_less_trans: "f_less x y \<Longrightarrow> f_less y z \<Longrightarrow> f_less x z"
  by (cases x; cases y; cases z) auto

end
