(* ===== verification/Json.thy ===== *)
theory Json
  imports Go_Map Go_Float
begin

text \<open>
  What the code uses of \<open>encoding/json\<close>: the encoder, compact and indented, for the values
  that the reports hold, and the parser. Numbers keep their text when parsed, so that the
  reader decides between an integer and a float.
\<close>

section \<open>Values\<close>

text \<open>
  The values that are encoded: those of a \<open>map[string]any\<close>, with \<open>AMap\<close> for a map, whose
  keys are sorted, and \<open>AObj\<close> for a struct, whose fields keep their order.
\<close>

datatype any =
    ANull
  | AStr string
  | AInt int
  | ABool bool
  | AFloat f64
  | AList "any list"
  | AMap "(string \<times> any) list"
  | AObj "(string \<times> any) list"

datatype json =
    JNull
  | JBool bool
  | JNum string
  | JStr string
  | JArr "json list"
  | JObj "(string \<times> json) list"

section \<open>UTF-8\<close>

abbreviation byte :: "char \<Rightarrow> nat" where "byte c \<equiv> of_char c"

definition is_cont :: "char \<Rightarrow> bool" where
  "is_cont c \<longleftrightarrow> 0x80 \<le> byte c \<and> byte c \<le> 0xBF"

definition second_ok :: "nat \<Rightarrow> nat \<Rightarrow> bool" where
  "second_ok b c \<longleftrightarrow>
    (if b = 0xE0 then 0xA0 \<le> c \<and> c \<le> 0xBF
     else if b = 0xED then 0x80 \<le> c \<and> c \<le> 0x9F
     else if b = 0xF0 then 0x90 \<le> c \<and> c \<le> 0xBF
     else if b = 0xF4 then 0x80 \<le> c \<and> c \<le> 0x8F
     else 0x80 \<le> c \<and> c \<le> 0xBF)"

definition utf8_need :: "nat \<Rightarrow> nat" where
  "utf8_need b =
    (if b < 0x80 then 1 else if 0xC2 \<le> b \<and> b \<le> 0xDF then 2
     else if 0xE0 \<le> b \<and> b \<le> 0xEF then 3 else if 0xF0 \<le> b \<and> b \<le> 0xF4 then 4 else 0)"

text \<open>The length of the valid sequence at the front; zero when there is none.\<close>

definition utf8_len :: "string \<Rightarrow> nat" where
  "utf8_len s =
    (case s of [] \<Rightarrow> 0
     | c # cs \<Rightarrow>
        let n = utf8_need (byte c) in
        if n \<le> 1 then n
        else if length cs < n - 1 then 0
        else if second_ok (byte c) (byte (hd cs)) \<and> list_all is_cont (take (n - 2) (tl cs)) then n
        else 0)"

lemma utf8_len_le: "utf8_len s \<le> length s"
  by (auto simp: utf8_len_def Let_def split: list.splits)

definition utf8_encode :: "nat \<Rightarrow> string" where
  "utf8_encode r =
    (if r < 0x80 then [char_of r]
     else if r < 0x800 then [char_of (0xC0 + r div 64), char_of (0x80 + r mod 64)]
     else if r < 0x10000 then
       [char_of (0xE0 + r div 4096), char_of (0x80 + r div 64 mod 64), char_of (0x80 + r mod 64)]
     else
       [char_of (0xF0 + r div 262144), char_of (0x80 + r div 4096 mod 64),
        char_of (0x80 + r div 64 mod 64), char_of (0x80 + r mod 64)])"

definition replacement :: string where "replacement = utf8_encode 0xFFFD"

section \<open>Strings\<close>

definition unicode_escape :: "nat \<Rightarrow> string" where
  "unicode_escape r = backslash # CHR ''u'' #
    map (\<lambda>i. lower_digit (r div 16 ^ i mod 16)) [3, 2, 1, 0]"

definition escape_ascii :: "char \<Rightarrow> string" where
  "escape_ascii c =
    (if c = dquote \<or> c = backslash then [backslash, c]
     else if c = CHR 0x08 then [backslash, CHR ''b'']
     else if c = CHR 0x0C then [backslash, CHR ''f'']
     else if c = newline then [backslash, CHR ''n'']
     else if c = CHR 0x0D then [backslash, CHR ''r'']
     else if c = CHR 0x09 then [backslash, CHR ''t'']
     else if byte c < 0x20 \<or> c = CHR ''<'' \<or> c = CHR ''>'' \<or> c = CHR ''&'' then unicode_escape (byte c)
     else [c])"

definition line_sep :: string where "line_sep = utf8_encode 0x2028"
definition para_sep :: string where "para_sep = utf8_encode 0x2029"

function json_escape :: "string \<Rightarrow> string" where
  "json_escape s =
    (case s of [] \<Rightarrow> []
     | c # cs \<Rightarrow>
        if byte c < 0x80 then escape_ascii c @ json_escape cs
        else if utf8_len s = 0 then unicode_escape 0xFFFD @ json_escape cs
        else if take 3 s = line_sep then unicode_escape 0x2028 @ json_escape (drop 3 s)
        else if take 3 s = para_sep then unicode_escape 0x2029 @ json_escape (drop 3 s)
        else take (utf8_len s) s @ json_escape (drop (utf8_len s) s))"
  by pat_completeness auto
termination by (relation "measure length") auto

declare json_escape.simps [simp del]

definition json_quote :: "string \<Rightarrow> string" where
  "json_quote s = dquote # json_escape s @ [dquote]"

text \<open>The four digits of \<open>\\uXXXX\<close>, and the second half of a surrogate pair.\<close>

definition hex4 :: "string \<Rightarrow> nat option" where
  "hex4 s = (if length s < 4 then None else read_hex (take 4 s))"

definition is_surrogate :: "nat \<Rightarrow> bool" where
  "is_surrogate r \<longleftrightarrow> 0xD800 \<le> r \<and> r < 0xE000"

definition low_half :: "nat \<Rightarrow> string \<Rightarrow> nat option" where
  "low_half r s =
    (if r < 0xDC00 \<and> prefix (backslash # ''u'') s
     then (case hex4 (drop 2 s) of None \<Rightarrow> None
       | Some r2 \<Rightarrow> if 0xDC00 \<le> r2 \<and> r2 < 0xE000
           then Some ((r - 0xD800) * 1024 + (r2 - 0xDC00) + 0x10000) else None)
     else None)"

definition unescape :: "char \<Rightarrow> char option" where
  "unescape c =
    (if c = dquote \<or> c = backslash \<or> c = CHR ''/'' then Some c
     else if c = CHR ''b'' then Some (CHR 0x08) else if c = CHR ''f'' then Some (CHR 0x0C)
     else if c = CHR ''n'' then Some newline else if c = CHR ''r'' then Some (CHR 0x0D)
     else if c = CHR ''t'' then Some (CHR 0x09) else None)"

text \<open>
  One unit after the opening quote: what it decodes to and how many bytes it takes.
\<close>

definition string_unit :: "string \<Rightarrow> (string \<times> nat) option" where
  "string_unit s =
    (case s of [] \<Rightarrow> None
     | c # cs \<Rightarrow>
        if c = backslash then
          (case cs of [] \<Rightarrow> None
           | d # ds \<Rightarrow>
              if d = CHR ''u'' then
                (case hex4 ds of None \<Rightarrow> None
                 | Some r \<Rightarrow>
                    if \<not> is_surrogate r then Some (utf8_encode r, 6)
                    else (case low_half r (drop 4 ds) of None \<Rightarrow> Some (replacement, 6)
                      | Some r2 \<Rightarrow> Some (utf8_encode r2, 12)))
              else map_option (\<lambda>e. ([e], 2)) (unescape d))
        else if byte c < 0x20 then None
        else if byte c < 0x80 then Some ([c], 1)
        else if utf8_len s = 0 then Some (replacement, 1)
        else Some (take (utf8_len s) s, utf8_len s))"

lemma string_unit_pos: "string_unit s = Some (t, n) \<Longrightarrow> 0 < n"
  by (auto simp: string_unit_def split: list.splits if_splits option.splits)

lemma string_unit_nonempty: "string_unit s = Some (t, n) \<Longrightarrow> s \<noteq> []"
  by (auto simp: string_unit_def)

function parse_str :: "string \<Rightarrow> (string \<times> string) option" where
  "parse_str s =
    (if s \<noteq> [] \<and> hd s = dquote then Some ([], tl s)
     else case string_unit s of None \<Rightarrow> None
       | Some (t, n) \<Rightarrow> map_option (\<lambda>(u, r). (t @ u, r)) (parse_str (drop n s)))"
  by pat_completeness auto
termination
proof (relation "measure length")
  fix s t n x
  assume "string_unit s = Some x" "(t, n) = x"
  then have "string_unit s = Some (t, n)" by simp
  then have "0 < n" "s \<noteq> []" using string_unit_pos string_unit_nonempty by blast+
  then show "(drop n s, s) \<in> measure length" by (simp add: diff_less)
qed simp

declare parse_str.simps [simp del]

section \<open>Numbers\<close>

definition digits_prefix :: "string \<Rightarrow> string \<times> string" where
  "digits_prefix s = (takeWhile is_dec_digit s, dropWhile is_dec_digit s)"

text \<open>The number literal at the front: sign, integer part, fraction and exponent.\<close>

definition int_part :: "string \<Rightarrow> (string \<times> string) option" where
  "int_part s =
    (case digits_prefix s of (ds, r) \<Rightarrow>
       if ds = [] then None else if hd ds = CHR ''0'' then Some ([hd ds], tl ds @ r) else Some (ds, r))"

definition frac_part :: "string \<Rightarrow> (string \<times> string) option" where
  "frac_part s =
    (if s = [] \<or> hd s \<noteq> CHR ''.'' then Some ([], s)
     else case digits_prefix (tl s) of (ds, r) \<Rightarrow> if ds = [] then None else Some (hd s # ds, r))"

definition exp_part :: "string \<Rightarrow> (string \<times> string) option" where
  "exp_part s =
    (if s = [] \<or> hd s \<noteq> CHR ''e'' \<and> hd s \<noteq> CHR ''E'' then Some ([], s)
     else let sg = (if tl s \<noteq> [] \<and> (hd (tl s) = CHR ''+'' \<or> hd (tl s) = CHR ''-'') then [hd (tl s)] else [])
       in case digits_prefix (drop (length sg) (tl s)) of (ds, r) \<Rightarrow>
         if ds = [] then None else Some (hd s # sg @ ds, r))"

definition parse_num :: "string \<Rightarrow> (string \<times> string) option" where
  "parse_num s =
    (let sg = (if s \<noteq> [] \<and> hd s = CHR ''-'' then ''-'' else []) in
     case int_part (drop (length sg) s) of None \<Rightarrow> None
     | Some (i, r) \<Rightarrow> (case frac_part r of None \<Rightarrow> None
         | Some (f, r) \<Rightarrow> map_option (\<lambda>(e, r). (sg @ i @ f @ e, r)) (exp_part r)))"

section \<open>The parser\<close>

definition skip_ws :: "string \<Rightarrow> string" where
  "skip_ws s = dropWhile (\<lambda>c. c \<in> {CHR '' '', CHR 0x09, CHR 0x0D, newline}) s"

text \<open>
  Recursive descent. Every call uses a unit of fuel; a value of the input of length
  \<open>n\<close> needs at most \<open>2 * n + 1\<close> units.
\<close>

fun parse_val :: "nat \<Rightarrow> string \<Rightarrow> (json \<times> string) option"
  and parse_elems :: "nat \<Rightarrow> string \<Rightarrow> (json list \<times> string) option"
  and parse_members :: "nat \<Rightarrow> string \<Rightarrow> ((string \<times> json) list \<times> string) option" where
  "parse_val 0 s = None"
| "parse_val (Suc n) s =
    (case skip_ws s of [] \<Rightarrow> None
     | c # r \<Rightarrow>
        if c = dquote then map_option (\<lambda>(t, r). (JStr t, r)) (parse_str r)
        else if c = CHR ''['' then
          (if prefix '']'' (skip_ws r) then Some (JArr [], tl (skip_ws r))
           else map_option (\<lambda>(vs, r). (JArr vs, r)) (parse_elems n r))
        else if c = CHR ''{'' then
          (if prefix ''}'' (skip_ws r) then Some (JObj [], tl (skip_ws r))
           else map_option (\<lambda>(kvs, r). (JObj kvs, r)) (parse_members n r))
        else if prefix ''true'' (c # r) then Some (JBool True, drop 4 (c # r))
        else if prefix ''false'' (c # r) then Some (JBool False, drop 5 (c # r))
        else if prefix ''null'' (c # r) then Some (JNull, drop 4 (c # r))
        else map_option (\<lambda>(t, r). (JNum t, r)) (parse_num (c # r)))"
| "parse_elems 0 s = None"
| "parse_elems (Suc n) s =
    (case parse_val n s of None \<Rightarrow> None
     | Some (v, r) \<Rightarrow>
        (case skip_ws r of [] \<Rightarrow> None
         | c # r' \<Rightarrow>
            if c = CHR '','' then map_option (\<lambda>(vs, r). (v # vs, r)) (parse_elems n r')
            else if c = CHR '']'' then Some ([v], r') else None))"
| "parse_members 0 s = None"
| "parse_members (Suc n) s =
    (case skip_ws s of [] \<Rightarrow> None
     | c # r \<Rightarrow>
        if c \<noteq> dquote then None
        else case parse_str r of None \<Rightarrow> None
        | Some (k, r) \<Rightarrow>
           if \<not> prefix '':'' (skip_ws r) then None
           else case parse_val n (tl (skip_ws r)) of None \<Rightarrow> None
           | Some (v, r) \<Rightarrow>
              (case skip_ws r of [] \<Rightarrow> None
               | c # r' \<Rightarrow>
                  if c = CHR '','' then map_option (\<lambda>(kvs, r). ((k, v) # kvs, r)) (parse_members n r')
                  else if c = CHR ''}'' then Some ([(k, v)], r') else None))"

definition json_parse :: "string \<Rightarrow> json option" where
  "json_parse s =
    (case parse_val (2 * length s + 1) s of None \<Rightarrow> None
     | Some (v, r) \<Rightarrow> if skip_ws r = [] then Some v else None)"

section \<open>Floats\<close>

text \<open>The rational number that a number literal denotes, and \<open>ParseFloat\<close> on it.\<close>

definition exp10 :: "int \<Rightarrow> rat" where
  "exp10 e = (if 0 \<le> e then 10 ^ nat e else 1 / 10 ^ nat (- e))"

definition digits_value :: "string \<Rightarrow> nat" where
  "digits_value ds = value_of 10 (map dec_digit ds)"

definition exp_value :: "string \<Rightarrow> int" where
  "exp_value s = (case s of [] \<Rightarrow> 0
     | c # r \<Rightarrow> if r \<noteq> [] \<and> hd r = CHR ''-'' then - int (digits_value (tl r))
         else int (digits_value (if r \<noteq> [] \<and> hd r = CHR ''+'' then tl r else r)))"

definition num_value :: "string \<Rightarrow> (bool \<times> rat) option" where
  "num_value s =
    (let neg = (s \<noteq> [] \<and> hd s = CHR ''-'') in
     case int_part (if neg then tl s else s) of None \<Rightarrow> None
     | Some (i, r) \<Rightarrow> (case frac_part r of None \<Rightarrow> None
         | Some (f, r) \<Rightarrow> (case exp_part r of None \<Rightarrow> None
             | Some (e, r) \<Rightarrow> if r \<noteq> [] then None
                 else Some (neg, of_nat (digits_value (i @ tl f)) *
                   exp10 (exp_value e - int (length (tl f)))))))"

definition parse_float :: "string \<Rightarrow> f64 option" where
  "parse_float s = (case num_value s of None \<Rightarrow> None
     | Some (neg, q) \<Rightarrow> (case round_mag neg q of Fin sg m \<Rightarrow> Some (Fin sg m) | _ \<Rightarrow> None))"

text \<open>
  The decimal exponent: the \<open>e\<close> with \<open>10 ^ (e - 1) \<le> m < 10 ^ e\<close>. Magnitudes of binary64
  lie between \<open>10 ^ -324\<close> and \<open>10 ^ 309\<close>.
\<close>

definition dec_exp :: "rat \<Rightarrow> int" where
  "dec_exp m =
    (if 1 \<le> m then int (length (dec (nat \<lfloor>m\<rfloor>)))
     else (case find (\<lambda>k. 1 \<le> m * 10 ^ Suc k) [0..<400] of Some k \<Rightarrow> - int k | None \<Rightarrow> - 400))"

text \<open>
  The shortest digits that round back to \<open>m\<close>: for each number of digits, the candidates
  below and above, the closer one first. At most 17 digits are needed.
\<close>

definition round_trips :: "rat \<Rightarrow> nat \<times> int \<Rightarrow> bool" where
  "round_trips m = (\<lambda>(n, e). round_mag False (of_nat n * exp10 e) = Fin False m)"

definition candidates :: "rat \<Rightarrow> nat \<Rightarrow> (nat \<times> int) list" where
  "candidates m p =
    (let e = dec_exp m - int p; q = m / exp10 e; lo = nat \<lfloor>q\<rfloor>
     in if q - of_nat lo \<le> 1 / 2 then [(lo, e), (Suc lo, e)] else [(Suc lo, e), (lo, e)])"

definition shortest :: "rat \<Rightarrow> (nat \<times> int) option" where
  "shortest m = find (round_trips m) (concat (map (candidates m) [1..<18]))"

text \<open>
  The digits without trailing zeros and the position of the point, then the layouts
  \<open>%f\<close> and \<open>%e\<close>; the encoder takes \<open>%e\<close> below \<open>1e-6\<close> and from \<open>1e21\<close> on, with a short exponent.
\<close>

definition trim_zeros :: "nat \<times> int \<Rightarrow> string \<times> int" where
  "trim_zeros = (\<lambda>(n, e). let ds = dec n in
     (trim_right_char CHR ''0'' ds, int (length ds) + e))"

definition layout_f :: "string \<times> int \<Rightarrow> string" where
  "layout_f = (\<lambda>(ds, dp).
     (if dp \<le> 0 then ''0'' else take (nat dp) (ds @ replicate (nat dp - length ds) CHR ''0'')) @
     (if int (length ds) \<le> dp then []
      else ''.'' @ replicate (nat (- dp)) CHR ''0'' @ drop (nat dp) ds))"

definition layout_e :: "string \<times> int \<Rightarrow> string" where
  "layout_e = (\<lambda>(ds, dp). take 1 ds @ (if length ds \<le> 1 then [] else ''.'' @ drop 1 ds) @
     ''e'' @ (if dp - 1 < 0 then ''-'' @ dec (nat (1 - dp))
              else ''+'' @ pad_left 2 CHR ''0'' (dec (nat (dp - 1)))))"

definition json_mag :: "rat \<Rightarrow> string option" where
  "json_mag m =
    (if m = 0 then Some ''0''
     else map_option (\<lambda>nd. let d = trim_zeros nd in
       if f_less (Fin False m) (round_rat (1 / 10 ^ 6)) \<or> 10 ^ 21 \<le> m then layout_e d else layout_f d) (shortest m))"

definition json_float :: "f64 \<Rightarrow> string option" where
  "json_float x = (case x of
      Fin neg m \<Rightarrow> map_option (\<lambda>s. (if neg then ''-'' else []) @ s) (json_mag m)
    | _ \<Rightarrow> None)"

section \<open>The encoder\<close>

text \<open>
  A layout gives what separates the elements at a depth and what follows a colon: nothing
  when compact, a line break and two spaces per level when indented.
\<close>

record layout =
  lay_break :: "nat \<Rightarrow> string"
  lay_colon :: string

definition compact :: layout where
  "compact = \<lparr>lay_break = (\<lambda>d. []), lay_colon = '':''\<rparr>"

definition indented :: layout where
  "indented = \<lparr>lay_break = (\<lambda>d. newline # replicate (2 * d) CHR '' ''), lay_colon = '': ''\<rparr>"

definition bracketed :: "layout \<Rightarrow> nat \<Rightarrow> char \<Rightarrow> char \<Rightarrow> string list \<Rightarrow> string" where
  "bracketed L d opn cls items =
    (if items = [] then [opn, cls]
     else opn # lay_break L (Suc d) @ join ('','' @ lay_break L (Suc d)) items @ lay_break L d @ [cls])"

fun encode :: "layout \<Rightarrow> nat \<Rightarrow> any \<Rightarrow> string option"
  and encode_members :: "layout \<Rightarrow> nat \<Rightarrow> (string \<times> any) list \<Rightarrow> string option" where
  "encode L d ANull = Some ''null''"
| "encode L d (AStr s) = Some (json_quote s)"
| "encode L d (AInt i) = Some (dec_int i)"
| "encode L d (ABool b) = Some (if b then ''true'' else ''false'')"
| "encode L d (AFloat x) = json_float x"
| "encode L d (AList xs) =
    map_option (bracketed L d CHR ''['' CHR '']'') (those (map (encode L (Suc d)) xs))"
| "encode L d (AMap kvs) = encode_members L d kvs"
| "encode L d (AObj kvs) = encode_members L d kvs"
| "encode_members L d kvs =
    map_option (bracketed L d CHR ''{'' CHR ''}'')
      (those (map (\<lambda>(k, v). map_option (\<lambda>s. json_quote k @ lay_colon L @ s) (encode L (Suc d) v)) kvs))"

text \<open>The floats of a value, in the order of the encoder.\<close>

fun any_floats :: "any \<Rightarrow> f64 list" where
  "any_floats (AFloat x) = [x]"
| "any_floats (AList xs) = concat (map any_floats xs)"
| "any_floats (AMap kvs) = concat (map (\<lambda>(k, v). any_floats v) kvs)"
| "any_floats (AObj kvs) = concat (map (\<lambda>(k, v). any_floats v) kvs)"
| "any_floats _ = []"

text \<open>Nothing but a float without a text makes the encoder fail.\<close>

lemma those_total: "(\<And>x. x \<in> set xs \<Longrightarrow> f x \<noteq> None) \<Longrightarrow> those (map f xs) \<noteq> None"
  by (induction xs) fastforce+

lemma encode_total:
  shows "(\<And>x. x \<in> set (any_floats a) \<Longrightarrow> json_float x \<noteq> None) \<Longrightarrow> encode L d a \<noteq> None"
    and "(\<And>k v x. (k, v) \<in> set kvs \<Longrightarrow> x \<in> set (any_floats v) \<Longrightarrow> json_float x \<noteq> None) \<Longrightarrow>
      encode_members L d kvs \<noteq> None"
proof (induction L d a and L d kvs rule: encode_encode_members.induct)
  case (6 L d xs)
  have "those (map (encode L (Suc d)) xs) \<noteq> None"
  proof (rule those_total)
    fix x assume x: "x \<in> set xs"
    show "encode L (Suc d) x \<noteq> None"
      by (rule 6(1) [OF x]) (use 6(2) x in fastforce)
  qed
  then show ?case by simp
next
  case (9 L d kvs)
  have "those (map (\<lambda>(k, v). map_option (\<lambda>s. json_quote k @ lay_colon L @ s) (encode L (Suc d) v)) kvs) \<noteq> None"
  proof (rule those_total)
    fix kv assume kv: "kv \<in> set kvs"
    obtain k v where e: "kv = (k, v)" by fastforce
    have "encode L (Suc d) v \<noteq> None"
      by (rule 9(1) [OF kv e [symmetric]]) (use 9(2) kv e in blast)
    then show "(\<lambda>(k, v). map_option (\<lambda>s. json_quote k @ lay_colon L @ s) (encode L (Suc d) v)) kv \<noteq> None"
      using e by simp
  qed
  then show ?case by simp
next
  case (7 L d kvs)
  have "encode_members L d kvs \<noteq> None" by (rule 7(1)) (use 7(2) in fastforce)
  then show ?case by simp
next
  case (8 L d kvs)
  have "encode_members L d kvs \<noteq> None" by (rule 8(1)) (use 8(2) in fastforce)
  then show ?case by simp
qed auto

end
