(* ===== verification/Report.thy ===== *)
theory Report
  imports Json
begin

text \<open>
  \<open>report.go\<close>: the outcome of a check, the report that collects the outcomes, the verdict
  (\<open>Finish\<close>) and the text report (\<open>renderOne\<close>, \<open>Render\<close>). The start time is kept as the two texts
  that are printed of it, and the clock reading of \<open>Finish\<close> is an argument.
\<close>

section \<open>Status values\<close>

datatype status = Pass | Fail | Warn | Info | Skip | Blocked

fun status_text :: "status \<Rightarrow> string" where
  "status_text Pass = ''pass''"
| "status_text Fail = ''fail''"
| "status_text Warn = ''warn''"
| "status_text Info = ''info''"
| "status_text Skip = ''skip''"
| "status_text Blocked = ''blocked''"

lemma status_text_inj [simp]: "status_text s = status_text t \<longleftrightarrow> s = t"
  by (cases s; cases t) simp_all

text \<open>A \<open>Status\<close> is a string in Go; maps keyed by it are ordered by its text.\<close>

instantiation status :: linorder
begin

definition less_eq_status :: "status \<Rightarrow> status \<Rightarrow> bool" where
  "less_eq_status s t \<longleftrightarrow> status_text s \<le> status_text t"

definition less_status :: "status \<Rightarrow> status \<Rightarrow> bool" where
  "less_status s t \<longleftrightarrow> status_text s < status_text t"

instance
proof
  fix s t u :: status
  show "s < t \<longleftrightarrow> s \<le> t \<and> \<not> t \<le> s"
    by (simp add: less_eq_status_def less_status_def less_le_not_le)
  show "s \<le> s" by (simp add: less_eq_status_def)
  show "s \<le> t \<Longrightarrow> t \<le> u \<Longrightarrow> s \<le> u"
    unfolding less_eq_status_def by (rule order.trans)
  show "s \<le> t \<Longrightarrow> t \<le> s \<Longrightarrow> s = t"
    using antisym [of "status_text s" "status_text t"] by (simp add: less_eq_status_def)
  show "s \<le> t \<or> t \<le> s" unfolding less_eq_status_def by (rule linear)
qed

end

section \<open>Results and reports\<close>

record result =
  res_ID :: string
  res_Title :: string
  res_Status :: status
  res_Detail :: string
  res_Data :: "(string, any) go_map"
  res_Remedy :: string

text \<open>\<open>Verdict\<close> is the empty string until \<open>Finish\<close> sets it: \<open>None\<close>.\<close>

record go_time =
  tm_rfc3339 :: string
  tm_nano :: string

record report =
  rep_Schema :: string
  rep_Tool :: string
  rep_StartedAt :: go_time
  rep_Duration :: string
  rep_Hostname :: string
  rep_Verdict :: "status option"
  rep_Summary :: "(status, nat) go_map"
  rep_Results :: "result list"

definition version :: string where "version = ''0.1.4''"

definition NewReport :: "string \<Rightarrow> go_time \<Rightarrow> report" where
  "NewReport host started =
    \<lparr>rep_Schema = ''fly.fc-preflight/v1'', rep_Tool = version, rep_StartedAt = started,
     rep_Duration = [], rep_Hostname = host, rep_Verdict = None, rep_Summary = [],
     rep_Results = []\<rparr>"

definition mk_result :: "string \<Rightarrow> string \<Rightarrow> status \<Rightarrow> string \<Rightarrow> string \<Rightarrow> result" where
  "mk_result i t st d rem =
    \<lparr>res_ID = i, res_Title = t, res_Status = st, res_Detail = d, res_Data = [], res_Remedy = rem\<rparr>"

definition append_result :: "result \<Rightarrow> report \<Rightarrow> report" where
  "append_result x r = r\<lparr>rep_Results := rep_Results r @ [x]\<rparr>"

lemma mk_result_sel [simp]:
  "res_ID (mk_result i t st d rem) = i" "res_Title (mk_result i t st d rem) = t"
  "res_Status (mk_result i t st d rem) = st" "res_Detail (mk_result i t st d rem) = d"
  "res_Data (mk_result i t st d rem) = []" "res_Remedy (mk_result i t st d rem) = rem"
  by (simp_all add: mk_result_def)

lemma append_result_Results [simp]: "rep_Results (append_result x r) = rep_Results r @ [x]"
  by (simp add: append_result_def)

section \<open>Durations\<close>

text \<open>
  \<open>time.Since(start).Round(time.Millisecond).String()\<close> for a reading of the monotonic
  clock in nanoseconds: rounded half up to milliseconds, then printed in the units of
  \<open>time.Duration\<close> with no trailing zeros in the fraction.
\<close>

definition round_ms :: "nat \<Rightarrow> nat" where
  "round_ms ns = (if ns mod 1000000 < 500000 then ns div 1000000 else ns div 1000000 + 1)"

definition frac3 :: "nat \<Rightarrow> string" where
  "frac3 ms = (if ms = 0 then []
     else trim_right_char CHR ''0'' (''.'' @ pad_left 3 CHR ''0'' (dec ms)))"

definition duration_string :: "nat \<Rightarrow> string" where
  "duration_string ms =
    (if ms = 0 then ''0s''
     else if ms < 1000 then dec ms @ ''ms''
     else let s = ms div 1000; m = s div 60; h = m div 60
       in (if h = 0 then [] else dec h @ ''h'') @
          (if m = 0 then [] else dec (m mod 60) @ ''m'') @
          dec (s mod 60) @ frac3 (ms mod 1000) @ ''s'')"

section \<open>Finish\<close>

text \<open>The loop of \<open>Finish\<close>: the counts, the verdict and the local variable \<open>blocked\<close>.\<close>

fun finish_loop :: "result list \<Rightarrow> (status, nat) go_map \<Rightarrow> status \<Rightarrow> bool \<Rightarrow>
    (status, nat) go_map \<times> status \<times> bool" where
  "finish_loop [] summary verdict blocked = (summary, verdict, blocked)"
| "finish_loop (x # xs) summary verdict blocked =
    (let st = res_Status x;
         n = (case gm_get summary st of Some n \<Rightarrow> n | None \<Rightarrow> 0)
     in finish_loop xs (gm_put st (Suc n) summary)
          (if st = Fail then Fail else verdict) (if st = Blocked then True else blocked))"

definition Finish :: "nat \<Rightarrow> report \<Rightarrow> report" where
  "Finish elapsed r =
    (case finish_loop (rep_Results r) [] Pass False of (summary, verdict, blocked) \<Rightarrow>
      r\<lparr>rep_Duration := duration_string (round_ms elapsed), rep_Summary := summary,
        rep_Verdict := Some (if blocked \<and> verdict \<noteq> Fail then Blocked else verdict)\<rparr>)"

lemma finish_loop_verdict:
  "fst (snd (finish_loop xs summary verdict blocked)) =
    (if \<exists>x \<in> set xs. res_Status x = Fail then Fail else verdict)"
  by (induction xs arbitrary: summary verdict blocked) (simp_all add: Let_def)

lemma finish_loop_blocked:
  "snd (snd (finish_loop xs summary verdict blocked)) =
    (blocked \<or> (\<exists>x \<in> set xs. res_Status x = Blocked))"
  by (induction xs arbitrary: summary verdict blocked) (simp_all add: Let_def)

lemma finish_loop_summary:
  "gm_ok summary \<Longrightarrow> finish_loop xs summary verdict blocked = (summary', verdict', blocked') \<Longrightarrow>
    gm_ok summary' \<and>
    (case gm_get summary' st of Some n \<Rightarrow> n | None \<Rightarrow> 0) =
      (case gm_get summary st of Some n \<Rightarrow> n | None \<Rightarrow> 0) +
      length (filter (\<lambda>x. res_Status x = st) xs)"
proof (induction xs arbitrary: summary verdict blocked)
  case Nil
  then show ?case by simp
next
  case (Cons x xs)
  let ?n = "case gm_get summary (res_Status x) of Some n \<Rightarrow> n | None \<Rightarrow> 0"
  let ?s = "gm_put (res_Status x) (Suc ?n) summary"
  have "gm_ok ?s" using Cons.prems(1) by (rule gm.invar_put)
  from Cons.IH [OF this] Cons.prems(2)
  have "gm_ok summary' \<and> (case gm_get summary' st of Some n \<Rightarrow> n | None \<Rightarrow> 0) =
      (case gm_get ?s st of Some n \<Rightarrow> n | None \<Rightarrow> 0) + length (filter (\<lambda>x. res_Status x = st) xs)"
    by (simp add: Let_def)
  then show ?case by (simp add: gm.lookup_put [OF Cons.prems(1)])
qed

lemma Finish_Results [simp]: "rep_Results (Finish t r) = rep_Results r"
  by (simp add: Finish_def split: prod.splits)

lemma Finish_Verdict:
  "rep_Verdict (Finish t r) = Some
    (if \<exists>x \<in> set (rep_Results r). res_Status x = Fail then Fail
     else if \<exists>x \<in> set (rep_Results r). res_Status x = Blocked then Blocked else Pass)"
  using finish_loop_verdict [of "rep_Results r" "[]" Pass False]
    finish_loop_blocked [of "rep_Results r" "[]" Pass False]
  by (auto simp: Finish_def split: prod.splits if_splits)

lemma Finish_Summary:
  "(case gm_get (rep_Summary (Finish t r)) st of Some n \<Rightarrow> n | None \<Rightarrow> 0) =
    length (filter (\<lambda>x. res_Status x = st) (rep_Results r))"
proof -
  obtain s v b where f: "finish_loop (rep_Results r) [] Pass False = (s, v, b)"
    by (metis prod_cases3)
  from finish_loop_summary [OF gm.invar_empty f, of st]
  show ?thesis by (simp add: Finish_def f gm.lookup_empty)
qed

section \<open>The text report\<close>

definition indent :: "string \<Rightarrow> string \<Rightarrow> string" where
  "indent s pad = join [newline] (map (\<lambda>l. pad @ l) (split_on newline (trim_right_char newline s)))"

definition pad_right :: "nat \<Rightarrow> string \<Rightarrow> string" where
  "pad_right w s = s @ replicate (w - length s) CHR '' ''"

fun mark :: "status \<Rightarrow> string" where
  "mark Pass = ''  ok  ''"
| "mark Fail = '' FAIL ''"
| "mark Warn = '' warn ''"
| "mark Info = '' info ''"
| "mark Skip = '' skip ''"
| "mark Blocked = ''BLOCKED''"

definition detail_pad :: string where "detail_pad = replicate 16 CHR '' ''"

definition renderOne :: "result \<Rightarrow> string" where
  "renderOne x =
    (''['' @ mark (res_Status x) @ ''] '' @ pad_right 34 (res_ID x) @ '' '' @ res_Title x) @
    (if res_Detail x \<noteq> [] then newline # indent (res_Detail x) detail_pad else []) @
    (if res_Remedy x \<noteq> [] then newline # indent (''-> '' @ res_Remedy x) detail_pad else [])"

definition bullet :: "result \<Rightarrow> string" where
  "bullet x = ''  * '' @ res_ID x @ '': '' @ res_Detail x @ [newline] @
    (if res_Remedy x \<noteq> [] then ''    '' @ res_Remedy x @ [newline] else [])"

definition bullets :: "string \<Rightarrow> result list \<Rightarrow> string" where
  "bullets header xs = (if xs = [] then [] else header @ concat (map bullet xs))"

definition summary_line :: "report \<Rightarrow> string" where
  "summary_line r =
    join '', '' (concat (map (\<lambda>k. case gm_get (rep_Summary r) k of
        Some n \<Rightarrow> if 0 < n then [dec n @ '' '' @ status_text k] else []
      | None \<Rightarrow> []) [Pass, Warn, Fail, Blocked, Info, Skip])) @
    '' in '' @ rep_Duration r @ [newline]"

definition blocked_header :: string where
  "blocked_header = newline # ''COULD NOT DETERMINE -- this says nothing about the host, only about''
     @ newline # ''this run. Address these and run again:'' @ [newline]"

definition fail_header :: string where
  "fail_header = newline # ''BLOCKING -- a Fly microVM will not run correctly here:'' @ [newline]"

definition warn_header :: string where
  "warn_header = newline # ''NON-BLOCKING -- works, but differs from a Fly host:'' @ [newline]"

definition of_status :: "status \<Rightarrow> report \<Rightarrow> result list" where
  "of_status st r = filter (\<lambda>x. res_Status x = st) (rep_Results r)"

definition verdict_text :: "report \<Rightarrow> string" where
  "verdict_text r = (case rep_Verdict r of
      None \<Rightarrow> []
    | Some Blocked \<Rightarrow> ''INCOMPLETE -- nothing disqualifying found, but the run could not finish''
    | Some st \<Rightarrow> to_upper (status_text st))"

definition rule_line :: string where "rule_line = replicate 78 CHR ''='' @ [newline]"

definition Render :: "report \<Rightarrow> string" where
  "Render r =
    newline # ''fc-preflight '' @ rep_Tool r @ '' -- '' @ rep_Hostname r @ '' -- '' @
      tm_rfc3339 (rep_StartedAt r) @ [newline] @ rule_line @ [newline] @
    concat (map (\<lambda>x. renderOne x @ [newline]) (rep_Results r)) @
    newline # rule_line @ summary_line r @
    bullets blocked_header (of_status Blocked r) @
    bullets fail_header (sort_key res_ID (of_status Fail r)) @
    bullets warn_header (of_status Warn r) @
    newline # ''VERDICT: '' @ verdict_text r @ [newline, newline]"

lemma of_status_set: "x \<in> set (of_status st r) \<longleftrightarrow> x \<in> set (rep_Results r) \<and> res_Status x = st"
  by (auto simp: of_status_def)

lemma sublist_concat_map: "x \<in> set xs \<Longrightarrow> sublist (f x) (concat (map f xs))"
  by (metis concat.simps(2) concat_append list.simps(9) map_append split_list sublist_appendI)

lemma sublist_bullets: "x \<in> set xs \<Longrightarrow> sublist (bullet x) (bullets h xs)"
  using sublist_concat_map [of x xs bullet]
  by (auto simp: bullets_def sublist_append)

lemma Render_lists_result:
  assumes "x \<in> set (rep_Results r)" and "res_Status x \<in> {Fail, Warn, Blocked}"
  shows "sublist (bullet x) (Render r)"
proof -
  have "x \<in> set (of_status (res_Status x) r)" using assms by (simp add: of_status_set)
  then have *: "sublist (bullet x) (bullets h (of_status (res_Status x) r))"
    and **: "sublist (bullet x) (bullets h (sort_key res_ID (of_status (res_Status x) r)))" for h
    by (auto intro: sublist_bullets)
  have mid: "sublist a (u @ a' @ v)" if "sublist a a'" for a a' u v :: string
    using that by (metis sublist_appendI sublist_order.order_trans)
  define pre where "pre = newline # ''fc-preflight '' @ rep_Tool r @ '' -- '' @ rep_Hostname r @
      '' -- '' @ tm_rfc3339 (rep_StartedAt r) @ [newline] @ rule_line @ [newline] @
      concat (map (\<lambda>x. renderOne x @ [newline]) (rep_Results r)) @ newline # rule_line @ summary_line r"
  have R: "Render r = pre @ bullets blocked_header (of_status Blocked r) @
      bullets fail_header (sort_key res_ID (of_status Fail r)) @
      bullets warn_header (of_status Warn r) @ newline # ''VERDICT: '' @ verdict_text r @ [newline, newline]"
    by (simp add: Render_def pre_def)
  show ?thesis
  proof (cases "res_Status x")
    case Blocked
    with * show ?thesis unfolding R by (metis mid)
  next
    case Fail
    with ** show ?thesis unfolding R by (metis mid append_assoc)
  next
    case Warn
    with * show ?thesis unfolding R by (metis mid append_assoc)
  qed (use assms in auto)
qed

end
