(* ===== verification/Os_World.thy ===== *)
theory Os_World
  imports Report "HOL-Library.State_Monad" "HOL-Library.Word"
begin

text \<open>
  The world the program runs in. The operating system is not part of the program: every
  answer it gives is a field of the record \<open>env\<close>, a function of the events so far and of
  the call's arguments, so two calls with the same arguments may differ. The program's own
  effects are the events it causes, in order, and the report it fills; a procedure of the
  program is a computation in the state monad over both. The flags are fields of \<open>env\<close>
  too: they are fixed once the command line is parsed.
\<close>

section \<open>Errors, files and events\<close>

text \<open>An error value: the error number and the text that \<open>Error()\<close> gives.\<close>

datatype os_error = OsErr (errno: nat) (err_text: string)

definition EPERM :: nat where "EPERM = 1"
definition ENOENT :: nat where "ENOENT = 2"
definition EACCES :: nat where "EACCES = 13"
definition ENOSYS :: nat where "ENOSYS = 38"

definition IsPermission :: "os_error \<Rightarrow> bool" where
  "IsPermission e \<longleftrightarrow> errno e = EPERM \<or> errno e = EACCES"

definition IsNotExist :: "os_error \<Rightarrow> bool" where
  "IsNotExist e \<longleftrightarrow> errno e = ENOENT"

text \<open>\<open>os.FileInfo\<close>: the \<open>FileMode\<close> bits and the group that owns the file.\<close>

record file_info =
  fi_mode :: "32 word"
  fi_gid :: int

definition modeCharDevice :: "32 word" where "modeCharDevice = 0x200000"

definition is_char_device :: "32 word \<Rightarrow> bool" where
  "is_char_device m \<longleftrightarrow> bit m 21"

text \<open>\<open>FileMode.String\<close>: a letter for each type bit, then the nine permission letters.\<close>

definition letters_at :: "32 word \<Rightarrow> (nat \<times> char) list \<Rightarrow> string" where
  "letters_at m xs = concat (map (\<lambda>(i, c). if bit m i then [c] else []) xs)"

definition mode_string :: "32 word \<Rightarrow> string" where
  "mode_string m =
    (let ts = letters_at m (zip (rev [19..<32]) ''dalTLDpSugct?'');
         ps = map (\<lambda>(i, c). if bit m i then c else CHR ''-'') (zip (rev [0..<9]) ''rwxrwxrwx'')
     in (if ts = [] then ''-'' else ts) @ ps)"

definition mode_perm :: "32 word \<Rightarrow> 32 word" where
  "mode_perm m = take_bit 9 m"

datatype event =
    EvStderr string
  | EvStdout string
  | EvStat string
  | EvOpen string int
  | EvRead int
  | EvClose int
  | EvIoctl int nat nat
  | EvSyscall nat nat
  | EvLookPath string
  | EvExec "string list"
  | EvMkdir string
  | EvMkdirTemp string
  | EvCreate string
  | EvWrite string bytes
  | EvTruncate string nat
  | EvRename string string
  | EvRemove string
  | EvRemoveAll string
  | EvHttpGet string
  | EvListen string
  | EvUnlisten string
  | EvStart "string list"
  | EvWait "string list"
  | EvSpawn nat
  | EvMount string string string
  | EvReadDir string
  | EvReadLink string
  | EvClock
  | EvSocket
  | EvIfreq int nat bytes
  | EvDial string
  | EvSend int nat
  | EvReceive int nat
  | EvWriteAt int nat nat
  | EvSync int
  | EvReadAt int nat nat
  | EvSleep nat
  | EvReboot

type_synonym hist = "event list"

section \<open>The environment\<close>

text \<open>
  An HTTP response: the status code and line, the body and the error that ends it. A run of
  a virtual machine monitor: what it wrote to its output until it ended, its exit code if it
  is not zero, whether its deadline had passed and how long it took, in microseconds.
\<close>

record http_response =
  hr_code :: nat
  hr_status :: string
  hr_body :: bytes
  hr_error :: "os_error option"

record vm_run =
  vr_output :: bytes
  vr_exit :: "int option"
  vr_deadline :: bool
  vr_micros :: int

text \<open>
  Concurrency. A goroutine of microVM \<open>i\<close> starts with the event \<open>EvSpawn i\<close>, and what it is
  answered is a function of the events before it, of that mark and of its own events: any
  interference by the other goroutines is some such function. \<open>vm_mix\<close> interleaves the events of
  the goroutines and \<open>vm_order\<close> is the order in which they finish.
\<close>

text \<open>A compressed archive: what cannot be opened, or its members and the error after them.\<close>

type_synonym tar_archive = "(string \<times> bytes \<times> os_error option) list \<times> os_error option"

record env =
  fl_stage :: string
  fl_json :: string
  fl_verbose :: bool
  fl_offline :: bool
  fl_firecracker :: string
  fl_kernel :: string
  fl_cache :: string
  fl_vms :: int
  fl_vcpus :: int
  fl_mem :: int
  fl_boot_timeout :: int
  fl_boot_args :: string
  fl_guest_net :: string
  goarch :: string
  geteuid :: int
  num_cpu :: int
  os_getgroups :: "hist \<Rightarrow> os_error + int list"
  os_stat :: "hist \<Rightarrow> string \<Rightarrow> os_error + file_info"
  os_open :: "hist \<Rightarrow> string \<Rightarrow> bool \<Rightarrow> os_error + int"
  os_read :: "hist \<Rightarrow> string \<Rightarrow> bytes \<times> os_error option"
  os_ioctl :: "hist \<Rightarrow> int \<Rightarrow> nat \<Rightarrow> nat \<Rightarrow> os_error + nat"
  os_syscall :: "hist \<Rightarrow> nat \<Rightarrow> nat \<Rightarrow> os_error + nat"
  os_lookpath :: "hist \<Rightarrow> string \<Rightarrow> os_error + string"
  os_output :: "hist \<Rightarrow> string list \<Rightarrow> string \<times> os_error option"
  os_statfs :: "hist \<Rightarrow> string \<Rightarrow> os_error + int"
  os_rlimit :: "hist \<Rightarrow> os_error + nat \<times> nat"
  os_gunzip :: "bytes \<Rightarrow> os_error + bytes \<times> os_error option"
  os_untar :: "bytes \<times> os_error option \<Rightarrow> os_error + tar_archive"
  os_executable :: "os_error + string"
  os_elf :: "hist \<Rightarrow> string \<Rightarrow> os_error + (nat \<times> (os_error + bytes)) list"
  os_mkdir :: "hist \<Rightarrow> string \<Rightarrow> os_error option"
  os_mkdir_temp :: "hist \<Rightarrow> os_error + string"
  os_create :: "hist \<Rightarrow> string \<Rightarrow> os_error option"
  os_write :: "hist \<Rightarrow> string \<Rightarrow> bytes \<Rightarrow> os_error option"
  os_truncate :: "hist \<Rightarrow> string \<Rightarrow> nat \<Rightarrow> os_error option"
  os_rename :: "hist \<Rightarrow> string \<Rightarrow> string \<Rightarrow> os_error option"
  os_http :: "hist \<Rightarrow> string \<Rightarrow> os_error + http_response"
  os_listen :: "hist \<Rightarrow> string \<Rightarrow> os_error option"
  os_pipe :: "hist \<Rightarrow> os_error option"
  os_vm :: "hist \<Rightarrow> string list \<Rightarrow> os_error + vm_run"
  vm_order :: "hist \<Rightarrow> nat \<Rightarrow> nat list"
  vm_mix :: "hist list \<Rightarrow> hist"
  json_error :: "string \<Rightarrow> string"
  goos :: string
  getpid :: int
  os_args :: "string list"
  os_hostname :: "string"
  os_now :: "hist \<Rightarrow> go_time"
  os_clock :: "hist \<Rightarrow> int"
  os_mount :: "hist \<Rightarrow> string \<Rightarrow> string \<Rightarrow> string \<Rightarrow> os_error option"
  os_readdir :: "hist \<Rightarrow> string \<Rightarrow> os_error + string list"
  os_readlink :: "hist \<Rightarrow> string \<Rightarrow> os_error + string"
  os_socket :: "hist \<Rightarrow> os_error + int"
  os_ifreq :: "hist \<Rightarrow> int \<Rightarrow> nat \<Rightarrow> bytes \<Rightarrow> os_error + 16 word"
  os_dial :: "hist \<Rightarrow> string \<Rightarrow> os_error + int"
  os_send :: "hist \<Rightarrow> int \<Rightarrow> nat \<Rightarrow> os_error option"
  os_receive :: "hist \<Rightarrow> int \<Rightarrow> nat \<Rightarrow> os_error option"
  os_write_at :: "hist \<Rightarrow> int \<Rightarrow> nat \<Rightarrow> nat \<Rightarrow> os_error option"
  os_sync :: "hist \<Rightarrow> int \<Rightarrow> os_error option"
  os_read_at :: "hist \<Rightarrow> int \<Rightarrow> nat \<Rightarrow> nat \<Rightarrow> os_error option"

record world =
  w_trace :: hist
  w_report :: report

type_synonym 'a go = "(world, 'a) state"

abbreviation return :: "'a \<Rightarrow> 'a go" where "return \<equiv> State_Monad.return"

abbreviation results :: "world \<Rightarrow> result list" where
  "results w \<equiv> rep_Results (w_report w)"

section \<open>Primitive operations\<close>

definition emit :: "event \<Rightarrow> unit go" where
  "emit ev = State (\<lambda>w. ((), w\<lparr>w_trace := w_trace w @ [ev]\<rparr>))"

text \<open>An answer of the operating system to a call, which depends on what happened before.\<close>

definition ask :: "(hist \<Rightarrow> 'a) \<Rightarrow> 'a go" where
  "ask f = State (\<lambda>w. (f (w_trace w), w))"

definition go_stat :: "env \<Rightarrow> string \<Rightarrow> (os_error + file_info) go" where
  "go_stat E p = do { r \<leftarrow> ask (\<lambda>h. os_stat E h p); emit (EvStat p); return r }"

definition go_open :: "env \<Rightarrow> string \<Rightarrow> bool \<Rightarrow> (os_error + int) go" where
  "go_open E p rdwr = do {
     r \<leftarrow> ask (\<lambda>h. os_open E h p rdwr);
     case r of Inl e \<Rightarrow> return (Inl e)
     | Inr fd \<Rightarrow> do { emit (EvOpen p fd); return (Inr fd) } }"

definition go_read :: "env \<Rightarrow> string \<Rightarrow> int \<Rightarrow> (bytes \<times> os_error option) go" where
  "go_read E p fd = do { r \<leftarrow> ask (\<lambda>h. os_read E h p); emit (EvRead fd); return r }"

definition go_close :: "int \<Rightarrow> unit go" where
  "go_close fd = emit (EvClose fd)"

text \<open>
  The idiom \<open>x, err := acquire(); if err != nil { ... }; defer release(x); ...\<close>: the
  release runs after the body whichever way the body returns.
\<close>

definition with_defer ::
  "('e + 'x) go \<Rightarrow> ('x \<Rightarrow> unit go) \<Rightarrow> ('e \<Rightarrow> 'a go) \<Rightarrow> ('x \<Rightarrow> 'a go) \<Rightarrow> 'a go" where
  "with_defer acquire release onerr body = do {
     r \<leftarrow> acquire;
     case r of Inl e \<Rightarrow> onerr e
     | Inr x \<Rightarrow> do { a \<leftarrow> body x; release x; return a } }"

definition ReadFile :: "env \<Rightarrow> string \<Rightarrow> (os_error + bytes) go" where
  "ReadFile E p = with_defer (go_open E p False) go_close (\<lambda>e. return (Inl e))
     (\<lambda>fd. do {
        (c, e) \<leftarrow> go_read E p fd;
        return (case e of None \<Rightarrow> Inr c | Some e \<Rightarrow> Inl e) })"

definition ioctl :: "env \<Rightarrow> int \<Rightarrow> nat \<Rightarrow> nat \<Rightarrow> (os_error + nat) go" where
  "ioctl E fd req arg = do {
     r \<leftarrow> ask (\<lambda>h. os_ioctl E h fd req arg);
     emit (EvIoctl fd req arg);
     return r }"

text \<open>An \<open>ioctl\<close> or a system call whose result is a new descriptor.\<close>

definition new_fd :: "string \<Rightarrow> (os_error + nat) go \<Rightarrow> (os_error + int) go" where
  "new_fd what m = do {
     r \<leftarrow> m;
     case r of Inl e \<Rightarrow> return (Inl e)
     | Inr v \<Rightarrow> do { emit (EvOpen what (int v)); return (Inr (int v)) } }"

definition go_syscall :: "env \<Rightarrow> nat \<Rightarrow> nat \<Rightarrow> (os_error + nat) go" where
  "go_syscall E nr arg = do {
     r \<leftarrow> ask (\<lambda>h. os_syscall E h nr arg);
     emit (EvSyscall nr arg);
     return r }"

definition LookPath :: "env \<Rightarrow> string \<Rightarrow> (os_error + string) go" where
  "LookPath E p = do { r \<leftarrow> ask (\<lambda>h. os_lookpath E h p); emit (EvLookPath p); return r }"

definition go_output :: "env \<Rightarrow> string list \<Rightarrow> (string \<times> os_error option) go" where
  "go_output E argv = do { r \<leftarrow> ask (\<lambda>h. os_output E h argv); emit (EvExec argv); return r }"

text \<open>
  \<open>defer release\<close> and the rest of the function; and \<open>if err := m; err != nil { ... }\<close> with
  the rest of the function, for a call that only returns an error.
\<close>

definition deferring :: "unit go \<Rightarrow> 'a go \<Rightarrow> 'a go" where
  "deferring release body = do { a \<leftarrow> body; release; return a }"

definition unless_error :: "'e option go \<Rightarrow> ('e \<Rightarrow> 'a go) \<Rightarrow> 'a go \<Rightarrow> 'a go" where
  "unless_error m onerr rest = do {
     e \<leftarrow> m;
     case e of Some e \<Rightarrow> onerr e | None \<Rightarrow> rest }"

text \<open>A call that changes the host: the event, and the error the host answers with.\<close>

definition effect :: "event \<Rightarrow> (hist \<Rightarrow> 'a) \<Rightarrow> 'a go" where
  "effect ev answer = do { r \<leftarrow> ask answer; emit ev; return r }"

fun for_each :: "'x list \<Rightarrow> ('x \<Rightarrow> unit go) \<Rightarrow> unit go" where
  "for_each [] body = return ()"
| "for_each (x # xs) body = do { body x; for_each xs body }"

text \<open>A loop that carries a variable from one round to the next.\<close>

fun for_acc :: "'x list \<Rightarrow> 'a \<Rightarrow> ('x \<Rightarrow> 'a \<Rightarrow> 'a go) \<Rightarrow> 'a go" where
  "for_acc [] a body = return a"
| "for_acc (x # xs) a body = do { a \<leftarrow> body x a; for_acc xs a body }"

section \<open>Filling the report\<close>

definition put_result :: "result \<Rightarrow> unit go" where
  "put_result x = State (\<lambda>w. ((), w\<lparr>w_report := append_result x (w_report w)\<rparr>))"

definition Add :: "env \<Rightarrow> result \<Rightarrow> unit go" where
  "Add E x = do {
     put_result x;
     if fl_verbose E then emit (EvStderr (renderOne x @ [newline])) else return () }"

definition Addf :: "env \<Rightarrow> string \<Rightarrow> string \<Rightarrow> status \<Rightarrow> string \<Rightarrow> unit go" where
  "Addf E i t st d = Add E (mk_result i t st d [])"

definition report_Fail :: "env \<Rightarrow> string \<Rightarrow> string \<Rightarrow> string \<Rightarrow> string \<Rightarrow> unit go" where
  "report_Fail E i t d rem = Add E (mk_result i t Fail d rem)"

definition report_Blocked :: "env \<Rightarrow> string \<Rightarrow> string \<Rightarrow> string \<Rightarrow> string \<Rightarrow> unit go" where
  "report_Blocked E i t d rem = Add E (mk_result i t Blocked d rem)"

definition report_Warn :: "env \<Rightarrow> string \<Rightarrow> string \<Rightarrow> string \<Rightarrow> string \<Rightarrow> unit go" where
  "report_Warn E i t d rem = Add E (mk_result i t Warn d rem)"

definition with_data :: "(string, any) go_map \<Rightarrow> result \<Rightarrow> result" where
  "with_data d x = x\<lparr>res_Data := d\<rparr>"

lemma with_data_sel [simp]:
  "res_ID (with_data d x) = res_ID x" "res_Title (with_data d x) = res_Title x"
  "res_Status (with_data d x) = res_Status x" "res_Detail (with_data d x) = res_Detail x"
  "res_Data (with_data d x) = d" "res_Remedy (with_data d x) = res_Remedy x"
  by (simp_all add: with_data_def)

section \<open>Running computations\<close>

lemma run_emit [simp]: "run_state (emit ev) w = ((), w\<lparr>w_trace := w_trace w @ [ev]\<rparr>)"
  by (simp add: emit_def)

lemma run_ask [simp]: "run_state (ask f) w = (f (w_trace w), w)"
  by (simp add: ask_def)

lemma run_put_result [simp]:
  "run_state (put_result x) w = ((), w\<lparr>w_report := append_result x (w_report w)\<rparr>)"
  by (simp add: put_result_def)

text \<open>What a computation makes of the world.\<close>

definition exec :: "'a go \<Rightarrow> world \<Rightarrow> world" where
  "exec m w = snd (run_state m w)"

definition result_of :: "'a go \<Rightarrow> world \<Rightarrow> 'a" where
  "result_of m w = fst (run_state m w)"

lemma exec_return [simp]: "exec (return x) w = w"
  by (simp add: exec_def)

lemma exec_bind [simp]: "exec (m \<bind> f) w = exec (f (result_of m w)) (exec m w)"
  by (simp add: exec_def result_of_def split: prod.splits)

lemma result_return [simp]: "result_of (return x) w = x"
  by (simp add: result_of_def)

lemma result_bind [simp]: "result_of (m \<bind> f) w = result_of (f (result_of m w)) (exec m w)"
  by (simp add: exec_def result_of_def split: prod.splits)

lemma exec_emit [simp]: "exec (emit ev) w = w\<lparr>w_trace := w_trace w @ [ev]\<rparr>"
  by (simp add: exec_def)

lemma exec_ask [simp]: "exec (ask f) w = w" "result_of (ask f) w = f (w_trace w)"
  by (simp_all add: exec_def result_of_def)

lemma exec_put_result [simp]:
  "exec (put_result x) w = w\<lparr>w_report := append_result x (w_report w)\<rparr>"
  by (simp add: exec_def)

lemma exec_effect [simp]:
  "exec (effect ev f) w = w\<lparr>w_trace := w_trace w @ [ev]\<rparr>" "result_of (effect ev f) w = f (w_trace w)"
  by (simp_all add: effect_def)

lemma exec_deferring [simp]:
  "exec (deferring release body) w = exec release (exec body w)"
  "result_of (deferring release body) w = result_of body w"
  by (simp_all add: deferring_def)

lemma exec_unless_error:
  "exec (unless_error m h k) w =
    (case result_of m w of Some e \<Rightarrow> exec (h e) (exec m w) | None \<Rightarrow> exec k (exec m w))"
  "result_of (unless_error m h k) w =
    (case result_of m w of Some e \<Rightarrow> result_of (h e) (exec m w) | None \<Rightarrow> result_of k (exec m w))"
  by (simp_all add: unless_error_def split: option.splits)

lemma state_io_rel_exec: "state_io_rel R m \<longleftrightarrow> (\<forall>w. R w (exec m w))"
  by (simp add: state_io_rel_def exec_def)

section \<open>Relations that every step of a computation keeps\<close>

text \<open>
  A reflexive and transitive relation between worlds that holds across the parts of a
  computation holds across the whole: one rule per construct of the monad.
\<close>

locale step_relation =
  fixes R :: "world \<Rightarrow> world \<Rightarrow> bool"
  assumes refl: "R w w"
    and trans: "R w w' \<Longrightarrow> R w' w'' \<Longrightarrow> R w w''"
begin

lemma keeps_return: "state_io_rel R (return x)"
  by (simp add: state_io_rel_exec refl)

lemma keeps_bind:
  "state_io_rel R m \<Longrightarrow> (\<And>x. state_io_rel R (f x)) \<Longrightarrow> state_io_rel R (m \<bind> f)"
  by (auto simp: state_io_rel_exec intro: trans)

lemma keeps_ask: "state_io_rel R (ask f)"
  by (simp add: state_io_rel_exec refl)

lemma keeps_if: "(c \<Longrightarrow> state_io_rel R a) \<Longrightarrow> (\<not> c \<Longrightarrow> state_io_rel R b) \<Longrightarrow>
    state_io_rel R (if c then a else b)"
  by simp

lemma keeps_let: "state_io_rel R (f x) \<Longrightarrow> state_io_rel R (Let x f)"
  by simp

lemma keeps_option: "state_io_rel R a \<Longrightarrow> (\<And>x. state_io_rel R (f x)) \<Longrightarrow>
    state_io_rel R (case_option a f v)"
  by (simp split: option.split)

lemma keeps_sum: "(\<And>x. state_io_rel R (f x)) \<Longrightarrow> (\<And>x. state_io_rel R (g x)) \<Longrightarrow>
    state_io_rel R (case_sum f g v)"
  by (simp split: sum.split)

lemma keeps_prod: "(\<And>x y. state_io_rel R (f x y)) \<Longrightarrow> state_io_rel R (case_prod f v)"
  by (simp split: prod.split)

lemma keeps_prod_fun: "(\<And>x y. state_io_rel R (f x y a)) \<Longrightarrow> state_io_rel R (case_prod f v a)"
  by (simp split: prod.split)

lemma keeps_list: "state_io_rel R a \<Longrightarrow> (\<And>x xs. state_io_rel R (f x xs)) \<Longrightarrow> state_io_rel R (case_list a f v)"
  by (simp split: list.split)

lemma keeps_for_each: "(\<And>x. state_io_rel R (body x)) \<Longrightarrow> state_io_rel R (for_each xs body)"
  by (induction xs) (auto intro: keeps_return keeps_bind)

lemma keeps_for_acc: "(\<And>x a. state_io_rel R (body x a)) \<Longrightarrow> state_io_rel R (for_acc xs a body)"
  by (induction xs arbitrary: a) (auto intro: keeps_return keeps_bind)

text \<open>The control structures of the boot stage, from the same rules.\<close>

lemma keeps_deferring: "state_io_rel R r \<Longrightarrow> state_io_rel R b \<Longrightarrow> state_io_rel R (deferring r b)"
  unfolding deferring_def by (intro keeps_bind keeps_return)

lemma keeps_unless_error: "state_io_rel R m \<Longrightarrow> (\<And>e. state_io_rel R (h e)) \<Longrightarrow> state_io_rel R k \<Longrightarrow>
    state_io_rel R (unless_error m h k)"
  unfolding unless_error_def by (intro keeps_bind keeps_option)

lemma keeps_with_defer: "state_io_rel R m \<Longrightarrow> (\<And>x. state_io_rel R (r x)) \<Longrightarrow> (\<And>e. state_io_rel R (h e)) \<Longrightarrow>
    (\<And>x. state_io_rel R (b x)) \<Longrightarrow> state_io_rel R (with_defer m r h b)"
  unfolding with_defer_def by (intro keeps_bind keeps_sum keeps_return)

lemma keeps_effect: "state_io_rel R (emit ev) \<Longrightarrow> state_io_rel R (effect ev f)"
  unfolding effect_def by (intro keeps_bind keeps_ask keeps_return)

lemma keeps_go_open: "(\<And>fd. state_io_rel R (emit (EvOpen p fd))) \<Longrightarrow> state_io_rel R (go_open E p b)"
  unfolding go_open_def by (intro keeps_bind keeps_ask keeps_sum keeps_return)

lemma keeps_go_read: "state_io_rel R (emit (EvRead fd)) \<Longrightarrow> state_io_rel R (go_read E p fd)"
  unfolding go_read_def by (intro keeps_bind keeps_ask keeps_return)

lemma keeps_go_close: "state_io_rel R (emit (EvClose fd)) \<Longrightarrow> state_io_rel R (go_close fd)"
  unfolding go_close_def .

lemmas keeps_flow = keeps_deferring keeps_unless_error keeps_with_defer keeps_effect
  keeps_go_open keeps_go_read keeps_go_close

lemmas keeps = keeps_return keeps_bind keeps_ask keeps_if keeps_let keeps_option keeps_sum keeps_list
  keeps_prod keeps_prod_fun keeps_for_each keeps_for_acc

end

section \<open>What a host check may do\<close>

text \<open>The descriptors that are open after a trace, with multiplicity.\<close>

fun fd_event :: "event \<Rightarrow> int multiset \<Rightarrow> int multiset" where
  "fd_event (EvOpen p fd) M = M + {#fd#}"
| "fd_event (EvClose fd) M = M - {#fd#}"
| "fd_event _ M = M"

definition open_fds :: "hist \<Rightarrow> int multiset" where
  "open_fds h = fold fd_event h {#}"

lemma open_fds_snoc [simp]: "open_fds (h @ [ev]) = fd_event ev (open_fds h)"
  by (simp add: open_fds_def)

text \<open>
  Events that leave the host as it is. Running another program is allowed only for the
  queries of the preflight.
\<close>

definition query_commands :: "string list list" where
  "query_commands = [[''systemd-detect-virt''], [''modprobe'', ''-n'', ''nbd'']]"

definition firewall_query :: "string list \<Rightarrow> bool" where
  "firewall_query argv \<longleftrightarrow> tl argv = [''list'', ''ruleset''] \<or> tl argv = [''-S'']"

fun inspecting :: "event \<Rightarrow> bool" where
  "inspecting (EvStderr s) = True"
| "inspecting (EvStat p) = True"
| "inspecting (EvOpen p fd) = True"
| "inspecting (EvRead fd) = True"
| "inspecting (EvClose fd) = True"
| "inspecting (EvIoctl fd r a) = True"
| "inspecting (EvSyscall nr a) = True"
| "inspecting (EvLookPath p) = True"
| "inspecting (EvExec argv) = (argv \<in> set query_commands \<or> firewall_query argv)"
| "inspecting _ = False"

text \<open>
  The relation of a check: it appends results that satisfy \<open>P\<close> and changes nothing else
  of the report, it only inspects the host, and it closes every descriptor it opens.
\<close>

definition check_rel :: "(result \<Rightarrow> bool) \<Rightarrow> world \<Rightarrow> world \<Rightarrow> bool" where
  "check_rel P w w' \<longleftrightarrow>
    (\<exists>rs. list_all P rs \<and> w_report w' = (w_report w)\<lparr>rep_Results := results w @ rs\<rparr>) \<and>
    (\<exists>evs. list_all inspecting evs \<and> w_trace w' = w_trace w @ evs) \<and>
    open_fds (w_trace w') = open_fds (w_trace w)"

lemma check_rel_refl: "check_rel P w w"
  unfolding check_rel_def by (auto intro: exI [of _ "[]"])

lemma check_rel_trans: "check_rel P w w' \<Longrightarrow> check_rel P w' w'' \<Longrightarrow> check_rel P w w''"
  unfolding check_rel_def by (clarsimp, metis append.assoc list_all_append)

interpretation chk: step_relation "check_rel P" for P
  by unfold_locales (rule check_rel_refl, erule (1) check_rel_trans)

abbreviation checks :: "(result \<Rightarrow> bool) \<Rightarrow> 'a go \<Rightarrow> bool" where
  "checks P m \<equiv> state_io_rel (check_rel P) m"

named_theorems check_intros \<open>the operations a check may use\<close>

lemma checks_emit:
  "inspecting ev \<Longrightarrow> (\<And>M. fd_event ev M = M) \<Longrightarrow> checks P (emit ev)"
  by (auto simp: state_io_rel_exec check_rel_def intro: exI [of _ "[]"])

lemma checks_put_result: "P x \<Longrightarrow> checks P (put_result x)"
  by (auto simp: state_io_rel_exec check_rel_def append_result_def intro: exI [of _ "[x]"])

lemma checks_Add [check_intros]: "P x \<Longrightarrow> checks P (Add E x)"
  unfolding Add_def by (intro chk.keeps checks_put_result checks_emit) simp_all

lemma checks_Addf [check_intros]: "P (mk_result i t st d []) \<Longrightarrow> checks P (Addf E i t st d)"
  unfolding Addf_def by (rule checks_Add)

lemma checks_Fail [check_intros]: "P (mk_result i t Fail d r) \<Longrightarrow> checks P (report_Fail E i t d r)"
  unfolding report_Fail_def by (rule checks_Add)

lemma checks_Blocked [check_intros]:
  "P (mk_result i t Blocked d r) \<Longrightarrow> checks P (report_Blocked E i t d r)"
  unfolding report_Blocked_def by (rule checks_Add)

lemma checks_Warn [check_intros]: "P (mk_result i t Warn d r) \<Longrightarrow> checks P (report_Warn E i t d r)"
  unfolding report_Warn_def by (rule checks_Add)

lemma checks_go_stat [check_intros]: "checks P (go_stat E p)"
  unfolding go_stat_def by (intro chk.keeps checks_emit) simp_all

lemma checks_go_read [check_intros]: "checks P (go_read E p fd)"
  unfolding go_read_def by (intro chk.keeps checks_emit) simp_all

lemma checks_ioctl [check_intros]: "checks P (ioctl E fd req arg)"
  unfolding ioctl_def by (intro chk.keeps checks_emit) simp_all

lemma checks_go_syscall [check_intros]: "checks P (go_syscall E nr arg)"
  unfolding go_syscall_def by (intro chk.keeps checks_emit) simp_all

lemma checks_LookPath [check_intros]: "checks P (LookPath E p)"
  unfolding LookPath_def by (intro chk.keeps checks_emit) simp_all

lemma checks_go_output [check_intros]:
  "argv \<in> set query_commands \<or> firewall_query argv \<Longrightarrow> checks P (go_output E argv)"
  unfolding go_output_def by (intro chk.keeps checks_emit) simp_all

text \<open>
  A computation that acquires a descriptor: an error leaves the descriptors alone, a
  success adds the one that is returned.
\<close>

definition acquires :: "(result \<Rightarrow> bool) \<Rightarrow> ('e + int) go \<Rightarrow> bool" where
  "acquires P m \<longleftrightarrow> (\<forall>w.
    (\<exists>rs. list_all P rs \<and> w_report (exec m w) = (w_report w)\<lparr>rep_Results := results w @ rs\<rparr>) \<and>
    (\<exists>evs. list_all inspecting evs \<and> w_trace (exec m w) = w_trace w @ evs) \<and>
    open_fds (w_trace (exec m w)) =
      (case result_of m w of Inl e \<Rightarrow> open_fds (w_trace w) | Inr fd \<Rightarrow> open_fds (w_trace w) + {#fd#}))"

lemma acquires_go_open: "acquires P (go_open E p rdwr)"
  by (auto simp: acquires_def go_open_def split: sum.splits intro: exI [of _ "[]"])

lemma acquires_new_fd: "checks P m \<Longrightarrow> acquires P (new_fd what m)"
  unfolding acquires_def new_fd_def
proof (intro allI)
  fix w
  assume "checks P m"
  then have *: "check_rel P w (exec m w)" by (simp add: state_io_rel_exec)
  then obtain evs where evs: "list_all inspecting evs" "w_trace (exec m w) = w_trace w @ evs"
    by (auto simp: check_rel_def)
  let ?m = "do { r \<leftarrow> m; case r of Inl e \<Rightarrow> return (Inl e)
     | Inr v \<Rightarrow> do { emit (EvOpen what (int v)); return (Inr (int v)) } }"
  have "\<exists>evs. list_all inspecting evs \<and> w_trace (exec ?m w) = w_trace w @ evs"
    using evs by (cases "result_of m w") auto
  with * show "(\<exists>rs. list_all P rs \<and>
        w_report (exec ?m w) = (w_report w)\<lparr>rep_Results := results w @ rs\<rparr>) \<and>
      (\<exists>evs. list_all inspecting evs \<and> w_trace (exec ?m w) = w_trace w @ evs) \<and>
      open_fds (w_trace (exec ?m w)) = (case result_of ?m w of Inl e \<Rightarrow> open_fds (w_trace w)
        | Inr fd \<Rightarrow> open_fds (w_trace w) + {#fd#})"
    by (auto simp: check_rel_def split: sum.splits)
qed

lemma checks_with_defer:
  assumes a: "acquires P m" and e: "\<And>e. checks P (onerr e)" and b: "\<And>fd. checks P (body fd)"
  shows "checks P (with_defer m go_close onerr body)"
  unfolding state_io_rel_exec
proof
  fix w
  show "check_rel P w (exec (with_defer m go_close onerr body) w)"
  proof (cases "result_of m w")
    case (Inl x)
    with a have "check_rel P w (exec m w)" by (auto simp: acquires_def check_rel_def)
    moreover have "check_rel P (exec m w) (exec (onerr x) (exec m w))"
      using e by (simp add: state_io_rel_exec)
    ultimately show ?thesis using Inl by (auto simp: with_defer_def intro: check_rel_trans)
  next
    case (Inr fd)
    from a [unfolded acquires_def, rule_format, of w] Inr obtain rs evs where
      1: "list_all P rs" "w_report (exec m w) = (w_report w)\<lparr>rep_Results := results w @ rs\<rparr>"
        "list_all inspecting evs" "w_trace (exec m w) = w_trace w @ evs"
        "open_fds (w_trace (exec m w)) = open_fds (w_trace w) + {#fd#}"
      by auto
    have "check_rel P (exec m w) (exec (body fd) (exec m w))"
      using b by (simp add: state_io_rel_exec)
    then obtain rs' evs' where
      2: "list_all P rs'"
        "w_report (exec (body fd) (exec m w)) =
          (w_report (exec m w))\<lparr>rep_Results := results (exec m w) @ rs'\<rparr>"
        "list_all inspecting evs'"
        "w_trace (exec (body fd) (exec m w)) = w_trace (exec m w) @ evs'"
        "open_fds (w_trace (exec (body fd) (exec m w))) = open_fds (w_trace (exec m w))"
      by (auto simp: check_rel_def)
    have x: "exec (with_defer m go_close onerr body) w =
        (exec (body fd) (exec m w))\<lparr>w_trace := w_trace (exec (body fd) (exec m w)) @ [EvClose fd]\<rparr>"
      using Inr by (simp add: with_defer_def go_close_def)
    show ?thesis
      unfolding x check_rel_def
    proof (intro conjI)
      let ?w = "(exec (body fd) (exec m w))\<lparr>w_trace := w_trace (exec (body fd) (exec m w)) @ [EvClose fd]\<rparr>"
      show "\<exists>rs. list_all P rs \<and> w_report ?w = (w_report w)\<lparr>rep_Results := results w @ rs\<rparr>"
        using 1(1,2) 2(1,2) by (intro exI [of _ "rs @ rs'"]) simp
      show "\<exists>evs. list_all inspecting evs \<and> w_trace ?w = w_trace w @ evs"
        using 1(3,4) 2(3,4) by (intro exI [of _ "evs @ evs' @ [EvClose fd]"]) simp
      show "open_fds (w_trace ?w) = open_fds (w_trace w)"
        using 1(5) 2(5) by simp
    qed
  qed
qed

lemma checks_ReadFile [check_intros]: "checks P (ReadFile E p)"
  unfolding ReadFile_def
  by (intro checks_with_defer acquires_go_open chk.keeps checks_go_read)

lemmas [check_intros] = chk.keeps

end
