(* ===== verification/Host_Parse.thy ===== *)
theory Host_Parse
  imports Os_World Go_Map
begin

text \<open>
  What \<open>host_linux.go\<close> reads from the host's text files, and how it parses them: the
  kernel version, the CPU flags and identity of \<open>/proc/cpuinfo\<close>, the memory size, the
  distribution and the kernel configuration. Each parser is a function of the text; the
  function that opens the file is a computation of the world.
\<close>

section \<open>Reading files\<close>

definition readFileTrim :: "env \<Rightarrow> string \<Rightarrow> (os_error + string) go" where
  "readFileTrim E path = do {
     r \<leftarrow> ReadFile E path;
     return (case r of Inl e \<Rightarrow> Inl e | Inr b \<Rightarrow> Inr (trim_space b)) }"

definition readFileDefault :: "env \<Rightarrow> string \<Rightarrow> string \<Rightarrow> string go" where
  "readFileDefault E path def = do {
     r \<leftarrow> readFileTrim E path;
     return (case r of Inl e \<Rightarrow> def | Inr s \<Rightarrow> s) }"

text \<open>Open a file, parse what can be read of it, close it; a default when it does not open.\<close>

definition scan_file :: "env \<Rightarrow> string \<Rightarrow> 'a \<Rightarrow> (string \<Rightarrow> 'a) \<Rightarrow> 'a go" where
  "scan_file E path def parse = with_defer (go_open E path False) go_close (\<lambda>e. return def)
     (\<lambda>fd. do { (c, e) \<leftarrow> go_read E path fd; return (parse c) })"

lemma checks_readFileTrim [check_intros]: "checks P (readFileTrim E p)"
  unfolding readFileTrim_def by (intro check_intros)

lemma checks_readFileDefault [check_intros]: "checks P (readFileDefault E p d)"
  unfolding readFileDefault_def by (intro check_intros)

lemma checks_scan_file [check_intros]: "checks P (scan_file E p d f)"
  unfolding scan_file_def by (intro checks_with_defer acquires_go_open check_intros)

section \<open>The distribution\<close>

definition parse_os_release :: "string \<Rightarrow> (string, string) go_map" where
  "parse_os_release text =
    foldl (\<lambda>m l. case cut l ''='' of None \<Rightarrow> m | Some (k, v) \<Rightarrow> gm_put k (trim_char dquote v) m)
      [] (fst (scan_lines default_token_max text))"

section \<open>The kernel version\<close>

definition parseKernelVersion :: "string \<Rightarrow> (int \<times> int) option" where
  "parseKernelVersion s =
    (let parts = split_n 3 CHR ''.'' s in
     if length parts < 2 then None
     else case atoi (parts ! 0) of None \<Rightarrow> None
       | Some maj \<Rightarrow> (case atoi (parts ! 1) of None \<Rightarrow> None | Some mnr \<Rightarrow> Some (maj, mnr)))"

lemma cut_append: "x \<notin> set a \<Longrightarrow> cut (a @ x # b) [x] = Some (a, b)"
  by (induction a) (auto simp: cut_single)

lemma cut_missing: "x \<notin> set a \<Longrightarrow> cut a [x] = None"
  by (simp add: cut_single)

lemma dec_no_dot [simp]: "CHR ''.'' \<notin> set (dec n)"
  using dec_digits_mem [of "CHR ''.''" n] by (auto simp: is_dec_digit_iff)

lemma parseKernelVersion_dec:
  assumes "int maj \<le> max_int64" and "int mnr \<le> max_int64"
    and "rest = [] \<or> hd rest = CHR ''.''"
  shows "parseKernelVersion (dec maj @ ''.'' @ dec mnr @ rest) = Some (int maj, int mnr)"
proof (cases rest)
  case Nil
  then show ?thesis using assms(1,2)
    by (simp add: parseKernelVersion_def numeral_3_eq_3 cut_append cut_missing atoi_dec)
next
  case (Cons c r)
  then show ?thesis using assms
    by (simp add: parseKernelVersion_def numeral_3_eq_3 cut_append atoi_dec)
qed

section \<open>The CPU\<close>

fun flags_of_lines :: "string list \<Rightarrow> (string, unit) go_map" where
  "flags_of_lines [] = []"
| "flags_of_lines (l # ls) =
    (case cut l '':'' of None \<Rightarrow> flags_of_lines ls
     | Some (k, v) \<Rightarrow>
        if trim_space k = ''flags'' \<or> trim_space k = ''Features''
        then foldl (\<lambda>m f. gm_put f () m) [] (str_fields v)
        else flags_of_lines ls)"

definition parse_cpu_flags :: "string \<Rightarrow> (string, unit) go_map" where
  "parse_cpu_flags text = flags_of_lines (fst (scan_lines big_token_max text))"

definition has_flag :: "(string, unit) go_map \<Rightarrow> string \<Rightarrow> bool" where
  "has_flag m f \<longleftrightarrow> gm_get m f \<noteq> None"

definition cpuFlags :: "env \<Rightarrow> (string, unit) go_map go" where
  "cpuFlags E = scan_file E ''/proc/cpuinfo'' [] parse_cpu_flags"

lemma has_flag_foldl: "gm_ok m \<Longrightarrow> gm_ok (foldl (\<lambda>m f. gm_put f () m) m fs) \<and>
    (has_flag (foldl (\<lambda>m f. gm_put f () m) m fs) f \<longleftrightarrow> has_flag m f \<or> f \<in> set fs)"
proof (induction fs arbitrary: m)
  case (Cons g fs)
  from Cons.IH [OF gm.invar_put [OF Cons.prems], of g "()"] gm.lookup_put [OF Cons.prems, of g "()" f]
  show ?case by (auto simp: has_flag_def)
qed simp

text \<open>The flags are those of the first flag line: the words after its colon.\<close>

lemma flags_of_lines_spec:
  "gm_ok (flags_of_lines ls) \<and> (has_flag (flags_of_lines ls) f \<longleftrightarrow>
    (case find (\<lambda>l. case cut l '':'' of None \<Rightarrow> False
        | Some (k, v) \<Rightarrow> trim_space k = ''flags'' \<or> trim_space k = ''Features'') ls of
       None \<Rightarrow> False
     | Some l \<Rightarrow> (case cut l '':'' of None \<Rightarrow> False | Some (k, v) \<Rightarrow> f \<in> set (str_fields v))))"
proof (induction ls)
  case (Cons l ls)
  then show ?case
    using has_flag_foldl [OF gm.invar_empty, of _ f]
    by (auto simp: has_flag_def gm.lookup_empty split: option.splits)
qed (simp add: has_flag_def gm.lookup_empty gm.invar_empty)

definition identity_key :: "string \<Rightarrow> string option" where
  "identity_key k =
    (if k = ''model name'' then Some ''model_name''
     else if k = ''vendor_id'' then Some ''vendor''
     else if k = ''cpu family'' then Some ''family''
     else if k = ''model'' then Some ''model''
     else if k = ''stepping'' then Some ''stepping''
     else if k = ''microcode'' then Some ''microcode''
     else if k = ''CPU implementer'' then Some ''implementer''
     else if k = ''CPU architecture'' then Some ''architecture''
     else if k = ''CPU variant'' then Some ''variant''
     else if k = ''CPU part'' then Some ''part''
     else if k = ''CPU revision'' then Some ''revision''
     else None)"

definition identity_entry :: "string \<Rightarrow> (string \<times> string) option" where
  "identity_entry l =
    (case cut l '':'' of None \<Rightarrow> None
     | Some (k, v) \<Rightarrow> map_option (\<lambda>key. (key, trim_space v)) (identity_key (trim_space k)))"

definition parse_cpu_identity :: "string \<Rightarrow> (string, string) go_map" where
  "parse_cpu_identity text =
    foldl (\<lambda>id l. case identity_entry l of None \<Rightarrow> id
        | Some (key, v) \<Rightarrow> if gm_get id key = None then gm_put key v id else id)
      [] (fst (scan_lines big_token_max text))"

definition cpuIdentity :: "env \<Rightarrow> (string, string) go_map go" where
  "cpuIdentity E = scan_file E ''/proc/cpuinfo'' [] parse_cpu_identity"

text \<open>Every key keeps the value of its first line, so the first core identifies the CPU.\<close>

lemma parse_cpu_identity_first:
  "gm_get (parse_cpu_identity text) key =
    map_of (List.map_filter identity_entry (fst (scan_lines big_token_max text))) key"
proof -
  have "foldl (\<lambda>id l. case identity_entry l of None \<Rightarrow> id
        | Some (key, v) \<Rightarrow> if gm_get id key = None then gm_put key v id else id) m ls =
      foldl (\<lambda>m (k, v). if gm_get m k = None then gm_put k v m else m) m
        (List.map_filter identity_entry ls)" for m ls
    by (induction ls arbitrary: m) (auto simp: List.map_filter_def split: option.splits)
  then show ?thesis
    using gm.lookup_put_new [OF gm.invar_empty, of "List.map_filter identity_entry
        (fst (scan_lines big_token_max text))" key]
    by (simp add: parse_cpu_identity_def gm.lookup_empty)
qed

section \<open>Memory\<close>

text \<open>
  The first \<open>MemTotal:\<close> line with a second word decides; a number that does not parse
  gives what \<open>ParseInt\<close> returns beside its error.
\<close>

fun mem_of_lines :: "string list \<Rightarrow> int" where
  "mem_of_lines [] = 0"
| "mem_of_lines (l # ls) =
    (if prefix ''MemTotal:'' l \<and> 2 \<le> length (str_fields l)
     then fst (parse_int (str_fields l ! 1)) else mem_of_lines ls)"

definition parse_meminfo :: "string \<Rightarrow> int" where
  "parse_meminfo text = mem_of_lines (fst (scan_lines default_token_max text))"

definition memTotalKB :: "env \<Rightarrow> int go" where
  "memTotalKB E = scan_file E ''/proc/meminfo'' 0 parse_meminfo"

section \<open>The kernel configuration\<close>

definition config_entry :: "string \<Rightarrow> (string \<times> string) option" where
  "config_entry raw =
    (let line = trim_space raw in
     if line = [] \<or> prefix ''#'' line then None
     else map_option (\<lambda>(k, v). (k, trim_char dquote v)) (cut line ''=''))"

definition parseKernelConfig :: "string \<Rightarrow> (string, string) go_map \<times> bool" where
  "parseKernelConfig text =
    (case scan_lines big_token_max text of (ls, too_long) \<Rightarrow>
      (foldl (\<lambda>cfg l. case config_entry l of None \<Rightarrow> cfg | Some (k, v) \<Rightarrow> gm_put k v cfg) [] ls,
       too_long))"

definition err_too_long :: os_error where
  "err_too_long = OsErr 0 ''bufio.Scanner: token too long''"

text \<open>The error of a scan: the read error, or the one of a line that does not fit.\<close>

definition config_result ::
    "bytes \<Rightarrow> os_error option \<Rightarrow> string \<Rightarrow> os_error + (string, string) go_map \<times> string" where
  "config_result c e path =
    (case parseKernelConfig c of (m, too_long) \<Rightarrow>
      if too_long then Inl err_too_long
      else case e of Some e \<Rightarrow> Inl e | None \<Rightarrow> Inr (m, path))"

definition readKernelConfig :: "env \<Rightarrow> (os_error + (string, string) go_map \<times> string) go" where
  "readKernelConfig E = do {
     b \<leftarrow> ReadFile E ''/proc/config.gz'';
     let zipped = (case b of Inl e \<Rightarrow> None
       | Inr b \<Rightarrow> (case os_gunzip E b of Inl e \<Rightarrow> None | Inr (c, e) \<Rightarrow> Some (c, e)));
     case zipped of
       Some (c, e) \<Rightarrow> return (config_result c e ''/proc/config.gz'')
     | None \<Rightarrow> do {
         rel \<leftarrow> readFileDefault E ''/proc/sys/kernel/osrelease'' [];
         let path = ''/boot/config-'' @ rel;
         with_defer (go_open E path False) go_close
           (\<lambda>e. return (Inl (OsErr 0 (''no /proc/config.gz and no '' @ path))))
           (\<lambda>fd. do { (c, e) \<leftarrow> go_read E path fd; return (config_result c e path) }) } }"

lemma checks_cpuFlags [check_intros]: "checks P (cpuFlags E)"
  unfolding cpuFlags_def by (intro check_intros)

lemma checks_cpuIdentity [check_intros]: "checks P (cpuIdentity E)"
  unfolding cpuIdentity_def by (intro check_intros)

lemma checks_memTotalKB [check_intros]: "checks P (memTotalKB E)"
  unfolding memTotalKB_def by (intro check_intros)

lemma checks_readKernelConfig [check_intros]: "checks P (readKernelConfig E)"
  unfolding readKernelConfig_def
  by (intro check_intros checks_with_defer acquires_go_open)

text \<open>An option has the value of its last line.\<close>

lemma parseKernelConfig_last:
  "gm_get (fst (parseKernelConfig text)) k =
    map_of (rev (List.map_filter config_entry (fst (scan_lines big_token_max text)))) k"
proof -
  have "foldl (\<lambda>cfg l. case config_entry l of None \<Rightarrow> cfg | Some (k, v) \<Rightarrow> gm_put k v cfg) m ls =
      foldl (\<lambda>m (k, v). gm_put k v m) m (List.map_filter config_entry ls)" for m ls
    by (induction ls arbitrary: m) (auto simp: List.map_filter_def split: option.splits)
  then show ?thesis
    by (simp add: parseKernelConfig_def gm.lookup_put_all_empty split: prod.splits)
qed

end
