(* ===== verification/Messages.thy ===== *)
theory Messages
  imports Fcpf_Prelude
begin

text \<open>
  The longer literal texts of the checks, one constant each, so that the checks read like
  the code and proofs need not open them. A format string is split at its verbs: the
  pieces are numbered.
\<close>

definition rem_distro :: string where
  "rem_distro =
    ''The evaluation baseline is stock Ubuntu. Results from another distro are '' @
    ''still useful but are not directly comparable.''"

definition rem_kernel_old :: string where
  "rem_kernel_old =
    ''Use a 5.10+ kernel; Fly hosts run 6.x.''"

definition rem_kernel_warn :: string where
  "rem_kernel_warn =
    ''Prefer a 6.1+ kernel so the comparison against a Fly host is meaningful.''"

definition det_arm_note :: string where
  "det_arm_note =
    ''; note that aarch64 has no CPU flag for this, so this rests on DMI and '' @
    ''systemd-detect-virt alone''"

definition rem_nested :: string where
  "rem_nested =
    ''Firecracker will run, but every guest VM exit is handled by the outer '' @
    ''hypervisor as well as by KVM here. Expect materially worse exit-bound latency '' @
    ''than a Fly bare-metal host. Run the boot stage and compare boot_ms and the '' @
    ''workload numbers before drawing a conclusion; that is what those measurements '' @
    ''are for.''"

definition det_cpu_virt_na_1 :: string where
  "det_cpu_virt_na_1 =
    ''not a CPU-flag question on ''"

definition det_cpu_virt_na_2 :: string where
  "det_cpu_virt_na_2 =
    ''; virtualization availability is proven by the kvm.* checks below, which '' @
    ''create a real VM and vCPU''"

definition rem_cpu_virt :: string where
  "rem_cpu_virt =
    ''The CPU does not expose virtualization extensions. On bare metal, enable '' @
    ''VT-x/AMD-V in firmware.''"

definition rem_cpu_virt_nested :: string where
  "rem_cpu_virt_nested =
    ''This is a nested host and the outer hypervisor is not exposing virtualization '' @
    ''extensions to it. On Azure, use a VM size that supports nested virtualization '' @
    ''(Dv3/Ev3 and later, or a bare-metal SKU).''"

definition det_arch_counter_1 :: string where
  "det_arch_counter_1 =
    ''arch_sys_counter -- the architected generic timer, constant-rate and '' @
    ''free-running by specification (available: ''"

definition det_arch_counter_not_1 :: string where
  "det_arch_counter_not_1 =
    ''current clocksource is ''"

definition det_arch_counter_not_2 :: string where
  "det_arch_counter_not_2 =
    '', not arch_sys_counter (available: ''"

definition rem_arch_counter :: string where
  "rem_arch_counter =
    ''On aarch64 the architected generic timer is the clocksource a guest can read '' @
    ''cheaply. Anything else is read through the hypervisor and costs an exit per '' @
    ''timestamp.''"

definition rem_tsc :: string where
  "rem_tsc =
    ''Guest timekeeping relies on a stable TSC. Without this the host must fall '' @
    ''back to a slower clocksource and guest time can drift across a pause or a '' @
    ''snapshot restore.''"

definition rem_clocksource :: string where
  "rem_clocksource =
    ''A Fly host runs on tsc. On a nested Azure host this is commonly '' @
    [CHR 0x27] @ ''hyperv_clocksource_tsc_page', which is slower to read and is a per-read cost '' @
    ''paid by every guest. Worth quantifying in the boot stage before treating as '' @
    ''acceptable.''"

definition note_halt_poll :: string where
  "note_halt_poll =
    ''how long a vCPU spins before yielding on halt; the main idle-latency vs '' @
    ''idle-CPU tradeoff''"

definition note_ept :: string where
  "note_ept =
    ''extended page tables; without it guest memory is unusably slow''"

definition note_npt :: string where
  "note_npt =
    ''nested page tables; without it guest memory is unusably slow''"

definition note_nested :: string where
  "note_nested =
    ''nested virt exposed to guests (Fly does not need this)''"

definition rem_ept :: string where
  "rem_ept =
    ''Hardware-assisted memory virtualization is off, so KVM falls back to shadow '' @
    ''paging. Guest memory performance will be an order of magnitude worse. '' @
    ''Re-enable it.''"

definition rem_kvm_tuning :: string where
  "rem_kvm_tuning =
    ''KVM may be built in rather than a module, which is fine, but the tuning knobs '' @
    ''could not be read and so cannot be compared against a Fly host.''"

definition rem_tun :: string where
  "rem_tun =
    ''Firecracker gives each microVM a tap device. Load the 'tun' module (modprobe '' @
    ''tun).''"

definition rem_tun_open :: string where
  "rem_tun_open =
    ''The node exists but this user cannot open it. Needs CAP_NET_ADMIN; the boot '' @
    ''stage runs as root.''"

definition det_vsock_present :: string where
  "det_vsock_present =
    ''available; note Firecracker does not use it -- its vsock is a host-side Unix '' @
    ''socket, so this matters only for other VMMs''"

definition det_vsock_absent :: string where
  "det_vsock_absent =
    ''absent, which does not affect Firecracker: its vsock device is a host-side '' @
    ''Unix socket and needs no host kernel module. The guest kernel still needs '' @
    ''CONFIG_VIRTIO_VSOCKETS, which is a property of the guest image, not of this '' @
    ''host''"

definition det_nbd_available_1 :: string where
  "det_nbd_available_1 =
    ''not loaded, but the nbd module is available (modprobe nbd): ''"

definition rem_nbd :: string where
  "rem_nbd =
    ''Fly's workload storage is backed by network block devices. Load the nbd '' @
    ''module (modprobe nbd). Not needed to boot a microVM, so the boot stage still '' @
    ''passes.''"

definition rem_nftables :: string where
  "rem_nftables =
    ''Install nftables. Guest egress filtering and NAT are built on it.''"

definition det_cpuid :: string where
  "det_cpuid =
    ''raw CPUID readable for exact host comparison''"

definition rem_io_uring_nosys :: string where
  "rem_io_uring_nosys =
    ''Firecracker's 'Async' block engine needs io_uring. Without it, fall back to '' @
    ''the Sync engine -- correct, but with worse block throughput than a Fly host.''"

definition rem_io_uring_disabled :: string where
  "rem_io_uring_disabled =
    ''Set kernel.io_uring_disabled=0, or plan on the Sync block engine.''"

definition rem_uffd_nosys :: string where
  "rem_uffd_nosys =
    ''This kernel lacks CONFIG_USERFAULTFD. Lazy snapshot restore is not possible; '' @
    ''restores must page in the whole guest memory up front.''"

definition rem_uffd_eperm :: string where
  "rem_uffd_eperm =
    ''Present but restricted to CAP_SYS_PTRACE. That is workable if the VMM runs '' @
    ''privileged; otherwise set vm.unprivileged_userfaultfd=1.''"

definition rem_seccomp :: string where
  "rem_seccomp =
    ''Firecracker's sandbox is a seccomp-bpf filter. Needs CONFIG_SECCOMP_FILTER.''"

definition det_firewall_none :: string where
  "det_firewall_none =
    ''no default-deny input path found that would block guest traffic''"

definition rem_firewall :: string where
  "rem_firewall =
    ''The boot stage gives each microVM a tap device and has the guest talk to the '' @
    ''host over it. A default-deny input chain, or a rule dropping RFC1918 '' @
    ''destinations, will block that and the guest networking check will fail on an '' @
    ''otherwise healthy host. Either allow the guest range (see -guest-net, default '' @
    ''172.31.240.0/22) on the tap interfaces, or move the guests to a range your '' @
    ''policy permits. This is a warning, not a failure: the policy may well be '' @
    ''intentional.''"

definition rem_cgroup_mount :: string where
  "rem_cgroup_mount =
    ''Mount the unified cgroup hierarchy at /sys/fs/cgroup.''"

definition rem_cgroup_v2 :: string where
  "rem_cgroup_v2 =
    ''Fly uses cgroup v2 exclusively. Boot with systemd.unified_cgroup_hierarchy=1.''"

definition rem_cgroup_missing :: string where
  "rem_cgroup_missing =
    ''Fly bounds each microVM's cpu, memory and io. Enable the missing controllers.''"

definition rem_overcommit :: string where
  "rem_overcommit =
    ''Firecracker allocates a guest's full memory as an anonymous mapping and '' @
    ''relies on it being lazily backed. Strict overcommit accounting will cap '' @
    ''density far below a Fly host.''"

definition rem_thp :: string where
  "rem_thp =
    ''THP set to 'always' inflates each microVM's resident memory and interacts '' @
    ''badly with balloon-driven reclaim. Fly runs 'madvise'.''"

definition rem_max_map_count :: string where
  "rem_max_map_count =
    ''Low for a host running many VMMs at once. Fly hosts run 262144 or more.''"

definition rem_nofile :: string where
  "rem_nofile =
    ''Raise the open-file limit before running a dense microVM fleet.''"

definition det_config_skip_1 :: string where
  "det_config_skip_1 =
    ''not readable (''"

definition det_config_skip_2 :: string where
  "det_config_skip_2 =
    ''); the direct probes above are authoritative''"

definition det_vendor_kvm :: string where
  "det_vendor_kvm =
    ''CONFIG_KVM_INTEL or CONFIG_KVM_AMD (the per-vendor KVM module; CONFIG_KVM '' @
    ''alone creates no /dev/kvm)''"

definition rem_config :: string where
  "rem_config =
    ''Rebuild or replace the host kernel with these enabled.''"

definition rem_config_optional :: string where
  "rem_config_optional =
    ''None of these stop a microVM booting. Each one Fly has and this host does not '' @
    ''is a capability Fly would be giving up.''"

definition rem_kvm_device :: string where
  "rem_kvm_device =
    ''Load the kvm module for this CPU (modprobe kvm_intel or kvm_amd). On a nested '' @
    ''host, virtualization must be exposed to this VM by the layer above -- on '' @
    ''Azure that means a VM size with nested virtualization, or a bare-metal SKU.''"

definition rem_kvm_node :: string where
  "rem_kvm_node =
    ''Something has replaced the device node. Expect a char device, major 10.''"

definition rem_kvm_blocked :: string where
  "rem_kvm_blocked =
    ''Re-run with sudo. Everything below this point -- the capability checks, '' @
    ''KVM_CREATE_VM and KVM_CREATE_VCPU -- needs the device open, and those are the '' @
    ''checks that actually decide whether Firecracker will run here.''"

definition rem_kvm_refused :: string where
  "rem_kvm_refused =
    ''Root was refused the device. Something beyond file permissions is blocking it '' @
    ''-- an LSM policy (AppArmor, SELinux) or a container seccomp profile. Check '' @
    ''dmesg.''"

definition rem_kvm_open :: string where
  "rem_kvm_open =
    ''KVM is present but refused to open. Check dmesg for a kvm module error.''"

definition rem_kvm_no_ioctl :: string where
  "rem_kvm_no_ioctl =
    ''The device opened but does not speak the KVM ioctl interface.''"

definition rem_kvm_abi :: string where
  "rem_kvm_abi =
    ''Firecracker refuses any value but 12. This kernel's KVM is not ABI-compatible.''"

definition rem_kvm_caps :: string where
  "rem_kvm_caps =
    ''Firecracker checks these at startup and exits. A host kernel this old or this '' @
    ''restricted cannot run Firecracker regardless of anything else in this report.''"

definition rem_kvm_create_vm :: string where
  "rem_kvm_create_vm =
    ''KVM answers queries but will not create a VM. This is the usual signature of '' @
    ''virtualization being present but disabled or already claimed by another '' @
    ''hypervisor.''"

definition rem_kvm_create_vcpu :: string where
  "rem_kvm_create_vcpu =
    ''A VM was created but no vCPU could be attached to it. Check dmesg for a KVM '' @
    ''error.''"

definition hint_in_group :: string where
  "hint_in_group =
    ''already in the device's group, so a re-login may be needed for it to take '' @
    ''effect''"

definition note_immediate_exit :: string where
  "note_immediate_exit =
    ''vCPU exit latency; Firecracker uses it to interrupt a running vCPU without a '' @
    ''signal round trip''"

definition note_disable_exits :: string where
  "note_disable_exits =
    ''lets the host stop trapping HLT/PAUSE/MWAIT, which is a large part of idle '' @
    ''microVM cost''"

definition note_ipa_size :: string where
  "note_ipa_size =
    ''guest physical address width; caps how much memory a microVM can be given''"

definition diag_exec :: string where
  "diag_exec =
    ''The kernel booted, found /init and could not exec it (ENOENT). For a static '' @
    ''binary that means the file is absent; for a dynamic one it means its '' @
    ''interpreter is, and the guest has no libc. Check boot.initramfs.linkage above.''"

definition diag_unpack :: string where
  "diag_unpack =
    ''The kernel rejected the initramfs archive, so the guest root filesystem is '' @
    ''empty. This is a bug in this tool's cpio writer, not in the host -- please '' @
    ''report the console output.''"

definition diag_no_init :: string where
  "diag_no_init =
    ''The guest root filesystem came up empty. Either the initramfs did not unpack '' @
    ''or /init is not in it.''"

definition diag_panic :: string where
  "diag_panic =
    ''The guest kernel panicked. The console tail above is the whole of what it '' @
    ''said.''"

definition rem_boot_privileges :: string where
  "rem_boot_privileges =
    ''Giving a microVM a network interface means creating a tap device, which needs '' @
    ''CAP_NET_ADMIN. Re-run with sudo. This says nothing about the host.''"

definition rem_firecracker :: string where
  "rem_firecracker =
    ''Supply one with -firecracker, or allow network access to fetch the pinned '' @
    ''release.''"

definition rem_guest_kernel :: string where
  "rem_guest_kernel =
    ''Supply one with -kernel, or allow network access to fetch the pinned CI '' @
    ''kernel.''"

definition rem_ci_kernel :: string where
  "rem_ci_kernel =
    ''This proves the host boots a microVM. It does not prove it boots Fly's guest '' @
    ''kernel. Re-run with -kernel pointing at Fly's vmlinux once it is available; '' @
    ''the config it is built with is in reference/ for comparison in the meantime.''"

definition rem_elf :: string where
  "rem_elf =
    ''Proceeding anyway. If the guest panics with \"Failed to execute /init (error '' @
    ''-2)\", this binary is dynamically linked and must be rebuilt with '' @
    ''CGO_ENABLED=0.''"

definition rem_static :: string where
  "rem_static =
    ''The guest is this binary and nothing else -- no libc, no dynamic loader -- so '' @
    ''a dynamically linked build cannot be exec'd as init and the guest would panic '' @
    ''with \"Failed to execute /init (error -2)\". Rebuild with CGO_ENABLED=0 (`make '' @
    ''release`, or `CGO_ENABLED=0 go build`), or use a release binary. Plain `go '' @
    ''build` produces a dynamic binary on any host that has a C compiler.''"

definition rem_boot_launch :: string where
  "rem_boot_launch =
    ''This is the check that matters. Everything in the preflight can pass on a '' @
    ''host where this fails. The console tail above is the guest's own output.''"

definition rem_virtio :: string where
  "rem_virtio =
    ''The guest booted but did not bind a driver to every device Firecracker '' @
    ''attached. If the boot args include acpi=off, that is the cause: stock '' @
    ''Firecracker enumerates devices through ACPI on x86_64.''"

definition rem_network_1 :: string where
  "rem_network_1 =
    ''The guest booted and bound virtio-net but could not reach the host over its '' @
    ''tap. The usual cause is a host packet filter -- see host.firewall above, and '' @
    ''check for a default-deny input chain or a rule dropping RFC1918 destinations, '' @
    ''either of which covers ''"

definition rem_network_2 :: string where
  "rem_network_2 =
    ''. Move the guests with -guest-net, or allow that range on the ''"

definition rem_network_3 :: string where
  "rem_network_3 =
    ''* interfaces. A timeout here is about the host's policy, not about '' @
    ''Firecracker.''"

definition det_boot_skipped :: string where
  "det_boot_skipped =
    ''skipped: the preflight found a blocking KVM failure, so booting would only '' @
    ''restate it with less detail''"

text \<open>The remedies are not empty.\<close>

lemma remedies_nonempty [simp]:
  "rem_distro \<noteq> []" "rem_kernel_old \<noteq> []"
  "rem_kernel_warn \<noteq> []" "rem_nested \<noteq> []"
  "rem_cpu_virt \<noteq> []" "rem_cpu_virt_nested \<noteq> []"
  "rem_arch_counter \<noteq> []" "rem_tsc \<noteq> []"
  "rem_clocksource \<noteq> []" "rem_ept \<noteq> []"
  "rem_kvm_tuning \<noteq> []" "rem_tun \<noteq> []"
  "rem_tun_open \<noteq> []" "rem_nbd \<noteq> []"
  "rem_nftables \<noteq> []" "rem_io_uring_nosys \<noteq> []"
  "rem_io_uring_disabled \<noteq> []" "rem_uffd_nosys \<noteq> []"
  "rem_uffd_eperm \<noteq> []" "rem_seccomp \<noteq> []"
  "rem_firewall \<noteq> []" "rem_cgroup_mount \<noteq> []"
  "rem_cgroup_v2 \<noteq> []" "rem_cgroup_missing \<noteq> []"
  "rem_overcommit \<noteq> []" "rem_max_map_count \<noteq> []"
  "rem_config \<noteq> []" "rem_config_optional \<noteq> []"
  "rem_kvm_device \<noteq> []" "rem_kvm_node \<noteq> []"
  "rem_kvm_blocked \<noteq> []" "rem_kvm_refused \<noteq> []"
  "rem_kvm_open \<noteq> []" "rem_kvm_no_ioctl \<noteq> []"
  "rem_kvm_abi \<noteq> []" "rem_kvm_caps \<noteq> []"
  "rem_kvm_create_vm \<noteq> []" "rem_kvm_create_vcpu \<noteq> []"
  "rem_boot_privileges \<noteq> []" "rem_firecracker \<noteq> []"
  "rem_guest_kernel \<noteq> []" "rem_ci_kernel \<noteq> []"
  "rem_elf \<noteq> []" "rem_static \<noteq> []"
  "rem_boot_launch \<noteq> []" "rem_virtio \<noteq> []"
  "rem_network_1 \<noteq> []" "rem_network_2 \<noteq> []"
  "rem_network_3 \<noteq> []"
  by (simp_all add:
    rem_distro_def rem_kernel_old_def rem_kernel_warn_def rem_nested_def
    rem_cpu_virt_def rem_cpu_virt_nested_def rem_arch_counter_def rem_tsc_def
    rem_clocksource_def rem_ept_def rem_kvm_tuning_def rem_tun_def
    rem_tun_open_def rem_nbd_def rem_nftables_def rem_io_uring_nosys_def
    rem_io_uring_disabled_def rem_uffd_nosys_def rem_uffd_eperm_def rem_seccomp_def
    rem_firewall_def rem_cgroup_mount_def rem_cgroup_v2_def rem_cgroup_missing_def
    rem_overcommit_def rem_max_map_count_def rem_config_def rem_config_optional_def
    rem_kvm_device_def rem_kvm_node_def rem_kvm_blocked_def rem_kvm_refused_def
    rem_kvm_open_def rem_kvm_no_ioctl_def rem_kvm_abi_def rem_kvm_caps_def
    rem_kvm_create_vm_def rem_kvm_create_vcpu_def rem_boot_privileges_def rem_firecracker_def
    rem_guest_kernel_def rem_ci_kernel_def rem_elf_def rem_static_def
    rem_boot_launch_def rem_virtio_def rem_network_1_def rem_network_2_def
    rem_network_3_def)

end
