(* ===== verification/Host_Cpu.thy ===== *)
theory Host_Cpu
  imports Host_Parse Messages
begin

text \<open>
  The first checks of \<open>host_linux.go\<close>: the platform, bare metal or nested, the CPU and the
  clock. The contract that every check keeps is the locale \<open>host_check\<close>, interpreted for
  each check of the preflight.
\<close>

section \<open>The contract of a check\<close>

text \<open>
  The identifiers under which the preflight can report a failure. Everything else it
  reports is an observation or a warning, and only the open of \<open>/dev/kvm\<close> can be blocked.
\<close>

definition may_fail :: "string \<Rightarrow> bool" where
  "may_fail i \<longleftrightarrow> i \<in> set
    [''host.kernel_version'', ''host.cpu_virt'', ''host.kvm_tuning.ept'', ''host.kvm_tuning.npt'',
     ''host.tun'', ''host.seccomp'', ''host.cgroups'', ''host.kernel_config'',
     ''kvm.arch'', ''kvm.device'', ''kvm.open'', ''kvm.api_version'', ''kvm.caps.required'',
     ''kvm.create_vm'', ''kvm.create_vcpu'']"

definition result_ok :: "(string \<Rightarrow> bool) \<Rightarrow> result \<Rightarrow> bool" where
  "result_ok covers x \<longleftrightarrow> covers (res_ID x) \<and>
    (res_Status x = Fail \<longrightarrow> may_fail (res_ID x) \<and> res_Remedy x \<noteq> []) \<and>
    (res_Status x = Blocked \<longrightarrow> res_ID x = ''kvm.open'' \<and> res_Remedy x \<noteq> [])"

text \<open>
  A check reports under the identifiers it covers, gives every failure a remedy, only
  inspects the host and closes what it opens.
\<close>

locale host_check =
  fixes run :: "env \<Rightarrow> unit go" and covers :: "string \<Rightarrow> bool"
  assumes reports: "checks (result_ok covers) (run E)"
begin

lemma step: "check_rel (result_ok covers) w (exec (run E) w)"
  using reports [of E] by (simp add: state_io_rel_exec)

lemma appends:
  "\<exists>rs. list_all (result_ok covers) rs \<and> results (exec (run E) w) = results w @ rs"
proof -
  from step [of w E] obtain rs where "list_all (result_ok covers) rs"
    "w_report (exec (run E) w) = (w_report w)\<lparr>rep_Results := results w @ rs\<rparr>"
    by (auto simp: check_rel_def)
  then show ?thesis by (intro exI [of _ rs]) simp
qed

lemma only_inspects:
  "\<exists>evs. list_all inspecting evs \<and> w_trace (exec (run E) w) = w_trace w @ evs"
  using step [of w E] by (simp add: check_rel_def)

lemma closes_all: "open_fds (w_trace (exec (run E) w)) = open_fds (w_trace w)"
  using step [of w E] by (simp add: check_rel_def)

lemma weaken:
  assumes "\<And>i. covers i \<Longrightarrow> covers' i"
  shows "checks (result_ok covers') (run E)"
proof -
  have "list_all (result_ok covers) rs \<Longrightarrow> list_all (result_ok covers') rs" for rs
    using assms by (auto simp: list_all_iff result_ok_def)
  then have "check_rel (result_ok covers) w w' \<Longrightarrow> check_rel (result_ok covers') w w'" for w w'
    unfolding check_rel_def by metis
  with step show ?thesis by (simp add: state_io_rel_exec)
qed

end

text \<open>Results that satisfy the contract, by status.\<close>

lemma result_ok_Fail [check_intros]:
  "covers i \<Longrightarrow> may_fail i \<Longrightarrow> r \<noteq> [] \<Longrightarrow> result_ok covers (mk_result i t Fail d r)"
  by (simp add: result_ok_def)

lemma result_ok_Blocked [check_intros]:
  "covers ''kvm.open'' \<Longrightarrow> r \<noteq> [] \<Longrightarrow>
    result_ok covers (mk_result ''kvm.open'' t Blocked d r)"
  by (simp add: result_ok_def)

lemma result_ok_other [check_intros]:
  "covers i \<Longrightarrow> st \<noteq> Fail \<Longrightarrow> st \<noteq> Blocked \<Longrightarrow> result_ok covers (mk_result i t st d r)"
  by (simp add: result_ok_def)

lemma result_ok_data [check_intros]: "result_ok covers x \<Longrightarrow> result_ok covers (with_data m x)"
  by (simp add: result_ok_def)

section \<open>Platform\<close>

definition checkPlatform :: "env \<Rightarrow> unit go" where
  "checkPlatform E = do {
     osrel \<leftarrow> scan_file E ''/etc/os-release'' [] parse_os_release;
     kernel \<leftarrow> readFileDefault E ''/proc/sys/kernel/osrelease'' ''unknown'';
     Add E (with_data
       (gm_put ''distro'' (AStr (gm_str osrel ''PRETTY_NAME''))
       (gm_put ''distro_id'' (AStr (gm_str osrel ''ID''))
       (gm_put ''version_id'' (AStr (gm_str osrel ''VERSION_ID''))
       (gm_put ''kernel'' (AStr kernel)
       (gm_put ''arch'' (AStr (goarch E)) [])))))
       (mk_result ''host.platform'' ''Host platform'' Info
         (gm_str osrel ''PRETTY_NAME'' @ '' -- kernel '' @ kernel @ '' -- '' @ goarch E) []));
     (if gm_str osrel ''ID'' \<noteq> ''ubuntu''
      then report_Warn E ''host.distro'' ''Stock Ubuntu''
        (''distro is '' @ quote (gm_str osrel ''ID'') @ '', not ubuntu'') rem_distro
      else Addf E ''host.distro'' ''Stock Ubuntu'' Pass (gm_str osrel ''PRETTY_NAME''));
     case parseKernelVersion kernel of
       None \<Rightarrow> return ()
     | Some (maj, mnr) \<Rightarrow>
         if maj < 5 \<or> (maj = 5 \<and> mnr < 10) then
           report_Fail E ''host.kernel_version'' ''Host kernel version''
             (''kernel '' @ dec_int maj @ ''.'' @ dec_int mnr @
              '' is below Firecracker's supported floor of 5.10'') rem_kernel_old
         else if maj = 5 then
           report_Warn E ''host.kernel_version'' ''Host kernel version''
             (''kernel '' @ dec_int maj @ ''.'' @ dec_int mnr @
              '' is supported by Firecracker but older than Fly's 6.x hosts'') rem_kernel_warn
         else Addf E ''host.kernel_version'' ''Host kernel version'' Pass
             (dec_int maj @ ''.'' @ dec_int mnr) }"

interpretation platform: host_check checkPlatform
  "\<lambda>i. i \<in> {''host.platform'', ''host.distro'', ''host.kernel_version''}"
  by unfold_locales (unfold checkPlatform_def, intro check_intros, simp_all add: may_fail_def)

section \<open>Bare metal or nested\<close>

definition hypervisorDMI :: "(string \<times> string) list" where
  "hypervisorDMI =
    [(''Microsoft Corporation'', ''Hyper-V / Azure''),
     (''Apple Virtualization'', ''Apple Virtualization.framework''),
     (''QEMU'', ''QEMU/KVM''), (''Amazon EC2'', ''AWS Nitro''),
     (''Google'', ''Google Compute Engine''), (''VMware'', ''VMware''), (''Xen'', ''Xen''),
     (''KVM'', ''KVM''), (''Bochs'', ''QEMU/Bochs''), (''Parallels'', ''Parallels''),
     (''innotek'', ''VirtualBox''), (''Alibaba'', ''Alibaba Cloud'')]"

text \<open>The signals of \<open>detectHypervisor\<close>, as a function of what the host answered.\<close>

definition hypervisor_of ::
    "(string, unit) go_map \<Rightarrow> string \<times> os_error option \<Rightarrow> string \<Rightarrow> string \<Rightarrow>
      bool \<times> string \<times> (string, string) go_map" where
  "hypervisor_of flags virt vendor product =
    (let s0 = [];
         (n1, s1) = (if has_flag flags ''hypervisor''
                     then (True, gm_put ''cpu_flag'' ''hypervisor'' s0) else (False, s0));
         (n2, m2, s2) = (case virt of
             (out, Some e) \<Rightarrow> (n1, [], s1)
           | (out, None) \<Rightarrow>
               (let v = trim_space out; s = gm_put ''systemd_detect_virt'' v s1
                in if v \<noteq> [] \<and> v \<noteq> ''none'' then (True, v, s) else (n1, [], s)));
         s3 = gm_put ''dmi_product'' product (gm_put ''dmi_vendor'' vendor s2);
         (n3, m3) = (case find (\<lambda>(match, name). contains vendor match \<or> contains product match)
                        hypervisorDMI of
             None \<Rightarrow> (n2, m2) | Some (match, name) \<Rightarrow> (True, name))
     in (n3, if n3 \<and> m3 = [] then ''an unidentified hypervisor'' else m3, s3))"

definition detectHypervisor :: "env \<Rightarrow> (bool \<times> string \<times> (string, string) go_map) go" where
  "detectHypervisor E = do {
     flags \<leftarrow> cpuFlags E;
     virt \<leftarrow> go_output E [''systemd-detect-virt''];
     vendor \<leftarrow> readFileDefault E ''/sys/class/dmi/id/sys_vendor'' [];
     product \<leftarrow> readFileDefault E ''/sys/class/dmi/id/product_name'' [];
     return (hypervisor_of flags virt vendor product) }"

lemma checks_detectHypervisor [check_intros]: "checks P (detectHypervisor E)"
  unfolding detectHypervisor_def
  by (intro check_intros) (simp_all add: query_commands_def)

text \<open>Any one signal is enough, and a nested host always has a named hypervisor.\<close>

lemma find_exists: "find p xs \<noteq> None \<longleftrightarrow> (\<exists>x \<in> set xs. p x)"
  by (induction xs) simp_all

lemma hypervisor_of_nested:
  "fst (hypervisor_of flags virt vendor product) \<longleftrightarrow>
    has_flag flags ''hypervisor'' \<or>
    (snd virt = None \<and> trim_space (fst virt) \<notin> {[], ''none''}) \<or>
    (\<exists>(match, name) \<in> set hypervisorDMI. contains vendor match \<or> contains product match)"
  using find_exists [of "\<lambda>(match, name). contains vendor match \<or> contains product match" hypervisorDMI]
  unfolding hypervisor_of_def Let_def
  by (auto split: prod.split option.split if_splits)

lemma hypervisorDMI_named: "(match, name) \<in> set hypervisorDMI \<Longrightarrow> name \<noteq> []"
  by (auto simp: hypervisorDMI_def)

lemma hypervisor_of_name:
  "fst (snd (hypervisor_of flags virt vendor product)) \<noteq> [] \<longleftrightarrow>
    fst (hypervisor_of flags virt vendor product)"
  unfolding hypervisor_of_def Let_def
  by (auto split: prod.splits option.splits if_splits
      simp: find_Some_iff dest!: nth_mem hypervisorDMI_named)

definition all_strings :: "(string, string) go_map \<Rightarrow> (string, any) go_map \<Rightarrow> (string, any) go_map" where
  "all_strings src dst = foldl (\<lambda>m (k, v). gm_put k (AStr v) m) dst src"

definition checkCPUVirtExtensions :: "env \<Rightarrow> bool \<Rightarrow> unit go" where
  "checkCPUVirtExtensions E nested =
    (if goarch E \<noteq> ''amd64'' then
       Addf E ''host.cpu_virt'' ''CPU virtualization extensions'' Info
         (det_cpu_virt_na_1 @ goarch E @ det_cpu_virt_na_2)
     else do {
       flags \<leftarrow> cpuFlags E;
       if has_flag flags ''vmx'' then
         Addf E ''host.cpu_virt'' ''CPU virtualization extensions'' Pass ''vmx (Intel VT-x) present''
       else if has_flag flags ''svm'' then
         Addf E ''host.cpu_virt'' ''CPU virtualization extensions'' Pass ''svm (AMD-V) present''
       else
         report_Fail E ''host.cpu_virt'' ''CPU virtualization extensions''
           ''neither vmx nor svm in /proc/cpuinfo flags''
           (if nested then rem_cpu_virt_nested else rem_cpu_virt) })"

lemma checks_checkCPUVirtExtensions [check_intros]:
  "covers ''host.cpu_virt'' \<Longrightarrow> checks (result_ok covers) (checkCPUVirtExtensions E nested)"
  unfolding checkCPUVirtExtensions_def
  by (intro check_intros) (simp_all add: may_fail_def)

definition posture_data ::
    "bool \<Rightarrow> string \<Rightarrow> (string, string) go_map \<Rightarrow> (string, any) go_map" where
  "posture_data nested outer signals =
    all_strings signals (gm_put ''nested'' (ABool nested) (gm_put ''hypervisor'' (AStr outer) []))"

definition report_posture ::
    "env \<Rightarrow> bool \<Rightarrow> string \<Rightarrow> (string, string) go_map \<Rightarrow> unit go" where
  "report_posture E nested outer signals =
    (let dmi = gm_str signals ''dmi_vendor'' @ '' '' @ gm_str signals ''dmi_product'' @ '')'' in
     if \<not> nested then
       Add E (with_data (posture_data nested outer signals)
         (mk_result ''host.virt_posture'' ''Bare metal or nested'' Pass
           (''bare metal -- no virtualization signal (DMI: '' @ dmi @
            (if goarch E \<noteq> ''amd64'' then det_arm_note else [])) []))
     else
       Add E (with_data (posture_data nested outer signals)
         (mk_result ''host.virt_posture'' ''Bare metal or nested'' Warn
           (''NESTED -- this host is itself a guest of '' @ outer @ '' (DMI: '' @ dmi) rem_nested)))"

definition checkVirtPosture :: "env \<Rightarrow> unit go" where
  "checkVirtPosture E = do {
     (nested, outer, signals) \<leftarrow> detectHypervisor E;
     report_posture E nested outer signals;
     checkCPUVirtExtensions E nested }"

interpretation virt_posture: host_check checkVirtPosture
  "\<lambda>i. i \<in> {''host.virt_posture'', ''host.cpu_virt''}"
  by unfold_locales
    (unfold checkVirtPosture_def report_posture_def, intro check_intros, simp_all)

section \<open>CPU identity and clock\<close>

definition armImplementers :: "(string \<times> string) list" where
  "armImplementers =
    [(''0x41'', ''ARM Ltd''), (''0x42'', ''Broadcom''), (''0x43'', ''Cavium''), (''0x44'', ''DEC''),
     (''0x46'', ''Fujitsu''), (''0x48'', ''HiSilicon''), (''0x49'', ''Infineon''), (''0x4e'', ''NVIDIA''),
     (''0x50'', ''APM''), (''0x51'', ''Qualcomm''), (''0x53'', ''Samsung''), (''0x56'', ''Marvell''),
     (''0x61'', ''Apple''), (''0x66'', ''Faraday''), (''0x69'', ''Intel''), (''0xc0'', ''Ampere'')]"

definition orDash :: "string \<Rightarrow> string" where
  "orDash s = (if s = [] then ''-'' else s)"

definition checkTimekeeping :: "env \<Rightarrow> (string, unit) go_map \<Rightarrow> unit go" where
  "checkTimekeeping E flags = do {
     cur \<leftarrow> readFileDefault E
       ''/sys/devices/system/clocksource/clocksource0/current_clocksource'' ''unknown'';
     avail \<leftarrow> readFileDefault E
       ''/sys/devices/system/clocksource/clocksource0/available_clocksource'' ''unknown'';
     if goarch E = ''arm64'' then
       if cur = ''arch_sys_counter'' then
         Addf E ''host.clocksource'' ''Host clocksource'' Pass (det_arch_counter_1 @ avail @ '')'')
       else
         report_Warn E ''host.clocksource'' ''Host clocksource''
           (det_arch_counter_not_1 @ quote cur @ det_arch_counter_not_2 @ avail @ '')'') rem_arch_counter
     else do {
       for_each [(''constant_tsc'', ''TSC does not vary with CPU frequency''),
                 (''nonstop_tsc'', ''TSC does not stop in deep C-states'')]
         (\<lambda>(flag, why).
           if has_flag flags flag then Addf E (''host.tsc.'' @ flag) (''CPU '' @ flag) Pass why
           else report_Warn E (''host.tsc.'' @ flag) (''CPU '' @ flag)
             (flag @ '' absent -- '' @ why @ '' is not guaranteed'') rem_tsc);
       if cur = ''tsc'' then
         Addf E ''host.clocksource'' ''Host clocksource'' Pass (''tsc (available: '' @ avail @ '')'')
       else
         report_Warn E ''host.clocksource'' ''Host clocksource''
           (''current clocksource is '' @ quote cur @ '', not tsc (available: '' @ avail @ '')'')
           rem_clocksource } }"

definition cpu_description :: "env \<Rightarrow> (string, string) go_map \<Rightarrow> string \<Rightarrow> string" where
  "cpu_description E ident vendor =
    (if goarch E = ''arm64'' then
       vendor @ '' part '' @ orDash (gm_str ident ''part'') @
       '' rev '' @ orDash (gm_str ident ''revision'') @
       '' (arch '' @ orDash (gm_str ident ''architecture'') @ ''), '' @ dec_int (num_cpu E) @ '' logical CPUs''
     else
       orDash (gm_str ident ''model_name'') @ '' ('' @ orDash (gm_str ident ''vendor'') @
       '' family '' @ orDash (gm_str ident ''family'') @ '' model '' @ orDash (gm_str ident ''model'') @
       '' stepping '' @ orDash (gm_str ident ''stepping'') @
       '', microcode '' @ orDash (gm_str ident ''microcode'') @ ''), '' @
       dec_int (num_cpu E) @ '' logical CPUs'')"

definition arm_vendor :: "string \<Rightarrow> string" where
  "arm_vendor impl =
    (case map_of armImplementers (to_lower impl) of
       None \<Rightarrow> ''implementer '' @ impl
     | Some vendor \<Rightarrow> vendor)"

definition checkCPU :: "env \<Rightarrow> unit go" where
  "checkCPU E = do {
     ident \<leftarrow> cpuIdentity E;
     flags \<leftarrow> cpuFlags E;
     let sorted = sort (map fst flags);
     let data = all_strings ident
       (gm_put ''logical_cpus'' (AInt (num_cpu E)) (gm_put ''flags'' (AList (map AStr sorted)) []));
     let vendor = arm_vendor (gm_str ident ''implementer'');
     let data = (if goarch E = ''arm64'' then gm_put ''vendor_name'' (AStr vendor) data else data);
     Add E (with_data data
       (mk_result ''host.cpu'' ''CPU identity'' Info (cpu_description E ident vendor) []));
     checkTimekeeping E flags }"

abbreviation cpu_ids :: "string \<Rightarrow> bool" where
  "cpu_ids i \<equiv> i \<in> {''host.cpu'', ''host.clocksource'', ''host.tsc.constant_tsc'', ''host.tsc.nonstop_tsc''}"

lemma checks_checkTimekeeping: "checks (result_ok cpu_ids) (checkTimekeeping E flags)"
  unfolding checkTimekeeping_def for_each.simps prod.case
  by (intro check_intros) simp_all

interpretation cpu: host_check checkCPU cpu_ids
  by unfold_locales
    (unfold checkCPU_def, intro check_intros checks_checkTimekeeping, simp_all)

end
