(* ===== verification/Go_Path.thy ===== *)
theory Go_Path
  imports Go_Strings
begin

text \<open>
  \<open>path/filepath\<close> on slash-separated paths. \<open>path_base\<close> and \<open>path_dir\<close> are the library's
  on paths that are clean already, the only ones the code applies them to.
\<close>

definition path_base :: "string \<Rightarrow> string" where
  "path_base p = last (split_on CHR ''/'' p)"

definition path_dir :: "string \<Rightarrow> string" where
  "path_dir p = join ''/'' (butlast (split_on CHR ''/'' p))"

text \<open>The elements of a path with the empty ones, \<open>.\<close> and \<open>..\<close> resolved, the last one first.\<close>

fun clean_elems :: "bool \<Rightarrow> string list \<Rightarrow> string list \<Rightarrow> string list" where
  "clean_elems rooted [] stack = stack"
| "clean_elems rooted (e # es) stack =
    (if e = [] \<or> e = ''.'' then clean_elems rooted es stack
     else if e = ''..'' then
       (if stack \<noteq> [] \<and> hd stack \<noteq> ''..'' then clean_elems rooted es (tl stack)
        else if rooted then clean_elems rooted es stack
        else clean_elems rooted es (e # stack))
     else clean_elems rooted es (e # stack))"

definition path_clean :: "string \<Rightarrow> string" where
  "path_clean p =
    (let rooted = prefix ''/'' p; es = rev (clean_elems rooted (split_on CHR ''/'' p) [])
     in if rooted then ''/'' @ join ''/'' es else if es = [] then ''.'' else join ''/'' es)"

definition path_join :: "string \<Rightarrow> string \<Rightarrow> string" where
  "path_join dir name = (if dir = [] then path_clean name else path_clean (dir @ ''/'' @ name))"

end
