(* ===== verification/Host_Checks.thy ===== *)
theory Host_Checks
  imports Host_Cpu Go_Path
begin

text \<open>
  The other checks of \<open>host_linux.go\<close>: KVM module parameters, devices, system calls, the
  packet filter, cgroups, memory and the kernel configuration. Each keeps the contract
  \<open>host_check\<close>.
\<close>

section \<open>KVM module parameters\<close>

definition kvm_params :: "(string \<times> string) list" where
  "kvm_params =
    [(''/sys/module/kvm/parameters/halt_poll_ns'', note_halt_poll),
     (''/sys/module/kvm_intel/parameters/nested'', note_nested),
     (''/sys/module/kvm_amd/parameters/nested'', note_nested),
     (''/sys/module/kvm_intel/parameters/ept'', note_ept),
     (''/sys/module/kvm_amd/parameters/npt'', note_npt),
     (''/sys/module/kvm_intel/parameters/unrestricted_guest'', ''real-mode guests without emulation''),
     (''/sys/module/kvm_amd/parameters/sev'', ''AMD SEV availability''),
     (''/sys/module/kvm/parameters/enable_vmware_backdoor'', [])]"

definition tuning_key :: "string \<Rightarrow> string" where
  "tuning_key p = path_base (path_dir (path_dir p)) @ ''.'' @ path_base p"

definition report_param :: "env \<Rightarrow> string \<Rightarrow> string \<Rightarrow> string \<Rightarrow> unit go" where
  "report_param E path note v =
    (let base = path_base path in
     if (base = ''ept'' \<or> base = ''npt'') \<and> (v = ''N'' \<or> v = ''0'') then
       report_Fail E (''host.kvm_tuning.'' @ base) (''KVM '' @ to_upper base)
         (to_upper base @ '' is disabled ('' @ path @ ''='' @ v @ '')'') rem_ept
     else if note \<noteq> [] then
       Add E (mk_result (''host.kvm_tuning.'' @ base) (''KVM parameter '' @ base) Info
         (path @ '' = '' @ v @ '' -- '' @ note) [])
     else return ())"

definition checkKVMTuning :: "env \<Rightarrow> unit go" where
  "checkKVMTuning E = do {
     found \<leftarrow> for_acc kvm_params [] (\<lambda>(path, note) found. do {
       r \<leftarrow> readFileTrim E path;
       case r of Inl e \<Rightarrow> return found
       | Inr v \<Rightarrow> do {
           report_param E path note v;
           return (gm_put (tuning_key path) v found) } });
     if found = [] then
       report_Warn E ''host.kvm_tuning'' ''KVM module parameters''
         ''no /sys/module/kvm*/parameters found'' rem_kvm_tuning
     else return () }"

lemma checks_report_param [check_intros]:
  assumes "\<And>i. prefix ''host.kvm_tuning'' i \<Longrightarrow> covers i"
  shows "checks (result_ok covers) (report_param E path note v)"
  unfolding report_param_def Let_def
  by (intro check_intros) (auto simp: assms may_fail_def)

interpretation kvm_tuning: host_check checkKVMTuning "\<lambda>i. prefix ''host.kvm_tuning'' i"
  by unfold_locales (unfold checkKVMTuning_def, intro check_intros, simp_all)

section \<open>Devices\<close>

definition checkDevices :: "env \<Rightarrow> unit go" where
  "checkDevices E = do {
     tun \<leftarrow> with_defer (go_open E ''/dev/net/tun'' True) go_close
       (\<lambda>e. return (Some e)) (\<lambda>fd. return None);
     (case tun of
        None \<Rightarrow> Addf E ''host.tun'' ''/dev/net/tun openable'' Pass ''tap devices can be created''
      | Some e \<Rightarrow>
          if IsNotExist e
          then report_Fail E ''host.tun'' ''/dev/net/tun openable'' (err_text e) rem_tun
          else report_Warn E ''host.tun'' ''/dev/net/tun openable'' (err_text e) rem_tun_open);
     vsock \<leftarrow> go_stat E ''/dev/vhost-vsock'';
     (case vsock of
        Inr fi \<Rightarrow> Addf E ''host.vhost_vsock'' ''/dev/vhost-vsock present'' Info det_vsock_present
      | Inl e \<Rightarrow> Addf E ''host.vhost_vsock'' ''/dev/vhost-vsock present'' Info det_vsock_absent);
     nbd \<leftarrow> go_stat E ''/dev/nbd0'';
     (case nbd of
        Inr fi \<Rightarrow> Addf E ''host.nbd'' ''/dev/nbd0 present'' Pass ''network block devices available''
      | Inl e \<Rightarrow> do {
          (out, lderr) \<leftarrow> go_output E [''modprobe'', ''-n'', ''nbd''];
          if lderr = None then
            Addf E ''host.nbd'' ''/dev/nbd0 present'' Pass (det_nbd_available_1 @ trim_space out)
          else report_Warn E ''host.nbd'' ''/dev/nbd0 present'' (err_text e) rem_nbd });
     nft \<leftarrow> LookPath E ''nft'';
     (case nft of
        Inr path \<Rightarrow> Addf E ''host.nftables'' ''nftables available'' Pass ''nft present''
      | Inl e \<Rightarrow> report_Warn E ''host.nftables'' ''nftables available'' ''nft not found in PATH''
          rem_nftables);
     cpuid \<leftarrow> go_stat E ''/dev/cpu/0/cpuid'';
     case cpuid of
       Inr fi \<Rightarrow> Addf E ''host.cpuid_dev'' ''/dev/cpu/0/cpuid present'' Info det_cpuid
     | Inl e \<Rightarrow> return () }"

interpretation devices: host_check checkDevices
  "\<lambda>i. i \<in> {''host.tun'', ''host.vhost_vsock'', ''host.nbd'', ''host.nftables'', ''host.cpuid_dev''}"
  by unfold_locales
    (unfold checkDevices_def, intro check_intros checks_with_defer acquires_go_open,
      simp_all add: may_fail_def query_commands_def)

section \<open>System calls\<close>

definition syscallNR :: "string \<Rightarrow> (string \<Rightarrow> nat) option" where
  "syscallNR arch =
    (if arch = ''amd64'' then Some (\<lambda>name. if name = ''userfaultfd'' then 323 else
                                      if name = ''io_uring_setup'' then 425 else 0)
     else if arch = ''arm64'' then Some (\<lambda>name. if name = ''userfaultfd'' then 282 else
                                      if name = ''io_uring_setup'' then 425 else 0)
     else None)"

definition o_cloexec :: nat where "o_cloexec = 0x80000"

definition probe_io_uring :: "env \<Rightarrow> nat \<Rightarrow> unit go" where
  "probe_io_uring E nr = do {
     r \<leftarrow> go_syscall E nr 0;
     if (case r of Inl e \<Rightarrow> errno e = ENOSYS | Inr v \<Rightarrow> False) then
       report_Warn E ''host.io_uring'' ''io_uring available'' ''io_uring_setup returns ENOSYS''
         rem_io_uring_nosys
     else do {
       disabled \<leftarrow> readFileDefault E ''/proc/sys/kernel/io_uring_disabled'' ''0'';
       if disabled \<noteq> ''0'' then
         report_Warn E ''host.io_uring'' ''io_uring available''
           (''syscall present but kernel.io_uring_disabled = '' @ disabled) rem_io_uring_disabled
       else Addf E ''host.io_uring'' ''io_uring available'' Pass
         ''io_uring_setup present and not disabled'' } }"

definition probe_userfaultfd :: "env \<Rightarrow> nat \<Rightarrow> unit go" where
  "probe_userfaultfd E nr =
    (let i = ''host.userfaultfd''; t = ''userfaultfd available'' in do {
     refused \<leftarrow> with_defer (new_fd ''userfaultfd'' (go_syscall E nr o_cloexec)) go_close
       (\<lambda>e. return (Some e)) (\<lambda>fd. return None);
     case refused of
       None \<Rightarrow> Addf E i t Pass ''created and closed a userfaultfd''
     | Some e \<Rightarrow>
         if errno e = ENOSYS then
           report_Warn E i t ''userfaultfd returns ENOSYS'' rem_uffd_nosys
         else if errno e = EPERM then do {
           unpriv \<leftarrow> readFileDefault E ''/proc/sys/vm/unprivileged_userfaultfd'' ''?'';
           report_Warn E i t
             (''userfaultfd returns EPERM (vm.unprivileged_userfaultfd = '' @ unpriv @ '')'')
             rem_uffd_eperm }
         else Addf E i t Warn (''userfaultfd: '' @ err_text e) })"

definition checkSyscalls :: "env \<Rightarrow> unit go" where
  "checkSyscalls E = (case syscallNR (goarch E) of
     None \<Rightarrow> Addf E ''host.syscalls'' ''Syscall probes'' Skip (''no syscall table for '' @ goarch E)
   | Some nrs \<Rightarrow> do {
       probe_io_uring E (nrs ''io_uring_setup'');
       probe_userfaultfd E (nrs ''userfaultfd'');
       status \<leftarrow> readFileDefault E ''/proc/self/status'' [];
       if contains status ''Seccomp:'' then
         Addf E ''host.seccomp'' ''seccomp-bpf available'' Pass
           ''kernel reports per-thread seccomp state''
       else report_Fail E ''host.seccomp'' ''seccomp-bpf available''
           ''no Seccomp field in /proc/self/status'' rem_seccomp })"

interpretation syscalls: host_check checkSyscalls
  "\<lambda>i. i \<in> {''host.syscalls'', ''host.io_uring'', ''host.userfaultfd'', ''host.seccomp''}"
  by unfold_locales
    (unfold checkSyscalls_def probe_io_uring_def probe_userfaultfd_def Let_def,
      intro check_intros checks_with_defer acquires_new_fd, simp_all add: may_fail_def)

section \<open>The packet filter\<close>

definition firewall_probes :: "(string \<times> string list \<times> string list) list" where
  "firewall_probes =
    [(''nftables'', [''nft'', ''list'', ''ruleset''], [''policy drop'']),
     (''iptables'', [''iptables'', ''-S''], [''-P INPUT DROP'', ''-P FORWARD DROP''])]"

definition checkHostFirewall :: "env \<Rightarrow> unit go" where
  "checkHostFirewall E = do {
     found \<leftarrow> for_acc firewall_probes [] (\<lambda>(name, args, deny) found. do {
       r \<leftarrow> LookPath E (hd args);
       case r of Inl e \<Rightarrow> return found
       | Inr path \<Rightarrow> do {
           (text, err) \<leftarrow> go_output E (path # tl args);
           if err \<noteq> None then return found
           else case find (contains text) deny of
               None \<Rightarrow> return found
             | Some d \<Rightarrow> return (found @ [name @ '' ('' @ quote d @ '')'']) } });
     if found = [] then
       Addf E ''host.firewall'' ''Host packet filter'' Pass det_firewall_none
     else
       report_Warn E ''host.firewall'' ''Host packet filter''
         (''a default-deny policy is present: '' @ join '', '' found) rem_firewall }"

interpretation firewall: host_check checkHostFirewall "\<lambda>i. i = ''host.firewall''"
  by unfold_locales
    (unfold checkHostFirewall_def firewall_probes_def for_acc.simps prod.case list.sel,
      intro check_intros, simp_all add: firewall_query_def)

section \<open>Control groups\<close>

definition cgroup2SuperMagic :: int where "cgroup2SuperMagic = 0x63677270"

definition hex_int :: "int \<Rightarrow> string" where
  "hex_int i = (if i < 0 then ''-'' @ hex (nat (- i)) else hex (nat i))"

text \<open>The verb \<open>%v\<close> for a \<open>[]string\<close>.\<close>

definition show_list :: "string list \<Rightarrow> string" where
  "show_list xs = ''['' @ join '' '' xs @ '']''"

definition wanted_controllers :: "string list" where
  "wanted_controllers = [''cpu'', ''cpuset'', ''memory'', ''io'', ''pids'']"

definition checkCgroups :: "env \<Rightarrow> unit go" where
  "checkCgroups E = (let i = ''host.cgroups''; t = ''cgroup v2 unified hierarchy'' in do {
     st \<leftarrow> ask (\<lambda>h. os_statfs E h ''/sys/fs/cgroup'');
     case st of
       Inl e \<Rightarrow> report_Fail E i t (''statfs /sys/fs/cgroup: '' @ err_text e) rem_cgroup_mount
     | Inr magic \<Rightarrow>
         if magic \<noteq> cgroup2SuperMagic then
           report_Warn E i t
             (''/sys/fs/cgroup is not cgroup2 (fs magic 0x'' @ hex_int magic @ '')'') rem_cgroup_v2
         else do {
           ctrls \<leftarrow> readFileDefault E ''/sys/fs/cgroup/cgroup.controllers'' [];
           let missing = filter (\<lambda>want. want \<notin> set (str_fields ctrls)) wanted_controllers;
           if missing \<noteq> [] then
             report_Warn E i t (''cgroup2 mounted but controllers missing: '' @ show_list missing @
               '' (have: '' @ ctrls @ '')'') rem_cgroup_missing
           else Addf E i t Pass (''controllers: '' @ ctrls) } })"

interpretation cgroups: host_check checkCgroups "\<lambda>i. i = ''host.cgroups''"
  by unfold_locales
    (unfold checkCgroups_def Let_def, intro check_intros, simp_all add: may_fail_def)

section \<open>Memory and limits\<close>

definition checkMemory :: "env \<Rightarrow> unit go" where
  "checkMemory E = do {
     total \<leftarrow> memTotalKB E;
     Add E (with_data (gm_put ''mem_total_kb'' (AInt total) [])
       (mk_result ''host.memory'' ''Host memory'' Info
         (fmt_f 1 (f_div (f_of_int total) (f_of_int (1024 * 1024))) @ '' GiB total'') []));
     overcommit \<leftarrow> readFileDefault E ''/proc/sys/vm/overcommit_memory'' ''?'';
     (if overcommit = ''2'' then
        report_Warn E ''host.overcommit'' ''Memory overcommit''
          ''vm.overcommit_memory = 2 (strict)'' rem_overcommit
      else Addf E ''host.overcommit'' ''Memory overcommit'' Pass
          (''vm.overcommit_memory = '' @ overcommit));
     thp \<leftarrow> readFileDefault E ''/sys/kernel/mm/transparent_hugepage/enabled'' [];
     (if thp \<noteq> [] then
        (let always = contains thp ''[always]''
         in Add E (mk_result ''host.thp'' ''Transparent hugepages''
              (if always then Warn else Info) thp (if always then rem_thp else [])))
      else return ());
     maxMap \<leftarrow> readFileDefault E ''/proc/sys/vm/max_map_count'' ''?'';
     (case atoi maxMap of
        Some n \<Rightarrow>
          if n < 262144 then
            report_Warn E ''host.max_map_count'' ''vm.max_map_count''
              (''vm.max_map_count = '' @ dec_int n) rem_max_map_count
          else Addf E ''host.max_map_count'' ''vm.max_map_count'' Pass maxMap
      | None \<Rightarrow> Addf E ''host.max_map_count'' ''vm.max_map_count'' Pass maxMap);
     lim \<leftarrow> ask (os_rlimit E);
     case lim of
       Inl e \<Rightarrow> return ()
     | Inr (cur, hard) \<Rightarrow>
         (let low = cur < 65536
          in Add E (mk_result ''host.nofile'' ''Open file limit'' (if low then Warn else Pass)
               (''soft '' @ dec cur @ '', hard '' @ dec hard) (if low then rem_nofile else []))) }"

interpretation memory: host_check checkMemory
  "\<lambda>i. i \<in> {''host.memory'', ''host.overcommit'', ''host.thp'', ''host.max_map_count'', ''host.nofile''}"
  by unfold_locales
    (unfold checkMemory_def, intro check_intros, simp_all split: if_splits)

section \<open>The kernel configuration\<close>

definition hostKernelOptions :: "(string \<times> bool \<times> string) list" where
  "hostKernelOptions =
    [(''CONFIG_KVM'', True, ''the hypervisor itself''),
     (''CONFIG_TUN'', True, ''tap devices for guest networking''),
     (''CONFIG_SECCOMP_FILTER'', True, ''Firecracker's sandbox''),
     (''CONFIG_CGROUPS'', True, ''resource bounding per microVM''),
     (''CONFIG_MEMCG'', True, ''memory bounding per microVM''),
     (''CONFIG_CPUSETS'', True, ''pinning microVMs to cores''),
     (''CONFIG_NET_NS'', True, ''network namespace per microVM (the jailer)''),
     (''CONFIG_PID_NS'', True, ''pid namespace per microVM (the jailer)''),
     (''CONFIG_EVENTFD'', True, ''ioeventfd/irqfd plumbing''),
     (''CONFIG_BLK_DEV_NBD'', True, ''network block devices, which back workload storage''),
     (''CONFIG_NF_TABLES'', True, ''nftables, for guest network filtering and NAT''),
     (''CONFIG_USERFAULTFD'', False, ''lazy snapshot restore''),
     (''CONFIG_IO_URING'', False, ''Firecracker's async block engine''),
     (''CONFIG_TRANSPARENT_HUGEPAGE'', False, ''guest memory backing''),
     (''CONFIG_KSM'', False, ''same-page merging across microVMs; optional density lever''),
     (''CONFIG_USER_NS'', False, ''unprivileged jailer configurations'')]"

definition countRequiredOpts :: nat where
  "countRequiredOpts = length (filter (\<lambda>(opt, required, why). required) hostKernelOptions)"

definition enabled :: "(string, string) go_map \<Rightarrow> string \<Rightarrow> bool" where
  "enabled cfg opt \<longleftrightarrow> gm_get cfg opt = Some ''y'' \<or> gm_get cfg opt = Some ''m''"

definition missing_options :: "(string, string) go_map \<Rightarrow> bool \<Rightarrow> string list" where
  "missing_options cfg req =
    map (\<lambda>(opt, required, why). opt @ '' ('' @ why @ '')'')
      (filter (\<lambda>(opt, required, why). required = req \<and> \<not> enabled cfg opt) hostKernelOptions)"

definition vendor_kvm_missing :: "env \<Rightarrow> (string, string) go_map \<Rightarrow> bool" where
  "vendor_kvm_missing E cfg \<longleftrightarrow> goarch E = ''amd64'' \<and>
    \<not> enabled cfg ''CONFIG_KVM_INTEL'' \<and> \<not> enabled cfg ''CONFIG_KVM_AMD''"

definition missing_required :: "env \<Rightarrow> (string, string) go_map \<Rightarrow> string list" where
  "missing_required E cfg =
    missing_options cfg True @ (if vendor_kvm_missing E cfg then [det_vendor_kvm] else [])"

definition checkHostKernelConfig :: "env \<Rightarrow> unit go" where
  "checkHostKernelConfig E = do {
     r \<leftarrow> readKernelConfig E;
     case r of
       Inl e \<Rightarrow> Addf E ''host.kernel_config'' ''Host kernel config'' Skip
         (det_config_skip_1 @ err_text e @ det_config_skip_2)
     | Inr (cfg, src) \<Rightarrow> do {
         (if goarch E = ''amd64'' \<and> \<not> vendor_kvm_missing E cfg then
            Addf E ''host.kernel_config.vendor_kvm'' ''Per-vendor KVM module'' Pass
              (''CONFIG_KVM_INTEL='' @ orDash (gm_str cfg ''CONFIG_KVM_INTEL'') @
               '' CONFIG_KVM_AMD='' @ orDash (gm_str cfg ''CONFIG_KVM_AMD''))
          else return ());
         (if missing_required E cfg \<noteq> [] then
            report_Fail E ''host.kernel_config'' ''Host kernel config''
              (''from '' @ src @ '', missing required: '' @ join '', '' (missing_required E cfg))
              rem_config
          else Addf E ''host.kernel_config'' ''Host kernel config'' Pass
              (''from '' @ src @ '', all '' @ dec countRequiredOpts @ '' required options present''));
         if missing_options cfg False \<noteq> [] then
           report_Warn E ''host.kernel_config.optional'' ''Host kernel config (optional)''
             (''absent: '' @ join '', '' (missing_options cfg False)) rem_config_optional
         else return () } }"

interpretation kernel_config: host_check checkHostKernelConfig
  "\<lambda>i. i \<in> {''host.kernel_config'', ''host.kernel_config.vendor_kvm'', ''host.kernel_config.optional''}"
  by unfold_locales
    (unfold checkHostKernelConfig_def, intro check_intros, simp_all add: may_fail_def)

end
