(* ===== verification/Kvm.thy ===== *)
theory Kvm
  imports Host_Cpu
begin

text \<open>
  \<open>kvm_linux.go\<close>: the capability tables and \<open>checkKVM\<close>, which opens \<open>/dev/kvm\<close>, asks
  for its version and capabilities and creates a VM and a vCPU, each step only after the
  one before it succeeded.
\<close>

section \<open>Requests and capabilities\<close>

definition kvmGetAPIVersion :: nat where "kvmGetAPIVersion = 0xAE00"
definition kvmCreateVM :: nat where "kvmCreateVM = 0xAE01"
definition kvmCheckExtension :: nat where "kvmCheckExtension = 0xAE03"
definition kvmGetVCPUMmapSize :: nat where "kvmGetVCPUMmapSize = 0xAE04"
definition kvmCreateVCPU :: nat where "kvmCreateVCPU = 0xAE41"
definition kvmStableAPIVersion :: nat where "kvmStableAPIVersion = 12"

record kvm_cap =
  cap_num :: nat
  cap_name :: string
  cap_required :: bool
  cap_note :: string

definition mk_cap :: "nat \<Rightarrow> string \<Rightarrow> bool \<Rightarrow> string \<Rightarrow> kvm_cap" where
  "mk_cap n s r note = \<lparr>cap_num = n, cap_name = s, cap_required = r, cap_note = note\<rparr>"

definition amd64Caps :: "kvm_cap list" where
  "amd64Caps =
    [mk_cap 0 ''KVM_CAP_IRQCHIP'' True [], mk_cap 3 ''KVM_CAP_USER_MEMORY'' True [],
     mk_cap 4 ''KVM_CAP_SET_TSS_ADDR'' True [], mk_cap 7 ''KVM_CAP_EXT_CPUID'' True [],
     mk_cap 14 ''KVM_CAP_MP_STATE'' True [], mk_cap 32 ''KVM_CAP_IRQFD'' True [],
     mk_cap 33 ''KVM_CAP_PIT2'' True [], mk_cap 35 ''KVM_CAP_PIT_STATE2'' True [],
     mk_cap 36 ''KVM_CAP_IOEVENTFD'' True [], mk_cap 39 ''KVM_CAP_ADJUST_CLOCK'' True [],
     mk_cap 41 ''KVM_CAP_VCPU_EVENTS'' True [], mk_cap 50 ''KVM_CAP_DEBUGREGS'' True [],
     mk_cap 55 ''KVM_CAP_XSAVE'' True [], mk_cap 56 ''KVM_CAP_XCRS'' True [],
     mk_cap 136 ''KVM_CAP_IMMEDIATE_EXIT'' False note_immediate_exit,
     mk_cap 143 ''KVM_CAP_X86_DISABLE_EXITS'' False note_disable_exits,
     mk_cap 105 ''KVM_CAP_CHECK_EXTENSION_VM'' False ''per-VM capability queries'']"

definition arm64Caps :: "kvm_cap list" where
  "arm64Caps =
    [mk_cap 3 ''KVM_CAP_USER_MEMORY'' True [], mk_cap 14 ''KVM_CAP_MP_STATE'' True [],
     mk_cap 32 ''KVM_CAP_IRQFD'' True [], mk_cap 36 ''KVM_CAP_IOEVENTFD'' True [],
     mk_cap 70 ''KVM_CAP_ONE_REG'' True [], mk_cap 89 ''KVM_CAP_DEVICE_CTRL'' True [],
     mk_cap 102 ''KVM_CAP_ARM_PSCI_0_2'' True [],
     mk_cap 136 ''KVM_CAP_IMMEDIATE_EXIT'' False ''vCPU exit latency'',
     mk_cap 165 ''KVM_CAP_ARM_VM_IPA_SIZE'' False note_ipa_size]"

definition sizingCaps :: "kvm_cap list" where
  "sizingCaps =
    [mk_cap 9 ''KVM_CAP_NR_VCPUS'' False ''recommended vCPUs per VM'',
     mk_cap 66 ''KVM_CAP_MAX_VCPUS'' False ''hard vCPU ceiling per VM'',
     mk_cap 10 ''KVM_CAP_NR_MEMSLOTS'' False
       ''memory slots per VM; Firecracker needs one per memory region'']"

definition countRequired :: "kvm_cap list \<Rightarrow> nat" where
  "countRequired caps = length (filter cap_required caps)"

definition caps_of :: "string \<Rightarrow> kvm_cap list option" where
  "caps_of arch = (if arch = ''amd64'' then Some amd64Caps
     else if arch = ''arm64'' then Some arm64Caps else None)"

section \<open>The steps of \<open>checkKVM\<close>\<close>

definition groupHint :: "env \<Rightarrow> string go" where
  "groupHint E = do {
     gids \<leftarrow> ask (os_getgroups E);
     case gids of Inl e \<Rightarrow> return ''group membership could not be read''
     | Inr gids \<Rightarrow> do {
         fi \<leftarrow> go_stat E ''/dev/kvm'';
         return (case fi of Inl e \<Rightarrow> ''group membership could not be checked''
           | Inr fi \<Rightarrow>
               if fi_gid fi \<in> set (map (\<lambda>g. g mod 2 ^ 32) gids) then hint_in_group
               else ''not in the device's group (gid '' @ dec_int (fi_gid fi) @ '')'') } }"

text \<open>The loop over the capabilities: what is missing and what each one answered.\<close>

fun query_cap :: "env \<Rightarrow> int \<Rightarrow> kvm_cap \<Rightarrow> string list \<times> (string, any) go_map \<Rightarrow>
    (string list \<times> (string, any) go_map) go" where
  "query_cap E kvm c (missing, present) = do {
     r \<leftarrow> ioctl E kvm kvmCheckExtension (cap_num c);
     let v = (case r of Inl e \<Rightarrow> 0 | Inr v \<Rightarrow> v);
     let present = gm_put (cap_name c) (AInt (int v)) present;
     if v \<noteq> 0 then return (missing, present)
     else if cap_required c then return (missing @ [cap_name c], present)
     else do {
       report_Warn E (''kvm.cap.'' @ cap_name c) (''KVM capability '' @ cap_name c)
         (cap_name c @ '' (cap '' @ dec (cap_num c) @ '') is not supported'')
         (''Not required to boot. '' @ cap_note c);
       return (missing, present) } }"

definition query_caps ::
    "env \<Rightarrow> int \<Rightarrow> kvm_cap list \<Rightarrow> (string list \<times> (string, any) go_map) go" where
  "query_caps E kvm caps = for_acc caps ([], []) (query_cap E kvm)"

definition report_caps ::
    "env \<Rightarrow> kvm_cap list \<Rightarrow> string list \<times> (string, any) go_map \<Rightarrow> unit go" where
  "report_caps E caps = (\<lambda>(missing, present).
     let i = ''kvm.caps.required''; t = ''Firecracker-required KVM capabilities'' in
     if missing \<noteq> [] then
       report_Fail E i t
         (''missing: ['' @ join '' '' missing @ '']'') rem_kvm_caps
     else Add E (with_data (gm_put ''capabilities'' (AMap present) [])
       (mk_result i t Pass (''all '' @ dec (countRequired caps) @ '' present'') [])))"

definition report_size :: "env \<Rightarrow> int \<Rightarrow> kvm_cap \<Rightarrow> unit go" where
  "report_size E kvm c = do {
     r \<leftarrow> ioctl E kvm kvmCheckExtension (cap_num c);
     case r of Inl e \<Rightarrow> return ()
     | Inr v \<Rightarrow> Add E (with_data (gm_put ''value'' (AInt (int v)) [])
         (mk_result (''kvm.sizing.'' @ cap_name c) (cap_name c) Info
           (dec v @ '' ('' @ cap_note c @ '')'') [])) }"

definition report_sizing :: "env \<Rightarrow> int \<Rightarrow> unit go" where
  "report_sizing E kvm = for_each sizingCaps (report_size E kvm)"

definition create_vm :: "env \<Rightarrow> int \<Rightarrow> unit go" where
  "create_vm E kvm =
     with_defer (new_fd ''kvm-vm'' (ioctl E kvm kvmCreateVM 0)) go_close
       (\<lambda>e. report_Fail E ''kvm.create_vm'' ''KVM_CREATE_VM'' (''KVM_CREATE_VM: '' @ err_text e)
          rem_kvm_create_vm)
       (\<lambda>vmfd. do {
          Addf E ''kvm.create_vm'' ''KVM_CREATE_VM'' Pass ''created a VM fd'';
          refused \<leftarrow> with_defer (new_fd ''kvm-vcpu'' (ioctl E vmfd kvmCreateVCPU 0)) go_close
            (\<lambda>e. return (Some e)) (\<lambda>vcpufd. return None);
          case refused of
            Some e \<Rightarrow> report_Fail E ''kvm.create_vcpu'' ''KVM_CREATE_VCPU''
              (''KVM_CREATE_VCPU: '' @ err_text e) rem_kvm_create_vcpu
          | None \<Rightarrow> Addf E ''kvm.create_vcpu'' ''KVM_CREATE_VCPU'' Pass ''created a vCPU fd'' })"

text \<open>With the device open: the version decides whether anything else is asked.\<close>

definition probe_kvm :: "env \<Rightarrow> kvm_cap list \<Rightarrow> int \<Rightarrow> unit go" where
  "probe_kvm E caps kvm = do {
     Addf E ''kvm.open'' ''/dev/kvm openable'' Pass (''opened O_RDWR as uid '' @ dec_int (geteuid E));
     api \<leftarrow> ioctl E kvm kvmGetAPIVersion 0;
     case api of
       Inl e \<Rightarrow> report_Fail E ''kvm.api_version'' ''KVM API version''
         (''KVM_GET_API_VERSION: '' @ err_text e) rem_kvm_no_ioctl
     | Inr apiVer \<Rightarrow>
         if apiVer \<noteq> kvmStableAPIVersion then
           report_Fail E ''kvm.api_version'' ''KVM API version''
             (''KVM_GET_API_VERSION returned '' @ dec apiVer @ '', want '' @ dec kvmStableAPIVersion)
             rem_kvm_abi
         else do {
           Addf E ''kvm.api_version'' ''KVM API version'' Pass (dec apiVer);
           found \<leftarrow> query_caps E kvm caps;
           report_caps E caps found;
           report_sizing E kvm;
           sz \<leftarrow> ioctl E kvm kvmGetVCPUMmapSize 0;
           (case sz of Inl e \<Rightarrow> return ()
            | Inr v \<Rightarrow> Addf E ''kvm.vcpu_mmap_size'' ''vCPU mmap size'' Info (dec v @ '' bytes''));
           create_vm E kvm } }"

text \<open>The device did not open: blocked when only this user is refused, else a failure.\<close>

definition refused_kvm :: "env \<Rightarrow> os_error \<Rightarrow> unit go" where
  "refused_kvm E e =
    (if IsPermission e \<and> geteuid E \<noteq> 0 then do {
       hint \<leftarrow> groupHint E;
       report_Blocked E ''kvm.open'' ''/dev/kvm openable''
         (err_text e @ '' (running as uid '' @ dec_int (geteuid E) @ '', and '' @ hint @ '')'')
         rem_kvm_blocked }
     else if IsPermission e then
       report_Fail E ''kvm.open'' ''/dev/kvm openable'' (err_text e @ '', while running as root'')
         rem_kvm_refused
     else report_Fail E ''kvm.open'' ''/dev/kvm openable'' (''open: '' @ err_text e) rem_kvm_open)"

definition checkKVM :: "env \<Rightarrow> unit go" where
  "checkKVM E = (case caps_of (goarch E) of
     None \<Rightarrow> report_Fail E ''kvm.arch'' ''Supported architecture''
       (''this tool knows amd64 and arm64, not '' @ goarch E) ''Run on an x86_64 or aarch64 host.''
   | Some caps \<Rightarrow> do {
       fi \<leftarrow> go_stat E ''/dev/kvm'';
       case fi of
         Inl e \<Rightarrow> report_Fail E ''kvm.device'' ''/dev/kvm present'' (err_text e) rem_kvm_device
       | Inr fi \<Rightarrow>
           if \<not> is_char_device (fi_mode fi) then
             report_Fail E ''kvm.device'' ''/dev/kvm present''
               (''/dev/kvm is not a character device (mode '' @ mode_string (fi_mode fi) @ '')'')
               rem_kvm_node
           else do {
             Addf E ''kvm.device'' ''/dev/kvm present'' Pass
               (''character device, mode '' @ mode_string (mode_perm (fi_mode fi)));
             with_defer (go_open E ''/dev/kvm'' True) go_close
               (\<lambda>e. refused_kvm E e) (\<lambda>kvm. probe_kvm E caps kvm) } })"

lemma checks_groupHint [check_intros]: "checks P (groupHint E)"
  unfolding groupHint_def by (intro check_intros)

abbreviation kvm_ids :: "string \<Rightarrow> bool" where "kvm_ids i \<equiv> prefix ''kvm.'' i"

lemma checks_query_caps: "checks (result_ok kvm_ids) (query_caps E kvm caps)"
proof -
  have "checks (result_ok kvm_ids) (query_cap E kvm c (m, p))" for c m p
    unfolding query_cap.simps Let_def by (intro check_intros) simp_all
  then have "checks (result_ok kvm_ids) (query_cap E kvm c acc)" for c acc
    by (cases acc) simp
  then show ?thesis unfolding query_caps_def by (rule chk.keeps_for_acc)
qed

lemma checks_report_caps: "checks (result_ok kvm_ids) (report_caps E caps found)"
  unfolding report_caps_def Let_def by (intro check_intros) (simp_all add: may_fail_def)

lemma checks_report_sizing: "checks (result_ok kvm_ids) (report_sizing E kvm)"
  unfolding report_sizing_def report_size_def by (intro check_intros) simp_all

lemma checks_create_vm: "checks (result_ok kvm_ids) (create_vm E kvm)"
  unfolding create_vm_def
  by (intro check_intros checks_with_defer acquires_new_fd) (simp_all add: may_fail_def)

lemma checks_probe_kvm: "checks (result_ok kvm_ids) (probe_kvm E caps kvm)"
  unfolding probe_kvm_def
  by (intro check_intros checks_query_caps checks_report_caps checks_report_sizing checks_create_vm)
    (simp_all add: may_fail_def)

lemma checks_refused_kvm: "checks (result_ok kvm_ids) (refused_kvm E e)"
  unfolding refused_kvm_def by (intro check_intros) (simp_all add: may_fail_def)

interpretation kvm: host_check checkKVM kvm_ids
  by unfold_locales
    (unfold checkKVM_def, intro check_intros checks_with_defer acquires_go_open
      checks_probe_kvm checks_refused_kvm, simp_all add: may_fail_def)

end
