(* ===== verification/Tags.thy ===== *)
theory Tags
  imports Os_World
begin

text \<open>
  The identifiers and statuses of a report, in order: what the specifications of the checks
  and of the boot stage speak about.
\<close>

section \<open>Identifiers and statuses\<close>

definition tags :: "world \<Rightarrow> (string \<times> status) list" where
  "tags w = map (\<lambda>x. (res_ID x, res_Status x)) (results w)"

text \<open>Rules that give the tags after a step, for steps that only report or ask.\<close>

named_theorems tag_simps \<open>the tags after an operation\<close>

lemma tags_Add [tag_simps]: "tags (exec (Add E x) w) = tags w @ [(res_ID x, res_Status x)]"
  by (simp add: Add_def tags_def)

lemma tags_report [tag_simps]:
  "tags (exec (Addf E i t st d) w) = tags w @ [(i, st)]"
  "tags (exec (report_Fail E i t d r) w) = tags w @ [(i, Fail)]"
  "tags (exec (report_Warn E i t d r) w) = tags w @ [(i, Warn)]"
  "tags (exec (report_Blocked E i t d r) w) = tags w @ [(i, Blocked)]"
  by (simp_all add: Addf_def report_Fail_def report_Warn_def report_Blocked_def tags_Add)

lemma tags_event [tag_simps]: "tags (w\<lparr>w_trace := h\<rparr>) = tags w"
  by (simp add: tags_def)

lemma tags_ask [tag_simps]:
  "tags (exec (go_stat E p) w) = tags w" "tags (exec (ioctl E fd r a) w) = tags w"
  "tags (exec (go_open E p b) w) = tags w" "tags (exec (go_close fd) w) = tags w"
  by (simp_all add: go_stat_def ioctl_def go_open_def go_close_def tags_event split: sum.splits)

lemma tags_new_fd [tag_simps]: "tags (exec (new_fd what m) w) = tags (exec m w)"
  by (simp add: new_fd_def tags_event split: sum.splits)

lemma tags_with_defer [tag_simps]:
  "tags (exec (with_defer m go_close onerr body) w) =
    (case result_of m w of Inl e \<Rightarrow> tags (exec (onerr e) (exec m w))
     | Inr x \<Rightarrow> tags (exec (body x) (exec m w)))"
  by (simp add: with_defer_def tags_ask split: sum.splits)

end
