(* ===== verification/Kvm_Spec.thy ===== *)
theory Kvm_Spec
  imports Kvm Tags
begin

text \<open>
  What \<open>checkKVM\<close> decides, as a function of the device's answers: the identifiers and the
  statuses it reports, in order. The refinement lemma holds for a device whose answers do
  not change while it is asked.
\<close>

section \<open>A device that does not change\<close>

record device =
  dev_stat :: "string \<Rightarrow> os_error + file_info"
  dev_open :: "string \<Rightarrow> bool \<Rightarrow> os_error + int"
  dev_ioctl :: "int \<Rightarrow> nat \<Rightarrow> nat \<Rightarrow> os_error + nat"

definition steady :: "env \<Rightarrow> device \<Rightarrow> bool" where
  "steady E d \<longleftrightarrow> (\<forall>h p. os_stat E h p = dev_stat d p) \<and>
    (\<forall>h p b. os_open E h p b = dev_open d p b) \<and>
    (\<forall>h fd r a. os_ioctl E h fd r a = dev_ioctl d fd r a)"

lemma steady_result:
  "steady E d \<Longrightarrow> result_of (go_stat E p) w = dev_stat d p"
  "steady E d \<Longrightarrow> result_of (go_open E p b) w = dev_open d p b"
  "steady E d \<Longrightarrow> result_of (ioctl E fd r a) w = dev_ioctl d fd r a"
  by (simp_all add: steady_def go_stat_def go_open_def ioctl_def split: sum.splits)

lemma result_new_fd [tag_simps]: "result_of (new_fd what m) w = map_sum id int (result_of m w)"
  by (simp add: new_fd_def split: sum.splits)

section \<open>The decision\<close>

text \<open>A capability is present when the device answers its query with a positive number.\<close>

definition cap_present :: "device \<Rightarrow> int \<Rightarrow> kvm_cap \<Rightarrow> bool" where
  "cap_present d kvm c \<longleftrightarrow>
    (case dev_ioctl d kvm kvmCheckExtension (cap_num c) of Inl e \<Rightarrow> False | Inr v \<Rightarrow> v \<noteq> 0)"

definition caps_spec :: "device \<Rightarrow> int \<Rightarrow> kvm_cap list \<Rightarrow> (string \<times> status) list" where
  "caps_spec d kvm caps =
    map (\<lambda>c. (''kvm.cap.'' @ cap_name c, Warn))
      (filter (\<lambda>c. \<not> cap_present d kvm c \<and> \<not> cap_required c) caps) @
    [(''kvm.caps.required'',
      if \<forall>c \<in> set caps. cap_required c \<longrightarrow> cap_present d kvm c then Pass else Fail)]"

definition sizing_spec :: "device \<Rightarrow> int \<Rightarrow> (string \<times> status) list" where
  "sizing_spec d kvm =
    map (\<lambda>c. (''kvm.sizing.'' @ cap_name c, Info))
      (filter (\<lambda>c. \<not> isl (dev_ioctl d kvm kvmCheckExtension (cap_num c))) sizingCaps) @
    (if isl (dev_ioctl d kvm kvmGetVCPUMmapSize 0) then [] else [(''kvm.vcpu_mmap_size'', Info)])"

definition create_spec :: "device \<Rightarrow> int \<Rightarrow> (string \<times> status) list" where
  "create_spec d kvm =
    (case dev_ioctl d kvm kvmCreateVM 0 of
       Inl e \<Rightarrow> [(''kvm.create_vm'', Fail)]
     | Inr vm \<Rightarrow> [(''kvm.create_vm'', Pass),
         (''kvm.create_vcpu'', if isl (dev_ioctl d (int vm) kvmCreateVCPU 0) then Fail else Pass)])"

definition kvm_spec :: "string \<Rightarrow> int \<Rightarrow> device \<Rightarrow> (string \<times> status) list" where
  "kvm_spec arch uid d =
    (case caps_of arch of None \<Rightarrow> [(''kvm.arch'', Fail)]
     | Some caps \<Rightarrow>
       (case dev_stat d ''/dev/kvm'' of Inl e \<Rightarrow> [(''kvm.device'', Fail)]
        | Inr fi \<Rightarrow>
          if \<not> is_char_device (fi_mode fi) then [(''kvm.device'', Fail)]
          else (''kvm.device'', Pass) #
            (case dev_open d ''/dev/kvm'' True of
               Inl e \<Rightarrow> [(''kvm.open'', if IsPermission e \<and> uid \<noteq> 0 then Blocked else Fail)]
             | Inr kvm \<Rightarrow> (''kvm.open'', Pass) #
                 (if dev_ioctl d kvm kvmGetAPIVersion 0 \<noteq> Inr kvmStableAPIVersion
                  then [(''kvm.api_version'', Fail)]
                  else (''kvm.api_version'', Pass) #
                    caps_spec d kvm caps @ sizing_spec d kvm @ create_spec d kvm))))"

section \<open>Refinement\<close>

lemma query_caps_spec:
  assumes "steady E d"
  shows "fst (result_of (query_caps E kvm caps) w) =
      map cap_name (filter (\<lambda>c. \<not> cap_present d kvm c \<and> cap_required c) caps) \<and>
    tags (exec (query_caps E kvm caps) w) = tags w @
      map (\<lambda>c. (''kvm.cap.'' @ cap_name c, Warn))
        (filter (\<lambda>c. \<not> cap_present d kvm c \<and> \<not> cap_required c) caps)"
proof -
  have "fst (result_of (for_acc caps acc (query_cap E kvm)) w) =
      fst acc @ map cap_name (filter (\<lambda>c. \<not> cap_present d kvm c \<and> cap_required c) caps) \<and>
    tags (exec (for_acc caps acc (query_cap E kvm)) w) = tags w @
      map (\<lambda>c. (''kvm.cap.'' @ cap_name c, Warn))
        (filter (\<lambda>c. \<not> cap_present d kvm c \<and> \<not> cap_required c) caps)" for acc
  proof (induction caps arbitrary: acc w)
    case (Cons c caps)
    show ?case
      by (cases acc; cases "dev_ioctl d kvm kvmCheckExtension (cap_num c)")
        (simp_all add: Let_def tag_simps steady_result [OF assms] cap_present_def Cons.IH)
  qed simp
  then show ?thesis unfolding query_caps_def by simp
qed

lemma report_caps_spec:
  "tags (exec (report_caps E caps found) w) =
    tags w @ [(''kvm.caps.required'', if fst found = [] then Pass else Fail)]"
  by (simp add: report_caps_def tag_simps Let_def split: prod.splits)

lemma report_size_spec:
  assumes "steady E d"
  shows "tags (exec (report_size E kvm c) w) = tags w @
    (if isl (dev_ioctl d kvm kvmCheckExtension (cap_num c)) then []
     else [(''kvm.sizing.'' @ cap_name c, Info)])"
  by (cases "dev_ioctl d kvm kvmCheckExtension (cap_num c)")
    (simp_all add: tag_simps steady_result [OF assms] report_size_def)

lemma report_sizing_spec:
  assumes "steady E d"
  shows "tags (exec (report_sizing E kvm) w) = tags w @
    map (\<lambda>c. (''kvm.sizing.'' @ cap_name c, Info))
      (filter (\<lambda>c. \<not> isl (dev_ioctl d kvm kvmCheckExtension (cap_num c))) sizingCaps)"
proof -
  have "tags (exec (for_each cs (report_size E kvm)) w) = tags w @
    map (\<lambda>c. (''kvm.sizing.'' @ cap_name c, Info))
      (filter (\<lambda>c. \<not> isl (dev_ioctl d kvm kvmCheckExtension (cap_num c))) cs)" for cs
    by (induction cs arbitrary: w) (simp_all add: report_size_spec [OF assms])
  then show ?thesis unfolding report_sizing_def .
qed

lemma create_vm_spec:
  assumes "steady E d"
  shows "tags (exec (create_vm E kvm) w) = tags w @ create_spec d kvm"
proof (cases "dev_ioctl d kvm kvmCreateVM 0")
  case (Inr vm)
  then show ?thesis
    by (cases "dev_ioctl d (int vm) kvmCreateVCPU 0")
      (simp_all add: create_vm_def create_spec_def tag_simps steady_result [OF assms] with_defer_def)
qed (simp add: create_vm_def create_spec_def tag_simps steady_result [OF assms])

lemma groupHint_tags [tag_simps]: "tags (exec (groupHint E) w) = tags w"
  by (simp add: groupHint_def tag_simps split: sum.splits)

lemma probe_kvm_spec:
  assumes "steady E d"
  shows "tags (exec (probe_kvm E caps kvm) w) = tags w @ (''kvm.open'', Pass) #
    (if dev_ioctl d kvm kvmGetAPIVersion 0 \<noteq> Inr kvmStableAPIVersion
     then [(''kvm.api_version'', Fail)]
     else (''kvm.api_version'', Pass) # caps_spec d kvm caps @ sizing_spec d kvm @ create_spec d kvm)"
proof (cases "dev_ioctl d kvm kvmGetAPIVersion 0")
  case (Inr v)
  then show ?thesis
    by (cases "dev_ioctl d kvm kvmGetVCPUMmapSize 0")
      (auto simp: probe_kvm_def tag_simps steady_result [OF assms] query_caps_spec [OF assms] report_caps_spec
        report_sizing_spec [OF assms] create_vm_spec [OF assms] caps_spec_def sizing_spec_def
        filter_empty_conv)
qed (simp add: probe_kvm_def tag_simps steady_result [OF assms])

lemma checkKVM_refines:
  assumes "steady E d"
  shows "tags (exec (checkKVM E) w) = tags w @ kvm_spec (goarch E) (geteuid E) d"
  by (auto simp: checkKVM_def kvm_spec_def refused_kvm_def tag_simps steady_result [OF assms] probe_kvm_spec [OF assms]
    split: option.splits sum.splits)

end
