(* ===== verification/Preflight.thy ===== *)
theory Preflight
  imports Host_Checks Kvm_Spec
begin

text \<open>
  \<open>runPreflight\<close>: every host check, in the order of the code. The contract of the whole
  follows from the contracts of the checks.
\<close>

definition runPreflight :: "env \<Rightarrow> unit go" where
  "runPreflight E = do {
     checkPlatform E;
     checkVirtPosture E;
     checkCPU E;
     checkKVM E;
     checkKVMTuning E;
     checkDevices E;
     checkSyscalls E;
     checkHostFirewall E;
     checkCgroups E;
     checkMemory E;
     checkHostKernelConfig E }"

abbreviation preflight_ids :: "string \<Rightarrow> bool" where
  "preflight_ids i \<equiv> prefix ''host.'' i \<or> prefix ''kvm.'' i"

interpretation preflight: host_check runPreflight preflight_ids
proof
  fix E
  have tuning: "prefix ''host.kvm_tuning'' i \<Longrightarrow> preflight_ids i" for i
    by (auto simp: prefix_def)
  show "checks (result_ok preflight_ids) (runPreflight E)"
    unfolding runPreflight_def
    by (intro chk.keeps platform.weaken virt_posture.weaken cpu.weaken kvm.weaken
        kvm_tuning.weaken devices.weaken syscalls.weaken firewall.weaken cgroups.weaken
        memory.weaken kernel_config.weaken) (auto dest: tuning)
qed

text \<open>What the contract says of the report: nothing that was there is touched.\<close>

lemma preflight_report:
  obtains rs where "list_all (result_ok preflight_ids) rs"
    and "w_report (exec (runPreflight E) w) = (w_report w)\<lparr>rep_Results := results w @ rs\<rparr>"
  using preflight.step [of w E] by (auto simp: check_rel_def)

text \<open>
  From an empty report, an unsuitable host is always one with a failure under one of the
  identifiers of \<open>may_fail\<close>.
\<close>

lemma preflight_fail_id:
  assumes "x \<in> set (results (exec (runPreflight E) w))" and "x \<notin> set (results w)"
    and "res_Status x = Fail"
  shows "may_fail (res_ID x) \<and> res_Remedy x \<noteq> []"
proof -
  obtain rs where rs: "list_all (result_ok preflight_ids) rs"
    "w_report (exec (runPreflight E) w) = (w_report w)\<lparr>rep_Results := results w @ rs\<rparr>"
    by (rule preflight_report)
  with assms have "x \<in> set rs" by simp
  with rs(1) assms(3) show ?thesis by (auto simp: list_all_iff result_ok_def)
qed

end
