(* ===== verification/Sha256.thy ===== *)
theory Sha256
  imports Go_Strings "HOL-Library.Word"
begin

unbundle bit_operations_syntax

text \<open>
  SHA-256 of a byte string and its hexadecimal form, what \<open>sha256.New\<close> and
  \<open>hex.EncodeToString\<close> give: artifacts are pinned by it. Messages are padded to whole
  blocks of sixteen 32-bit words; a block updates the eight words of the state.
\<close>

type_synonym w32 = "32 word"

definition sha_k :: "w32 list" where
  "sha_k =
    [0x428A2F98, 0x71374491, 0xB5C0FBCF, 0xE9B5DBA5, 0x3956C25B, 0x59F111F1,
     0x923F82A4, 0xAB1C5ED5, 0xD807AA98, 0x12835B01, 0x243185BE, 0x550C7DC3,
     0x72BE5D74, 0x80DEB1FE, 0x9BDC06A7, 0xC19BF174, 0xE49B69C1, 0xEFBE4786,
     0x0FC19DC6, 0x240CA1CC, 0x2DE92C6F, 0x4A7484AA, 0x5CB0A9DC, 0x76F988DA,
     0x983E5152, 0xA831C66D, 0xB00327C8, 0xBF597FC7, 0xC6E00BF3, 0xD5A79147,
     0x06CA6351, 0x14292967, 0x27B70A85, 0x2E1B2138, 0x4D2C6DFC, 0x53380D13,
     0x650A7354, 0x766A0ABB, 0x81C2C92E, 0x92722C85, 0xA2BFE8A1, 0xA81A664B,
     0xC24B8B70, 0xC76C51A3, 0xD192E819, 0xD6990624, 0xF40E3585, 0x106AA070,
     0x19A4C116, 0x1E376C08, 0x2748774C, 0x34B0BCB5, 0x391C0CB3, 0x4ED8AA4A,
     0x5B9CCA4F, 0x682E6FF3, 0x748F82EE, 0x78A5636F, 0x84C87814, 0x8CC70208,
     0x90BEFFFA, 0xA4506CEB, 0xBEF9A3F7, 0xC67178F2]"

definition sha_init :: "w32 list" where
  "sha_init =
    [0x6A09E667, 0xBB67AE85, 0x3C6EF372, 0xA54FF53A, 0x510E527F, 0x9B05688C,
     0x1F83D9AB, 0x5BE0CD19]"

definition rotr :: "nat \<Rightarrow> w32 \<Rightarrow> w32" where
  "rotr n x = drop_bit n x OR push_bit (32 - n) x"

definition big_sigma0 :: "w32 \<Rightarrow> w32" where
  "big_sigma0 x = rotr 2 x XOR rotr 13 x XOR rotr 22 x"

definition big_sigma1 :: "w32 \<Rightarrow> w32" where
  "big_sigma1 x = rotr 6 x XOR rotr 11 x XOR rotr 25 x"

definition small_sigma0 :: "w32 \<Rightarrow> w32" where
  "small_sigma0 x = rotr 7 x XOR rotr 18 x XOR drop_bit 3 x"

definition small_sigma1 :: "w32 \<Rightarrow> w32" where
  "small_sigma1 x = rotr 17 x XOR rotr 19 x XOR drop_bit 10 x"

text \<open>The message schedule, most recent word first.\<close>

fun schedule :: "nat \<Rightarrow> w32 list \<Rightarrow> w32 list" where
  "schedule 0 ws = ws"
| "schedule (Suc n) ws =
    schedule n ((small_sigma1 (ws ! 1) + ws ! 6 + small_sigma0 (ws ! 14) + ws ! 15) # ws)"

fun sha_rounds :: "(w32 \<times> w32) list \<Rightarrow> w32 list \<Rightarrow> w32 list" where
  "sha_rounds [] s = s"
| "sha_rounds ((k, w) # kws) s =
    (case s of [a, b, c, d, e, f, g, h] \<Rightarrow>
       let t1 = h + big_sigma1 e + ((e AND f) XOR (NOT e AND g)) + k + w;
           t2 = big_sigma0 a + ((a AND b) XOR (a AND c) XOR (b AND c))
       in sha_rounds kws [t1 + t2, a, b, c, d + t1, e, f, g]
     | _ \<Rightarrow> s)"

definition sha_block :: "w32 list \<Rightarrow> w32 list \<Rightarrow> w32 list" where
  "sha_block s ws = map2 (+) s (sha_rounds (zip sha_k (rev (schedule 48 (rev ws)))) s)"

definition be_word :: "bytes \<Rightarrow> w32" where
  "be_word bs = of_nat (value_of 256 (map of_char bs))"

fun chunks :: "nat \<Rightarrow> 'a list \<Rightarrow> 'a list list" where
  "chunks n [] = []"
| "chunks n (x # xs) = (if n = 0 then [] else (x # take (n - 1) xs) # chunks n (drop (n - 1) xs))"

definition be_bytes :: "nat \<Rightarrow> nat \<Rightarrow> bytes" where
  "be_bytes n v = map (\<lambda>i. char_of (v div 256 ^ i)) (rev [0..<n])"

definition sha_pad :: "bytes \<Rightarrow> bytes" where
  "sha_pad m = m @ char_of (128::nat) # replicate ((119 - length m mod 64) mod 64) nul @
    be_bytes 8 (8 * length m)"

definition sha256_state :: "bytes \<Rightarrow> w32 list" where
  "sha256_state m =
    foldl sha_block sha_init (map (map be_word) (map (chunks 4) (chunks 64 (sha_pad m))))"

text \<open>\<open>hex.EncodeToString\<close>: two lower-case digits for each byte.\<close>

definition hex_bytes :: "bytes \<Rightarrow> string" where
  "hex_bytes bs = concat (map (\<lambda>c. let n = of_char c in [lower_digit (n div 16), lower_digit (n mod 16)]) bs)"

definition sha256_hex :: "bytes \<Rightarrow> string" where
  "sha256_hex m = hex_bytes (concat (map (\<lambda>w. be_bytes 4 (unat w)) (sha256_state m)))"

text \<open>The padded message is a whole number of blocks, and the digest has 64 digits.\<close>

lemma pad_amount:
  assumes "(r::nat) < 64"
  shows "(r + 1 + (119 - r) mod 64 + 8) mod 64 = 0"
proof (cases "r \<le> 55")
  case True
  then have "119 - r = (55 - r) + 64" by arith
  then have "(119 - r) mod 64 = (55 - r) mod 64" by (simp only: mod_add_self2)
  also have "\<dots> = 55 - r" by (rule mod_less) arith
  finally have "r + 1 + (119 - r) mod 64 + 8 = 64" using True by arith
  then show ?thesis by (simp only: mod_self)
next
  case False
  then have "(119 - r) mod 64 = 119 - r" by (intro mod_less) arith
  then have "r + 1 + (119 - r) mod 64 + 8 = 128" using assms by arith
  then show ?thesis by (simp only:) simp
qed

lemma length_sha_pad: "64 dvd length (sha_pad m)"
proof -
  have "(length m mod 64 + (1 + (119 - length m mod 64) mod 64 + 8)) mod 64 = 0"
    using pad_amount [of "length m mod 64"] by (simp add: ac_simps)
  then have "(length m + (1 + (119 - length m mod 64) mod 64 + 8)) mod 64 = 0"
    by (simp only: mod_add_left_eq)
  moreover have "length (sha_pad m) = length m + (1 + (119 - length m mod 64) mod 64 + 8)"
    by (simp add: sha_pad_def be_bytes_def)
  ultimately show ?thesis by (simp only: dvd_eq_mod_eq_0)
qed

lemma length_sha_rounds: "length (sha_rounds kws s) = length s"
  by (induction kws s rule: sha_rounds.induct) (auto simp: Let_def split: list.splits)

lemma length_sha_block: "length (sha_block s ws) = length s"
  by (simp add: sha_block_def length_sha_rounds)

lemma length_sha256_state: "length (sha256_state m) = 8"
proof -
  have "length (foldl sha_block s bs) = length s" for s bs
    by (induction bs arbitrary: s) (simp_all add: length_sha_block)
  then show ?thesis by (simp add: sha256_state_def sha_init_def)
qed

lemma length_sha256_hex: "length (sha256_hex m) = 64"
proof -
  have hx: "length (hex_bytes bs) = 2 * length bs" for bs
    by (induction bs) (simp_all add: hex_bytes_def Let_def)
  have "length (concat (map (\<lambda>w. be_bytes 4 (unat w)) ws)) = 4 * length ws" for ws :: "w32 list"
    by (induction ws) (simp_all add: be_bytes_def)
  then show ?thesis by (simp add: sha256_hex_def hx length_sha256_state)
qed

end
