(* ===== verification/Artifacts.thy ===== *)
theory Artifacts
  imports Os_World Sha256 Go_Path
begin

text \<open>
  The pinned artifacts of \<open>boot_linux.go\<close>: the tables, the cache, the download and the
  extraction from a tarball. Errors are values; a downloaded file keeps its temporary name
  until its digest has been compared.
\<close>

section \<open>The tables\<close>

record artifact =
  art_url :: string
  art_sha256 :: string
  art_member :: string

definition firecrackerVersion :: string where "firecrackerVersion = ''v1.17.0''"

definition release_url :: string where
  "release_url = ''https://github.com/firecracker-microvm/firecracker/releases/download/v1.17.0/''"

definition ci_url :: string where
  "ci_url = ''https://s3.amazonaws.com/spec.ccfc.min/firecracker-ci/v1.13/''"

definition firecrackerArtifacts :: "string \<Rightarrow> artifact option" where
  "firecrackerArtifacts arch =
    (if arch = ''amd64'' then Some
       \<lparr>art_url = release_url @ ''firecracker-v1.17.0-x86_64.tgz'',
        art_sha256 = ''06094a1108ae9e82aa4c23a775aa92758f53f1175d422270d9d6162cb9ade558'',
        art_member = ''release-v1.17.0-x86_64/firecracker-v1.17.0-x86_64''\<rparr>
     else if arch = ''arm64'' then Some
       \<lparr>art_url = release_url @ ''firecracker-v1.17.0-aarch64.tgz'',
        art_sha256 = ''e351ebe4f7a16b5873bbd51005d2e6767103cff4d5ebc829df2d3f95a93e2256'',
        art_member = ''release-v1.17.0-aarch64/firecracker-v1.17.0-aarch64''\<rparr>
     else None)"

text \<open>A lookup of a missing architecture gives the zero value.\<close>

definition guestKernelArtifacts :: "string \<Rightarrow> artifact" where
  "guestKernelArtifacts arch =
    (if arch = ''amd64'' then
       \<lparr>art_url = ci_url @ ''x86_64/vmlinux-6.1.141'',
        art_sha256 = ''b36a4a1b10f33b9cfdcde3d1a787d9c090556a3edb211cd06d1f3f9a6c7e8724'',
        art_member = []\<rparr>
     else if arch = ''arm64'' then
       \<lparr>art_url = ci_url @ ''aarch64/vmlinux-6.1.141'',
        art_sha256 = ''69aa3308219ec1a070bc9a8e7f80c3b34056fed8ae05efb44e55f73b31adde44'',
        art_member = []\<rparr>
     else \<lparr>art_url = [], art_sha256 = [], art_member = []\<rparr>)"

section \<open>Files\<close>

definition go_create :: "env \<Rightarrow> string \<Rightarrow> os_error option go" where
  "go_create E p = effect (EvCreate p) (\<lambda>h. os_create E h p)"

definition go_write :: "env \<Rightarrow> string \<Rightarrow> bytes \<Rightarrow> os_error option go" where
  "go_write E p c = effect (EvWrite p c) (\<lambda>h. os_write E h p c)"

definition go_rename :: "env \<Rightarrow> string \<Rightarrow> string \<Rightarrow> os_error option go" where
  "go_rename E p q = effect (EvRename p q) (\<lambda>h. os_rename E h p q)"

definition go_mkdir :: "env \<Rightarrow> string \<Rightarrow> os_error option go" where
  "go_mkdir E p = effect (EvMkdir p) (\<lambda>h. os_mkdir E h p)"

definition go_http :: "env \<Rightarrow> string \<Rightarrow> (os_error + http_response) go" where
  "go_http E url = effect (EvHttpGet url) (\<lambda>h. os_http E h url)"

abbreviation go_remove :: "string \<Rightarrow> unit go" where "go_remove p \<equiv> emit (EvRemove p)"

definition errorf :: "string \<Rightarrow> os_error" where
  "errorf s = OsErr 0 s"

definition fileHasDigest :: "env \<Rightarrow> string \<Rightarrow> string \<Rightarrow> (os_error + bool) go" where
  "fileHasDigest E path want =
    with_defer (go_open E path False) go_close (\<lambda>e. return (Inl e))
      (\<lambda>fd. do {
         (c, e) \<leftarrow> go_read E path fd;
         return (case e of Some e \<Rightarrow> Inl e | None \<Rightarrow> Inr (sha256_hex c = want)) })"

text \<open>The loop over the members of the archive: the first one of the name is copied out.\<close>

fun copy_member ::
    "env \<Rightarrow> string \<Rightarrow> string \<Rightarrow> string \<Rightarrow> (string \<times> bytes \<times> os_error option) list \<Rightarrow>
      os_error option \<Rightarrow> (os_error + string) go" where
  "copy_member E archive member dest [] end =
    return (Inl (case end of Some e \<Rightarrow> e | None \<Rightarrow> errorf (member @ '' not found in '' @ archive)))"
| "copy_member E archive member dest ((nm, content, cut_short) # ms) end =
    (if nm \<noteq> member then copy_member E archive member dest ms end
     else unless_error (go_create E dest) (\<lambda>e. return (Inl e)) (do {
       w \<leftarrow> go_write E dest content;
       return (case w of Some e \<Rightarrow> Inl e
         | None \<Rightarrow> (case cut_short of Some e \<Rightarrow> Inl e | None \<Rightarrow> Inr dest)) }))"

definition extractFromTarGz :: "env \<Rightarrow> string \<Rightarrow> string \<Rightarrow> string \<Rightarrow> (os_error + string) go" where
  "extractFromTarGz E archive member dest =
    with_defer (go_open E archive False) go_close (\<lambda>e. return (Inl e))
      (\<lambda>fd. do {
         c \<leftarrow> go_read E archive fd;
         case os_untar E c of Inl e \<Rightarrow> return (Inl e)
         | Inr (members, end) \<Rightarrow> copy_member E archive member dest members end })"

section \<open>Resolving an artifact\<close>

definition mismatch :: "artifact \<Rightarrow> string \<Rightarrow> os_error" where
  "mismatch a got = errorf (''checksum mismatch for '' @ art_url a @ '':'' @ newline #
     ''  want '' @ art_sha256 a @ newline # ''  got  '' @ got)"

text \<open>The body is complete under its temporary name: compare the digest, then give it its name.\<close>

definition install :: "env \<Rightarrow> string \<Rightarrow> string \<Rightarrow> artifact \<Rightarrow> bytes \<Rightarrow> (os_error + string) go" where
  "install E tmp dest a body =
    (let got = sha256_hex body in
     if got \<noteq> art_sha256 a then do {
       go_remove tmp;
       return (Inl (mismatch a got)) }
     else if art_member a \<noteq> [] then do {
       extracted \<leftarrow> extractFromTarGz E tmp (art_member a) dest;
       go_remove tmp;
       return extracted }
     else unless_error (go_rename E tmp dest) (\<lambda>e. return (Inl e)) (return (Inr dest)))"

definition download :: "env \<Rightarrow> string \<Rightarrow> artifact \<Rightarrow> (os_error + string) go" where
  "download E dest a = do {
     emit (EvStderr (''fetching '' @ art_url a @ '' ...'' @ [newline]));
     resp \<leftarrow> go_http E (art_url a);
     case resp of Inl e \<Rightarrow> return (Inl e)
     | Inr resp \<Rightarrow>
         if hr_code resp \<noteq> 200 then
           return (Inl (errorf (''GET '' @ art_url a @ '': '' @ hr_status resp)))
         else (let tmp = dest @ ''.partial'' in
           unless_error (go_create E tmp) (\<lambda>e. return (Inl e)) (do {
             w \<leftarrow> go_write E tmp (hr_body resp);
             case (case w of Some e \<Rightarrow> Some e | None \<Rightarrow> hr_error resp) of
               Some e \<Rightarrow> do { go_remove tmp; return (Inl e) }
             | None \<Rightarrow> install E tmp dest a (hr_body resp) })) }"

definition resolveArtifact :: "env \<Rightarrow> string \<Rightarrow> string \<Rightarrow> artifact \<Rightarrow> (os_error + string) go" where
  "resolveArtifact E cacheDir name a =
    (let dest = path_join cacheDir name in do {
       cached \<leftarrow> fileHasDigest E dest (art_sha256 a);
       if cached = Inr True then return (Inr dest)
       else if fl_offline E then
         return (Inl (errorf (name @ '' not in cache at '' @ dest @
           '' and -offline is set; supply it with a flag'')))
       else unless_error (go_mkdir E cacheDir) (\<lambda>e. return (Inl e)) (download E dest a) })"

end
