(* ===== verification/Effects.thy ===== *)
theory Effects
  imports Artifacts
begin

text \<open>
  Which events a computation of the boot stage can cause: a second instance of
  \<open>step_relation\<close>, for a class of allowed events. The class of an offline run has no downloads.
\<close>

definition emits_rel :: "(event \<Rightarrow> bool) \<Rightarrow> world \<Rightarrow> world \<Rightarrow> bool" where
  "emits_rel ok w w' \<longleftrightarrow> (\<exists>evs. list_all ok evs \<and> w_trace w' = w_trace w @ evs)"

interpretation em: step_relation "emits_rel ok" for ok
proof
  show "emits_rel ok w w" for w
    unfolding emits_rel_def by (auto intro: exI [of _ "[]"])
  show "emits_rel ok w w''" if a: "emits_rel ok w w'" and b: "emits_rel ok w' w''" for w w' w''
  proof -
    from a obtain evs where "list_all ok evs" "w_trace w' = w_trace w @ evs"
      by (auto simp: emits_rel_def)
    moreover from b obtain evs' where "list_all ok evs'" "w_trace w'' = w_trace w' @ evs'"
      by (auto simp: emits_rel_def)
    ultimately show ?thesis unfolding emits_rel_def by (intro exI [of _ "evs @ evs'"]) simp_all
  qed
qed

abbreviation emits :: "(event \<Rightarrow> bool) \<Rightarrow> 'a go \<Rightarrow> bool" where
  "emits ok m \<equiv> state_io_rel (emits_rel ok) m"

named_theorems emits_intros \<open>the events of the operations\<close>

lemma emits_emit [emits_intros]: "ok ev \<Longrightarrow> emits ok (emit ev)"
  by (auto simp: state_io_rel_exec emits_rel_def)

lemmas [emits_intros] = em.keeps_flow

lemma emits_Add [emits_intros]: "(\<And>s. ok (EvStderr s)) \<Longrightarrow> emits ok (Add E x)"
  unfolding Add_def
  by (intro em.keeps emits_emit) (simp_all add: state_io_rel_exec emits_rel_def)

lemma emits_report [emits_intros]:
  assumes "\<And>s. ok (EvStderr s)"
  shows "emits ok (Addf E i t st d)" "emits ok (report_Fail E i t d r)"
    "emits ok (report_Warn E i t d r)" "emits ok (report_Blocked E i t d r)"
  unfolding Addf_def report_Fail_def report_Warn_def report_Blocked_def by (intro emits_Add assms)+

lemma emits_ReadFile [emits_intros]:
  assumes "\<And>p fd. ok (EvOpen p fd)" and "\<And>fd. ok (EvRead fd)" and "\<And>fd. ok (EvClose fd)"
  shows "emits ok (ReadFile E p)"
  unfolding ReadFile_def by (intro em.keeps_flow em.keeps emits_emit assms)

lemmas [emits_intros] = em.keeps

lemma emitsD:
  assumes "emits ok m"
  obtains evs where "list_all ok evs" "w_trace (exec m w) = w_trace w @ evs"
  using assms by (auto simp: state_io_rel_exec emits_rel_def)

section \<open>Which results\<close>

text \<open>A third instance: a computation only appends results, and they satisfy a predicate.\<close>

definition adds_rel :: "(result \<Rightarrow> bool) \<Rightarrow> world \<Rightarrow> world \<Rightarrow> bool" where
  "adds_rel P w w' \<longleftrightarrow> (\<exists>rs. list_all P rs \<and> w_report w' = (w_report w)\<lparr>rep_Results := results w @ rs\<rparr>)"

interpretation ad: step_relation "adds_rel P" for P
proof
  show "adds_rel P w w" for w
    unfolding adds_rel_def by (auto intro: exI [of _ "[]"])
  show "adds_rel P w w''" if a: "adds_rel P w w'" and b: "adds_rel P w' w''" for w w' w''
  proof -
    from a obtain rs where "list_all P rs" "w_report w' = (w_report w)\<lparr>rep_Results := results w @ rs\<rparr>"
      by (auto simp: adds_rel_def)
    moreover from b obtain rs' where "list_all P rs'"
        "w_report w'' = (w_report w')\<lparr>rep_Results := results w' @ rs'\<rparr>"
      by (auto simp: adds_rel_def)
    ultimately show ?thesis unfolding adds_rel_def by (intro exI [of _ "rs @ rs'"]) simp_all
  qed
qed

abbreviation adds :: "(result \<Rightarrow> bool) \<Rightarrow> 'a go \<Rightarrow> bool" where
  "adds P m \<equiv> state_io_rel (adds_rel P) m"

named_theorems adds_intros \<open>the results of the operations\<close>

lemma adds_emit [adds_intros]: "adds P (emit ev)"
  by (auto simp: state_io_rel_exec adds_rel_def intro: exI [of _ "[]"])

lemma adds_Add [adds_intros]: "P x \<Longrightarrow> adds P (Add E x)"
  by (auto simp: state_io_rel_exec adds_rel_def Add_def append_result_def intro: exI [of _ "[x]"])

lemma adds_report [adds_intros]:
  "P (mk_result i t st d []) \<Longrightarrow> adds P (Addf E i t st d)"
  "P (mk_result i t Fail d r) \<Longrightarrow> adds P (report_Fail E i t d r)"
  "P (mk_result i t Warn d r) \<Longrightarrow> adds P (report_Warn E i t d r)"
  "P (mk_result i t Blocked d r) \<Longrightarrow> adds P (report_Blocked E i t d r)"
  unfolding Addf_def report_Fail_def report_Warn_def report_Blocked_def by (erule adds_Add)+

lemmas [adds_intros] = ad.keeps_flow ad.keeps

lemma adds_ReadFile [adds_intros]: "adds P (ReadFile E p)"
  unfolding ReadFile_def by (intro adds_intros)

text \<open>A computation that adds no result leaves the report alone.\<close>

lemma adds_none: "adds (\<lambda>x. False) m \<Longrightarrow> w_report (exec m w) = w_report w"
proof -
  assume "adds (\<lambda>x. False) m"
  then obtain rs where "list_all (\<lambda>x. False) rs" "w_report (exec m w) = (w_report w)\<lparr>rep_Results := results w @ rs\<rparr>"
    by (auto simp: state_io_rel_exec adds_rel_def)
  then show ?thesis by (cases rs) simp_all
qed

section \<open>Offline\<close>

fun is_download :: "event \<Rightarrow> bool" where
  "is_download (EvHttpGet url) = True"
| "is_download _ = False"

lemma emits_copy_member:
  "(\<And>p. ok (EvCreate p)) \<Longrightarrow> (\<And>p c. ok (EvWrite p c)) \<Longrightarrow>
    emits ok (copy_member E archive member dest ms end)"
proof (induction ms)
  case (Cons m ms)
  obtain nm content cut_short where "m = (nm, content, cut_short)" by (metis prod_cases3)
  with Cons show ?case by (simp add: go_create_def go_write_def) (intro conjI impI emits_intros; simp)
qed (simp, intro emits_intros)

lemma emits_fileHasDigest [emits_intros]:
  assumes "\<And>p fd. ok (EvOpen p fd)" and "\<And>fd. ok (EvRead fd)" and "\<And>fd. ok (EvClose fd)"
  shows "emits ok (fileHasDigest E p d)"
  unfolding fileHasDigest_def by (intro emits_intros assms)

lemma resolve_offline:
  assumes "fl_offline E"
  shows "emits (\<lambda>ev. \<not> is_download ev) (resolveArtifact E cacheDir name a)"
proof -
  have "resolveArtifact E cacheDir name a = (let dest = path_join cacheDir name in do {
       cached \<leftarrow> fileHasDigest E dest (art_sha256 a);
       if cached = Inr True then return (Inr dest)
       else return (Inl (errorf (name @ '' not in cache at '' @ dest @
           '' and -offline is set; supply it with a flag''))) })"
    using assms by (simp add: resolveArtifact_def cong: if_cong)
  also have "emits (\<lambda>ev. \<not> is_download ev) \<dots>"
    unfolding Let_def by (intro emits_intros) simp_all
  finally show ?thesis .
qed

section \<open>What was verified\<close>

text \<open>
  A path that is returned was in the cache with the pinned digest, or its content was
  downloaded whole and the download had the pinned digest.
\<close>

definition cached_at :: "env \<Rightarrow> hist \<Rightarrow> string \<Rightarrow> string \<Rightarrow> bool" where
  "cached_at E h path want \<longleftrightarrow> (case os_open E h path False of Inl e \<Rightarrow> False
     | Inr fd \<Rightarrow> (case os_read E (h @ [EvOpen path fd]) path of
         (c, Some e) \<Rightarrow> False | (c, None) \<Rightarrow> sha256_hex c = want))"

lemma fileHasDigest_result:
  "result_of (fileHasDigest E path want) w = Inr True \<longleftrightarrow> cached_at E (w_trace w) path want"
  by (auto simp: fileHasDigest_def cached_at_def with_defer_def go_open_def go_read_def
      split: sum.splits option.splits prod.splits)

definition verified_download :: "env \<Rightarrow> artifact \<Rightarrow> bool" where
  "verified_download E a \<longleftrightarrow> (\<exists>h resp. os_http E h (art_url a) = Inr resp \<and> hr_code resp = 200 \<and>
     hr_error resp = None \<and> sha256_hex (hr_body resp) = art_sha256 a)"

lemma copy_member_result:
  "result_of (copy_member E archive member dest ms end) w = Inr p \<Longrightarrow> p = dest"
proof (induction ms arbitrary: w)
  case (Cons m ms)
  obtain nm content cut_short where m: "m = (nm, content, cut_short)" by (metis prod_cases3)
  show ?case
  proof (cases "nm = member")
    case True
    with Cons.prems m show ?thesis
      by (auto simp: exec_unless_error go_create_def go_write_def split: option.splits)
  qed (use Cons m in simp)
qed (simp split: option.splits)

lemma install_result:
  "result_of (install E tmp dest a body) w = Inr p \<Longrightarrow>
    p = dest \<and> sha256_hex body = art_sha256 a"
  by (auto simp: install_def Let_def exec_unless_error go_rename_def extractFromTarGz_def
      with_defer_def dest!: copy_member_result split: if_splits option.splits sum.splits prod.splits)

lemma download_result:
  assumes "result_of (download E dest a) w = Inr p"
  shows "p = dest \<and> verified_download E a"
proof -
  let ?w = "w\<lparr>w_trace := w_trace w @ [EvStderr (''fetching '' @ art_url a @ '' ...'' @ [newline])]\<rparr>"
  from assms obtain resp where resp: "os_http E (w_trace ?w) (art_url a) = Inr resp" "hr_code resp = 200"
    by (auto simp: download_def go_http_def Let_def split: sum.splits if_splits)
  with assms have "hr_error resp = None" "\<exists>w'. result_of (install E (dest @ ''.partial'') dest a (hr_body resp)) w' = Inr p"
    by (auto simp: download_def go_http_def Let_def exec_unless_error split: option.splits)
  then show ?thesis using install_result resp unfolding verified_download_def by blast
qed

lemma resolveArtifact_result:
  assumes "result_of (resolveArtifact E cacheDir name a) w = Inr p"
  shows "p = path_join cacheDir name \<and>
    (cached_at E (w_trace w) p (art_sha256 a) \<or> \<not> fl_offline E \<and> verified_download E a)"
proof (cases "result_of (fileHasDigest E (path_join cacheDir name) (art_sha256 a)) w = Inr True")
  case True
  with assms show ?thesis by (auto simp: resolveArtifact_def Let_def fileHasDigest_result)
next
  case False
  with assms show ?thesis
    by (auto simp: resolveArtifact_def Let_def exec_unless_error dest: download_result
        split: if_splits option.splits)
qed

text \<open>Offline, the cache decides, and it decides by the pinned digest of the download.\<close>

lemma resolveArtifact_offline:
  assumes "fl_offline E"
  shows "result_of (resolveArtifact E cacheDir name a) w = Inr (path_join cacheDir name) \<longleftrightarrow>
    cached_at E (w_trace w) (path_join cacheDir name) (art_sha256 a)"
  using assms fileHasDigest_result [of E "path_join cacheDir name" "art_sha256 a" w]
  by (auto simp: resolveArtifact_def Let_def)

end
