(* ===== verification/Json_Roundtrip.thy ===== *)
theory Json_Roundtrip
  imports Json
begin

text \<open>
  What the encoder writes, the parser reads back: strings that are valid UTF-8, numbers and
  nested values, in the compact and the indented layout.
\<close>

section \<open>Strings\<close>

function valid_utf8 :: "string \<Rightarrow> bool" where
  "valid_utf8 s =
    (if s = [] then True
     else if utf8_len s = 0 then False else valid_utf8 (drop (utf8_len s) s))"
  by pat_completeness auto
termination by (relation "measure length") (auto simp: diff_less)

declare valid_utf8.simps [simp del]

lemma utf8_len_ascii: "byte c < 0x80 \<Longrightarrow> utf8_len (c # cs) = 1"
  by (simp add: utf8_len_def utf8_need_def Let_def)

lemma valid_utf8_ascii: "list_all (\<lambda>c. byte c < 0x80) s \<Longrightarrow> valid_utf8 s"
  by (induction s) (subst valid_utf8.simps, simp add: utf8_len_ascii)+

lemma hex4_digits:
  assumes "r < 65536"
  shows "hex4 (map (\<lambda>i. lower_digit (r div 16 ^ i mod 16)) [3, 2, 1, 0] @ t) = Some r"
proof -
  have d: "hex_digit_value (lower_digit (x mod 16)) = Some (x mod 16)" for x
    by (simp add: hex_digit_value_def of_char_lower_digit Let_def)
  have small: "r div 4096 < 16" using assms by (simp add: div_less_iff_less_mult)
  have "r = 16 * (r div 16) + r mod 16" by simp
  moreover have "r div 16 = 16 * (r div 256) + r div 16 mod 16"
    using div_mult2_eq [of r 16 16] by simp
  moreover have "r div 256 = 16 * (r div 4096) + r div 256 mod 16"
    using div_mult2_eq [of r 256 16] by simp
  moreover have "value_of 16 [a, b, c, e] = 4096 * a + 256 * b + 16 * c + e" for a b c e
    by (simp add: value_of_def)
  ultimately have "value_of 16 [r div 4096, r div 256 mod 16, r div 16 mod 16, r mod 16] = r"
    by (simp only:)
  then have "value_of 16 [r div 4096 mod 16, r div 256 mod 16, r div 16 mod 16, r mod 16] = r"
    using small by simp
  then show ?thesis by (simp add: hex4_def read_hex_def d)
qed

lemma separators:
  "utf8_encode 0x2028 = [CHR 0xE2, CHR 0x80, CHR 0xA8]"
  "utf8_encode 0x2029 = [CHR 0xE2, CHR 0x80, CHR 0xA9]"
  by (simp_all add: utf8_encode_def char_of_eq_iff)

lemma utf8_len_separator:
  "r0 = 0x2028 \<or> r0 = 0x2029 \<Longrightarrow> utf8_len (utf8_encode r0 @ t) = 3"
  by (elim disjE)
    (simp_all add: separators utf8_len_def utf8_need_def second_ok_def is_cont_def Let_def)

lemma string_unit_escape:
  assumes "r < 65536" and "\<not> is_surrogate r"
  shows "string_unit (unicode_escape r @ t) = Some (utf8_encode r, 6)"
  using hex4_digits [OF assms(1), of t] assms(2)
  by (simp add: string_unit_def unicode_escape_def)

lemma string_unit_ascii:
  assumes "byte c < 0x80"
  shows "string_unit (escape_ascii c @ t) = Some ([c], length (escape_ascii c))"
proof (cases "byte c < 0x20 \<or> c = CHR ''<'' \<or> c = CHR ''>'' \<or> c = CHR ''&''")
  case True
  have "\<not> is_surrogate (byte c)" using assms by (simp add: is_surrogate_def)
  then have u: "string_unit (unicode_escape (byte c) @ t) = Some ([c], 6)"
    using string_unit_escape [of "byte c" t] assms by (simp add: utf8_encode_def)
  with True show ?thesis
    by (auto simp: escape_ascii_def string_unit_def unescape_def unicode_escape_def)
next
  case False
  with assms show ?thesis by (auto simp: escape_ascii_def string_unit_def unescape_def)
qed

lemma utf8_len_take:
  assumes "utf8_len s = n" and "0 < n"
  shows "utf8_len (take n s @ t) = n"
proof (cases s)
  case Nil
  with assms show ?thesis by (simp add: utf8_len_def)
next
  case (Cons c cs)
  show ?thesis
  proof (cases "n \<le> 1")
    case True
    with assms(2) have "n = 1" by simp
    moreover from this assms(1) Cons have "utf8_need (byte c) = 1"
      by (auto simp: utf8_len_def Let_def split: if_splits)
    ultimately show ?thesis using Cons by (simp add: utf8_len_def)
  next
    case False
    then obtain k where n: "n = Suc (Suc k)" by (metis Suc_le_D not_less_eq_eq One_nat_def)
    from assms(1) Cons False obtain d ds where cs: "cs = d # ds" and k: "k \<le> length ds"
      and ok: "utf8_need (byte c) = n" "second_ok (byte c) (byte d)" "list_all is_cont (take k ds)"
      by (cases cs) (auto simp: utf8_len_def Let_def n split: if_splits)
    show ?thesis using Cons cs k ok n by (simp add: utf8_len_def Let_def)
  qed
qed

lemma string_unit_multi:
  assumes "utf8_len (c # cs) = n" and "0 < n" and "\<not> byte c < 0x80"
  shows "string_unit (take n (c # cs) @ t) = Some (take n (c # cs), n)"
proof -
  have "n \<le> length (c # cs)" using utf8_len_le [of "c # cs"] assms(1) by simp
  moreover obtain k where n: "n = Suc k" using assms(2) by (cases n) auto
  ultimately have take: "take n (take n (c # cs) @ t) = take n (c # cs)" by simp
  have "c \<noteq> backslash" using assms(3) by auto
  moreover have "utf8_len (c # take k cs @ t) = n"
    using utf8_len_take [OF assms(1,2), of t] n by simp
  ultimately show ?thesis using assms(3) take n by (simp add: string_unit_def)
qed

lemma parse_str_step:
  "string_unit (u @ r) = Some (t, length u) \<Longrightarrow> u \<noteq> [] \<Longrightarrow> hd u \<noteq> dquote \<Longrightarrow>
    parse_str (u @ r) = map_option (\<lambda>(v, q). (t @ v, q)) (parse_str r)"
  by (subst parse_str.simps) simp

lemma parse_str_escape:
  "valid_utf8 s \<Longrightarrow> parse_str (json_escape s @ dquote # r) = Some (s, r)"
proof (induction s rule: json_escape.induct)
  case (1 s)
  show ?case
  proof (cases s)
    case Nil
    then show ?thesis by (subst json_escape.simps, subst parse_str.simps) simp
  next
    case (Cons c cs)
    from "1.prems" Cons have pos: "0 < utf8_len s" and rest: "valid_utf8 (drop (utf8_len s) s)"
      by (subst (asm) valid_utf8.simps, simp split: if_splits)+
    let ?u = "\<lambda>r. unicode_escape r"
    show ?thesis
    proof (cases "byte c < 0x80")
      case True
      have "escape_ascii c \<noteq> []" "hd (escape_ascii c) \<noteq> dquote"
        by (auto simp: escape_ascii_def unicode_escape_def)
      from parse_str_step [OF string_unit_ascii [OF True] this] "1.IH"(1) [OF Cons True]
        rest True Cons
      show ?thesis by (subst json_escape.simps) (simp add: utf8_len_ascii)
    next
      case False
      show ?thesis
      proof (cases "take 3 s = line_sep \<or> take 3 s = para_sep")
        case True
        then obtain r0 :: nat where r0: "r0 = 0x2028 \<and> take 3 s = line_sep \<or> r0 = 0x2029 \<and> take 3 s = para_sep"
          by blast
        then have enc: "utf8_encode r0 = take 3 s" and s: "s = utf8_encode r0 @ drop 3 s"
          by (auto simp: line_sep_def para_sep_def) (metis append_take_drop_id)+
        have "utf8_len (utf8_encode r0 @ drop 3 s) = 3" using r0 by (intro utf8_len_separator) blast
        with s have len: "utf8_len s = 3" by simp
        have "string_unit (?u r0 @ json_escape (drop 3 s) @ dquote # r) = Some (take 3 s, length (?u r0))"
          using string_unit_escape [of r0] r0 enc by (auto simp: is_surrogate_def unicode_escape_def)
        moreover have "?u r0 \<noteq> []" "hd (?u r0) \<noteq> dquote" by (auto simp: unicode_escape_def)
        ultimately have "parse_str (?u r0 @ json_escape (drop 3 s) @ dquote # r) =
            map_option (\<lambda>(v, q). (take 3 s @ v, q)) (parse_str (json_escape (drop 3 s) @ dquote # r))"
          by (rule parse_str_step)
        moreover have "parse_str (json_escape (drop 3 s) @ dquote # r) = Some (drop 3 s, r)"
          using "1.IH"(3,4) [OF Cons False] pos rest len True by (cases "take 3 s = line_sep") auto
        ultimately have "parse_str (?u r0 @ json_escape (drop 3 s) @ dquote # r) = Some (s, r)"
          by simp
        then show ?thesis using r0 False pos Cons
          by (subst json_escape.simps) (auto simp: line_sep_def para_sep_def utf8_encode_def)
      next
        case sep: False
        let ?n = "utf8_len s"
        have "take ?n s \<noteq> []" "hd (take ?n s) \<noteq> dquote" using pos Cons False by (cases ?n; auto)+
        moreover have "length (take ?n s) = ?n" using utf8_len_le [of s] by simp
        ultimately have "parse_str (take ?n s @ json_escape (drop ?n s) @ dquote # r) = Some (s, r)"
          using parse_str_step [of "take ?n s" "json_escape (drop ?n s) @ dquote # r" "take ?n s"]
            string_unit_multi [of c cs ?n "json_escape (drop ?n s) @ dquote # r"]
            "1.IH"(5) [OF Cons False] sep pos rest Cons False by auto
        then show ?thesis using sep False pos Cons
          by (subst json_escape.simps) auto
      qed
    qed
  qed
qed

section \<open>Number literals\<close>

definition all_digits :: "string \<Rightarrow> bool" where
  "all_digits ds \<longleftrightarrow> ds \<noteq> [] \<and> list_all is_dec_digit ds"

text \<open>Integer part without a leading zero, a fraction and an exponent that may be empty.\<close>

definition int_text :: "string \<Rightarrow> bool" where
  "int_text i \<longleftrightarrow> all_digits i \<and> (hd i = CHR ''0'' \<longrightarrow> i = ''0'')"

definition frac_text :: "string \<Rightarrow> bool" where
  "frac_text f \<longleftrightarrow> f = [] \<or> hd f = CHR ''.'' \<and> all_digits (tl f)"

definition exp_text :: "string \<Rightarrow> bool" where
  "exp_text e \<longleftrightarrow> e = [] \<or>
    (\<exists>sg ds. e = CHR ''e'' # sg # ds \<and> (sg = CHR ''+'' \<or> sg = CHR ''-'') \<and> all_digits ds)"

definition sign_text :: "bool \<Rightarrow> string" where
  "sign_text neg = (if neg then ''-'' else [])"

definition num_end :: "string \<Rightarrow> bool" where
  "num_end r \<longleftrightarrow> r = [] \<or> \<not> is_dec_digit (hd r) \<and> hd r \<notin> {CHR ''.'', CHR ''e'', CHR ''E''}"

lemma digits_prefix_append:
  "list_all is_dec_digit ds \<Longrightarrow> r = [] \<or> \<not> is_dec_digit (hd r) \<Longrightarrow> digits_prefix (ds @ r) = (ds, r)"
  by (induction ds) (auto simp: digits_prefix_def takeWhile_eq_Nil_iff dropWhile_eq_self_iff)

lemma not_digit [simp]:
  "\<not> is_dec_digit CHR ''.''" "\<not> is_dec_digit CHR ''e''" "\<not> is_dec_digit CHR ''-''"
  "\<not> is_dec_digit CHR ''+''" "\<not> is_dec_digit CHR ''\"''" "\<not> is_dec_digit CHR ''[''"
  "\<not> is_dec_digit CHR ''{''" "\<not> is_dec_digit CHR '',''" "\<not> is_dec_digit CHR '']''"
  "\<not> is_dec_digit CHR ''}''" "\<not> is_dec_digit CHR '':''"
  by (simp_all add: is_dec_digit_iff)

lemma int_part_text:
  "int_text i \<Longrightarrow> r = [] \<or> \<not> is_dec_digit (hd r) \<Longrightarrow> int_part (i @ r) = Some (i, r)"
  by (auto simp: int_part_def int_text_def all_digits_def digits_prefix_append)

lemma frac_part_text:
  assumes "frac_text f" and "r = [] \<or> \<not> is_dec_digit (hd r) \<and> hd r \<noteq> CHR ''.''"
  shows "frac_part (f @ r) = Some (f, r)"
proof (cases f)
  case Nil
  with assms(2) show ?thesis by (auto simp: frac_part_def)
next
  case (Cons c ds)
  with assms have "digits_prefix (ds @ r) = (ds, r)"
    by (intro digits_prefix_append) (auto simp: frac_text_def all_digits_def)
  with assms(1) Cons show ?thesis by (simp add: frac_part_def frac_text_def all_digits_def)
qed

lemma exp_part_text:
  assumes "exp_text e" and "num_end r"
  shows "exp_part (e @ r) = Some (e, r)"
proof (cases "e = []")
  case True
  with assms(2) show ?thesis by (auto simp: exp_part_def num_end_def)
next
  case False
  with assms(1) obtain sg ds where e: "e = CHR ''e'' # sg # ds" "sg = CHR ''+'' \<or> sg = CHR ''-''"
    "all_digits ds" by (auto simp: exp_text_def)
  with assms(2) have "digits_prefix (ds @ r) = (ds, r)"
    by (intro digits_prefix_append) (auto simp: all_digits_def num_end_def)
  with e show ?thesis by (auto simp: exp_part_def Let_def all_digits_def)
qed

lemma frac_exp_start:
  assumes "frac_text f" and "exp_text e" and "num_end r"
  shows "e @ r = [] \<or> \<not> is_dec_digit (hd (e @ r)) \<and> hd (e @ r) \<noteq> CHR ''.''"
    and "f @ e @ r = [] \<or> \<not> is_dec_digit (hd (f @ e @ r))"
  using assms by (cases f; auto simp: frac_text_def exp_text_def num_end_def)+

lemma parse_num_text:
  assumes "int_text i" and "frac_text f" and "exp_text e" and "num_end r"
  shows "parse_num (sign_text neg @ i @ f @ e @ r) = Some (sign_text neg @ i @ f @ e, r)"
proof -
  have "i \<noteq> []" "hd i \<noteq> CHR ''-''" using assms(1) by (cases i; auto simp: int_text_def all_digits_def)+
  then show ?thesis
    using int_part_text [OF assms(1) frac_exp_start(2) [OF assms(2-4)]]
      frac_part_text [OF assms(2) frac_exp_start(1) [OF assms(2-4)]] exp_part_text [OF assms(3,4)]
    by (cases neg) (auto simp: parse_num_def sign_text_def Let_def)
qed

lemma num_value_text:
  assumes "int_text i" and "frac_text f" and "exp_text e"
  shows "num_value (sign_text neg @ i @ f @ e) =
    Some (neg, of_nat (digits_value (i @ tl f)) * exp10 (exp_value e - int (length (tl f))))"
proof -
  have e: "num_end []" by (simp add: num_end_def)
  have "i \<noteq> []" "hd i \<noteq> CHR ''-''" using assms(1) by (cases i; auto simp: int_text_def all_digits_def)+
  then show ?thesis
    using int_part_text [OF assms(1) frac_exp_start(2) [OF assms(2,3) e]]
      frac_part_text [OF assms(2) frac_exp_start(1) [OF assms(2,3) e]] exp_part_text [OF assms(3) e]
    by (cases neg) (auto simp: num_value_def sign_text_def Let_def)
qed

section \<open>Integers and floats\<close>

lemma dec_int_text: "int_text (dec n)"
proof (cases "n = 0")
  case True
  have "dec 0 = ''0''" by (simp add: dec_def lower_digit_def digits_of.simps char_of_eq_iff)
  with True show ?thesis using dec_digits [of n] by (simp add: int_text_def all_digits_def)
next
  case False
  then obtain d ds where d: "digits_of 10 n = d # ds" "d \<noteq> 0"
    using digits_of_head_nonzero [of 10 n] by (cases "digits_of 10 n") auto
  moreover have "d < 10" using digits_of_less [of 10 d n] d by simp
  ultimately have "byte (hd (dec n)) \<noteq> 48" using of_char_lower_digit [of d] by (simp add: dec_def)
  then have "hd (dec n) \<noteq> CHR ''0''" by auto
  then show ?thesis by (simp add: int_text_def all_digits_def)
qed

lemma dec_int_sign: "dec_int i = sign_text (i < 0) @ dec (nat \<bar>i\<bar>)"
  by (simp add: dec_int_def sign_text_def)

lemma exp10_add: "exp10 (a + b) = exp10 a * exp10 b"
proof -
  have p: "exp10 e = 10 powi e" for e
    by (simp add: exp10_def power_int_def field_simps)
  show ?thesis by (simp add: p power_int_add)
qed

lemma exp10_nat [simp]: "exp10 (int k) = 10 ^ k"
  by (simp add: exp10_def)

lemma digits_value_append:
  "digits_value (a @ b) = digits_value a * 10 ^ length b + digits_value b"
  by (simp add: digits_value_def value_of_append)

lemma digits_value_zeros [simp]: "digits_value (replicate k CHR ''0'') = 0"
  by (simp add: digits_value_def dec_digit_def)

lemma digits_value_dec [simp]: "digits_value (dec n) = n"
  by (simp add: digits_value_def)

lemma trim_right_char_split:
  "\<exists>k. s = trim_right_char c s @ replicate k c"
proof -
  have "rev s = takeWhile (\<lambda>x. x = c) (rev s) @ dropWhile (\<lambda>x. x = c) (rev s)" by simp
  then have "s = rev (dropWhile (\<lambda>x. x = c) (rev s)) @ rev (takeWhile (\<lambda>x. x = c) (rev s))"
    by (metis rev_append rev_rev_ident)
  moreover have "takeWhile (\<lambda>x. x = c) xs = replicate (length (takeWhile (\<lambda>x. x = c) xs)) c" for xs
    by (induction xs) simp_all
  ultimately show ?thesis unfolding trim_right_char_def by (metis rev_replicate)
qed

lemma trim_zeros_spec:
  assumes "0 < n" and "trim_zeros (n, e) = (ds, dp)"
  shows "all_digits ds \<and> hd ds \<noteq> CHR ''0'' \<and>
    of_nat n * exp10 e = of_nat (digits_value ds) * exp10 (dp - int (length ds))"
proof -
  have ds: "ds = trim_right_char CHR ''0'' (dec n)" and dp: "dp = int (length (dec n)) + e"
    using assms(2) by (auto simp: trim_zeros_def Let_def)
  obtain k where k: "dec n = ds @ replicate k CHR ''0''"
    unfolding ds using trim_right_char_split by blast
  have h: "hd (dec n) \<noteq> CHR ''0''"
  proof
    assume "hd (dec n) = CHR ''0''"
    with dec_int_text [of n] have "dec n = ''0''" by (simp add: int_text_def)
    then have "digits_value (dec n) = 0" using digits_value_zeros [of 1] by simp
    with assms(1) show False by simp
  qed
  have "ds \<noteq> []"
  proof
    assume "ds = []"
    with k have "dec n = replicate k CHR ''0''" by simp
    with h dec_nonempty [of n] show False by (cases k) auto
  qed
  moreover have "list_all is_dec_digit ds" using dec_digits [of n] k by simp
  moreover have "hd ds \<noteq> CHR ''0''" using h k \<open>ds \<noteq> []\<close> by simp
  moreover have "n = digits_value ds * 10 ^ k"
    using digits_value_dec [of n] k by (simp add: digits_value_append)
  moreover have "exp10 (dp - int (length ds)) = 10 ^ k * exp10 e"
    using exp10_add [of "int k" e] dp k by (simp add: add.commute)
  ultimately show ?thesis by (simp add: all_digits_def)
qed

text \<open>Both layouts are number literals with the value of the digits.\<close>

definition denotes :: "string \<Rightarrow> rat \<Rightarrow> bool" where
  "denotes s q \<longleftrightarrow> (\<exists>i f e. s = i @ f @ e \<and> int_text i \<and> frac_text f \<and> exp_text e \<and>
    of_nat (digits_value (i @ tl f)) * exp10 (exp_value e - int (length (tl f))) = q)"

lemma denotesI:
  "int_text i \<Longrightarrow> frac_text f \<Longrightarrow> exp_text e \<Longrightarrow>
    of_nat (digits_value (i @ tl f)) * exp10 (exp_value e - int (length (tl f))) = q \<Longrightarrow>
    s = i @ f @ e \<Longrightarrow> denotes s q"
  unfolding denotes_def by blast

lemma exp_text_Nil [simp]: "exp_text []" "exp_value [] = 0" "frac_text []"
  by (simp_all add: exp_text_def exp_value_def frac_text_def)

lemma zero_text [simp]: "int_text ''0''"
  by (simp add: int_text_def all_digits_def is_dec_digit_iff)

lemma layout_f_denotes:
  assumes "all_digits ds" and "hd ds \<noteq> CHR ''0''"
  shows "denotes (layout_f (ds, dp)) (of_nat (digits_value ds) * exp10 (dp - int (length ds)))"
proof -
  have nz: "ds \<noteq> []" "list_all is_dec_digit ds" using assms(1) by (auto simp: all_digits_def)
  have dig0: "is_dec_digit CHR ''0''" by (simp add: is_dec_digit_iff)
  consider "dp \<le> 0" | "0 < dp" "dp < int (length ds)" | "int (length ds) \<le> dp" "0 < dp" by linarith
  then show ?thesis
  proof cases
    case 1
    let ?t = "replicate (nat (- dp)) CHR ''0'' @ ds"
    have "frac_text (''.'' @ ?t)" using nz dig0 by (auto simp: frac_text_def all_digits_def list_all_iff)
    moreover have "digits_value (''0'' @ ?t) = digits_value ds"
    proof -
      have "''0'' @ ?t = replicate (Suc (nat (- dp))) CHR ''0'' @ ds" by simp
      then show ?thesis unfolding digits_value_append [of "replicate k c" for k c]
        by (simp only: digits_value_append digits_value_zeros)
    qed
    moreover have "\<not> int (length ds) \<le> dp" using 1 nz by (cases ds) auto
    moreover have "- int (length ?t) = dp - int (length ds)" using 1 by simp
    ultimately show ?thesis using 1
      by (intro denotesI [of "''0''" "''.'' @ ?t" "[]"]) (simp_all add: layout_f_def)
  next
    case 2
    let ?i = "take (nat dp) ds" and ?t = "drop (nat dp) ds"
    have "int_text ?i" using 2 assms nz
      by (cases ds; cases "nat dp") (auto simp: int_text_def all_digits_def list_all_iff dest: in_set_takeD)
    moreover have "frac_text (''.'' @ ?t)" using 2 nz
      by (auto simp: frac_text_def all_digits_def list_all_iff dest: in_set_dropD)
    ultimately show ?thesis using 2
      by (intro denotesI [of ?i "''.'' @ ?t" "[]"]) (auto simp: layout_f_def)
  next
    case 3
    let ?i = "ds @ replicate (nat dp - length ds) CHR ''0''"
    have "int_text ?i" using assms nz dig0 by (auto simp: int_text_def all_digits_def list_all_iff)
    moreover have "exp10 (dp - int (length ds)) = 10 ^ (nat dp - length ds)"
      using 3 by (simp add: exp10_def nat_diff_distrib)
    ultimately show ?thesis using 3
      by (intro denotesI [of ?i "[]" "[]"]) (auto simp: layout_f_def digits_value_append exp10_def)
  qed
qed

lemma layout_e_denotes:
  assumes "all_digits ds" and "hd ds \<noteq> CHR ''0''"
  shows "denotes (layout_e (ds, dp)) (of_nat (digits_value ds) * exp10 (dp - int (length ds)))"
proof -
  obtain c cs where ds: "ds = c # cs" using assms by (cases ds) (auto simp: all_digits_def)
  let ?f = "if cs = [] then [] else ''.'' @ cs"
  let ?e = "''e'' @ (if dp - 1 < 0 then ''-'' @ dec (nat (1 - dp))
      else ''+'' @ pad_left 2 CHR ''0'' (dec (nat (dp - 1))))"
  have pad: "all_digits (pad_left 2 CHR ''0'' (dec n))" "digits_value (pad_left 2 CHR ''0'' (dec n)) = n" for n
    using dec_digits [of n]
    by (auto simp: pad_left_def all_digits_def digits_value_append list_all_iff is_dec_digit_iff)
  have "int_text [c]" using assms ds by (simp add: int_text_def all_digits_def)
  moreover have "frac_text ?f" using assms ds by (simp add: frac_text_def all_digits_def)
  moreover have "exp_text ?e" using pad(1) by (simp add: exp_text_def all_digits_def)
  moreover have "exp_value ?e = dp - 1" using pad(2) by (simp add: exp_value_def)
  moreover have "tl ?f = cs" by simp
  ultimately show ?thesis using ds
    by (intro denotesI [of "[c]" ?f ?e]) (simp_all add: layout_e_def diff_diff_eq)
qed

text \<open>A float that is encoded is read back as the same float, the sign of zero included.\<close>

lemma round_mag_sign: "round_mag False q = Fin False m \<Longrightarrow> round_mag neg q = Fin neg m"
  by (auto simp: round_mag_def Let_def split: if_splits)

lemma shortest_spec: "shortest m = Some (n, e) \<Longrightarrow> round_mag False (of_nat n * exp10 e) = Fin False m"
  by (auto simp: shortest_def find_Some_iff round_trips_def)

lemma json_mag_denotes:
  assumes "json_mag m = Some s"
  shows "\<exists>q. denotes s q \<and> round_mag False q = Fin False m"
proof (cases "m = 0")
  case True
  with assms have "s = ''0''" by (simp add: json_mag_def)
  then have "denotes s 0"
    using digits_value_zeros [of 1] by (intro denotesI [of "''0''" "[]" "[]"]) simp_all
  with True show ?thesis by (intro exI [of _ 0]) (simp add: round_mag_def)
next
  case False
  with assms obtain n e where sh: "shortest m = Some (n, e)"
    by (auto simp: json_mag_def)
  obtain ds dp where d: "trim_zeros (n, e) = (ds, dp)" by fastforce
  note r = shortest_spec [OF sh]
  have "n \<noteq> 0"
  proof
    assume "n = 0"
    with r False show False by (simp add: round_mag_def)
  qed
  then have t: "all_digits ds" "hd ds \<noteq> CHR ''0''"
      "of_nat n * exp10 e = of_nat (digits_value ds) * exp10 (dp - int (length ds))"
    using trim_zeros_spec [OF _ d] by auto
  have "s = layout_e (ds, dp) \<or> s = layout_f (ds, dp)"
    using assms False sh d by (auto simp: json_mag_def Let_def split: if_splits)
  then have "denotes s (of_nat n * exp10 e)"
    unfolding t(3) using layout_f_denotes [OF t(1,2)] layout_e_denotes [OF t(1,2)] by auto
  with r show ?thesis by blast
qed

definition num_text :: "string \<Rightarrow> bool" where
  "num_text s \<longleftrightarrow> (\<exists>neg i f e. s = sign_text neg @ i @ f @ e \<and> int_text i \<and> frac_text f \<and> exp_text e)"

lemma num_text_int: "num_text (dec_int i)"
  unfolding num_text_def dec_int_sign using dec_int_text
  by (intro exI [of _ "i < 0"] exI [of _ "dec (nat \<bar>i\<bar>)"] exI [of _ "[]"]) simp

lemma json_float_text:
  assumes "json_float x = Some s"
  shows "num_text s \<and> parse_float s = Some x"
proof -
  from assms obtain neg m t where x: "x = Fin neg m" "json_mag m = Some t" "s = sign_text neg @ t"
    by (auto simp: json_float_def sign_text_def split: f64.splits)
  from json_mag_denotes [OF x(2)] obtain q where q: "denotes t q" "round_mag False q = Fin False m"
    by blast
  then obtain i f e where t: "t = i @ f @ e" "int_text i" "frac_text f" "exp_text e"
      "of_nat (digits_value (i @ tl f)) * exp10 (exp_value e - int (length (tl f))) = q"
    by (auto simp: denotes_def)
  have "num_value s = Some (neg, q)"
    using num_value_text [OF t(2-4), of neg] t(1,5) x(3) by simp
  then have "parse_float s = Some x"
    using round_mag_sign [OF q(2), of neg] x(1) by (simp add: parse_float_def)
  moreover have "num_text s" using t x(3) unfolding num_text_def by blast
  ultimately show ?thesis by simp
qed

lemma parse_num_num_text: "num_text t \<Longrightarrow> num_end r \<Longrightarrow> parse_num (t @ r) = Some (t, r)"
  by (auto simp: num_text_def parse_num_text)

lemma num_text_start:
  assumes "num_text t"
  obtains c cs where "t = c # cs" "is_dec_digit c \<or> c = CHR ''-''"
  using assms by (cases t) (auto simp: num_text_def sign_text_def int_text_def all_digits_def
      Cons_eq_append_conv split: if_splits)

section \<open>Values\<close>

definition ws_text :: "string \<Rightarrow> bool" where
  "ws_text w \<longleftrightarrow> list_all (\<lambda>c. c \<in> {CHR '' '', CHR 0x09, CHR 0x0D, newline}) w"

definition layout_ok :: "layout \<Rightarrow> bool" where
  "layout_ok L \<longleftrightarrow> (\<forall>d. ws_text (lay_break L d)) \<and> (\<exists>w. lay_colon L = '':'' @ w \<and> ws_text w)"

lemma compact_ok: "layout_ok compact"
  by (simp add: layout_ok_def compact_def ws_text_def)

lemma indented_ok: "layout_ok indented"
  by (auto simp: layout_ok_def indented_def ws_text_def list_all_iff intro: exI [of _ "'' ''"])

lemma skip_ws_append [simp]: "ws_text w \<Longrightarrow> skip_ws (w @ s) = skip_ws s"
  by (induction w) (auto simp: ws_text_def skip_ws_def)

text \<open>A text that is read back as a value, whatever follows that is not part of a number.\<close>

definition value_start :: "string \<Rightarrow> bool" where
  "value_start s \<longleftrightarrow> s \<noteq> [] \<and>
    hd s \<notin> {CHR '' '', CHR 0x09, CHR 0x0D, newline, CHR '']'', CHR ''}''}"

definition reads :: "string \<Rightarrow> json \<Rightarrow> bool" where
  "reads s v \<longleftrightarrow> value_start s \<and>
    (\<forall>n r w. num_end r \<longrightarrow> ws_text w \<longrightarrow> 2 * length s + 1 \<le> n \<longrightarrow> parse_val n (w @ s @ r) = Some (v, r))"

lemma skip_ws_start [simp]: "value_start s \<Longrightarrow> skip_ws (s @ r) = s @ r"
  by (cases s) (auto simp: skip_ws_def value_start_def)

lemma readsI:
  assumes "value_start s"
    and "\<And>n r. num_end r \<Longrightarrow> 2 * length s + 1 \<le> Suc n \<Longrightarrow> parse_val (Suc n) (s @ r) = Some (v, r)"
  shows "reads s v"
proof -
  have "parse_val n (w @ s @ r) = Some (v, r)"
    if r: "num_end r" and w: "ws_text w" and n: "2 * length s + 1 \<le> n" for n r w
  proof -
    obtain m where m: "n = Suc m" using n by (cases n) auto
    have "parse_val (Suc m) (w @ s @ r) = parse_val (Suc m) (s @ r)"
      using w by (simp only: parse_val.simps skip_ws_append)
    then show ?thesis using assms(2) [OF r] n m by simp
  qed
  with assms(1) show ?thesis by (auto simp: reads_def)
qed

lemma reads_parse: "reads s v \<Longrightarrow> num_end r \<Longrightarrow> ws_text w \<Longrightarrow> 2 * length s + 1 \<le> n \<Longrightarrow>
    parse_val n (w @ s @ r) = Some (v, r)"
  by (simp add: reads_def)

lemma num_end_ws: "ws_text w \<Longrightarrow> num_end (w @ c # r) \<longleftrightarrow> w \<noteq> [] \<or> num_end (c # r)"
  by (cases w) (auto simp: ws_text_def num_end_def is_dec_digit_iff)

lemma num_end_char [simp]:
  "num_end (CHR '','' # r)" "num_end (CHR '']'' # r)" "num_end (CHR ''}'' # r)" "num_end []"
  by (simp_all add: num_end_def)

lemma num_end_close [simp]:
  "ws_text w \<Longrightarrow> num_end (w @ CHR '','' # r)" "ws_text w \<Longrightarrow> num_end (w @ CHR '']'' # r)"
  "ws_text w \<Longrightarrow> num_end (w @ CHR ''}'' # r)"
  by (simp_all add: num_end_ws)

lemma skip_ws_char [simp]: "c \<notin> {CHR '' '', CHR 0x09, CHR 0x0D, newline} \<Longrightarrow> skip_ws (c # r) = c # r"
  by (simp add: skip_ws_def)

lemma parse_elems_join:
  assumes "list_all2 reads ss vs" and "ss \<noteq> []" and "ws_text w" and "ws_text b" and "ws_text b'"
    and "2 * length (join ('','' @ b) ss) + 2 \<le> n"
  shows "parse_elems n (w @ join ('','' @ b) ss @ b' @ CHR '']'' # r) = Some (vs, r)"
  using assms
proof (induction ss vs arbitrary: n w rule: list_all2_induct)
  case (Cons s ss v vs)
  obtain m where n: "n = Suc m" using Cons.prems by (cases n) auto
  show ?case
  proof (cases "ss = []")
    case True
    with Cons.hyps have vs: "vs = []" by simp
    have "parse_val m (w @ s @ b' @ CHR '']'' # r) = Some (v, b' @ CHR '']'' # r)"
      using Cons.prems n True by (intro reads_parse [OF Cons.hyps(1)]) simp_all
    then show ?thesis using Cons.prems n True vs by simp
  next
    case False
    let ?rest = "b @ join ('','' @ b) ss @ b' @ CHR '']'' # r"
    have "parse_val m (w @ s @ CHR '','' # ?rest) = Some (v, CHR '','' # ?rest)"
      using Cons.prems n False by (intro reads_parse [OF Cons.hyps(1)]) (simp_all add: join_Cons)
    moreover have "parse_elems m ?rest = Some (vs, r)"
      using Cons.prems n False by (intro Cons.IH) (simp_all add: join_Cons)
    ultimately show ?thesis using n False by (simp add: join_Cons)
  qed
qed simp

text \<open>The members of an object: a quoted key, the colon and a value.\<close>

definition reads_member :: "layout \<Rightarrow> string \<Rightarrow> string \<times> json \<Rightarrow> bool" where
  "reads_member L s kv \<longleftrightarrow> (\<exists>t. s = json_quote (fst kv) @ lay_colon L @ t \<and> valid_utf8 (fst kv) \<and>
    reads t (snd kv))"

lemma parse_members_join:
  assumes "list_all2 (reads_member L) ss kvs" and "ss \<noteq> []" and "ws_text w" and "ws_text b"
    and "ws_text b'" and "layout_ok L" and "2 * length (join ('','' @ b) ss) + 2 \<le> n"
  shows "parse_members n (w @ join ('','' @ b) ss @ b' @ CHR ''}'' # r) = Some (kvs, r)"
  using assms
proof (induction ss kvs arbitrary: n w rule: list_all2_induct)
  case (Cons s ss kv kvs)
  obtain m where n: "n = Suc m" using Cons.prems by (cases n) auto
  obtain k v where kv: "kv = (k, v)" by fastforce
  from Cons.hyps(1) obtain t where s: "s = json_quote k @ lay_colon L @ t" "valid_utf8 k" "reads t v"
    by (auto simp: reads_member_def kv)
  obtain c where c: "lay_colon L = '':'' @ c" "ws_text c" using Cons.prems by (auto simp: layout_ok_def)
  have key: "parse_str (json_escape k @ dquote # x) = Some (k, x)" for x
    by (rule parse_str_escape [OF s(2)])
  show ?case
  proof (cases "ss = []")
    case True
    with Cons.hyps have kvs: "kvs = []" by simp
    have "parse_val m (c @ t @ b' @ CHR ''}'' # r) = Some (v, b' @ CHR ''}'' # r)"
      using Cons.prems n True s c by (intro reads_parse [OF s(3)]) simp_all
    then show ?thesis using Cons.prems n True kvs s c key kv by (simp add: json_quote_def)
  next
    case False
    let ?rest = "b @ join ('','' @ b) ss @ b' @ CHR ''}'' # r"
    have "parse_val m (c @ t @ CHR '','' # ?rest) = Some (v, CHR '','' # ?rest)"
      using Cons.prems n False s c by (intro reads_parse [OF s(3)]) (simp_all add: join_Cons)
    moreover have "parse_members m ?rest = Some (kvs, r)"
      using Cons.prems n False by (intro Cons.IH) (simp_all add: join_Cons)
    ultimately show ?thesis using Cons.prems n False s c key kv by (simp add: join_Cons json_quote_def)
  qed
qed simp

section \<open>The round trip\<close>

text \<open>What the parser makes of an encoded value.\<close>

fun json_of :: "any \<Rightarrow> json" where
  "json_of ANull = JNull"
| "json_of (AStr s) = JStr s"
| "json_of (AInt i) = JNum (dec_int i)"
| "json_of (ABool b) = JBool b"
| "json_of (AFloat x) = JNum (case json_float x of Some s \<Rightarrow> s | None \<Rightarrow> [])"
| "json_of (AList xs) = JArr (map json_of xs)"
| "json_of (AMap kvs) = JObj (map (\<lambda>(k, v). (k, json_of v)) kvs)"
| "json_of (AObj kvs) = JObj (map (\<lambda>(k, v). (k, json_of v)) kvs)"

fun any_utf8 :: "any \<Rightarrow> bool" where
  "any_utf8 (AStr s) = valid_utf8 s"
| "any_utf8 (AList xs) = list_all any_utf8 xs"
| "any_utf8 (AMap kvs) = list_all (\<lambda>(k, v). valid_utf8 k \<and> any_utf8 v) kvs"
| "any_utf8 (AObj kvs) = list_all (\<lambda>(k, v). valid_utf8 k \<and> any_utf8 v) kvs"
| "any_utf8 _ = True"

lemma reads_num: "num_text t \<Longrightarrow> reads t (JNum t)"
proof (rule readsI)
  assume t: "num_text t"
  obtain c cs where c: "t = c # cs" "is_dec_digit c \<or> c = CHR ''-''" by (rule num_text_start [OF t])
  then show v: "value_start t" by (auto simp: value_start_def is_dec_digit_iff)
  show "parse_val (Suc n) (t @ r) = Some (JNum t, r)" if "num_end r" for n r
  proof -
    have "skip_ws (c # cs @ r) = c # cs @ r" using skip_ws_start [OF v, of r] c by simp
    moreover have "c \<noteq> dquote" "c \<noteq> CHR ''[''" "c \<noteq> CHR ''{''" "CHR ''t'' \<noteq> c" "CHR ''f'' \<noteq> c"
        "CHR ''n'' \<noteq> c"
      using c(2) by (auto simp: is_dec_digit_iff)
    moreover have "parse_num (c # cs @ r) = Some (t, r)" using parse_num_num_text [OF t that] c by simp
    ultimately show ?thesis by (simp add: c(1))
  qed
qed

lemma reads_string: "valid_utf8 s \<Longrightarrow> reads (json_quote s) (JStr s)"
proof (rule readsI)
  assume "valid_utf8 s"
  from parse_str_escape [OF this]
  show "parse_val (Suc n) (json_quote s @ r) = Some (JStr s, r)" for n r by (simp add: json_quote_def)
qed (simp add: value_start_def json_quote_def)

lemma reads_literal:
  "reads ''null'' JNull" "reads ''true'' (JBool True)" "reads ''false'' (JBool False)"
  by (rule readsI; simp add: value_start_def)+

lemma reads_not_closed:
  assumes "reads s v" and "ws_text b"
  shows "\<not> prefix '']'' (skip_ws (b @ s @ r))" "\<not> prefix ''}'' (skip_ws (b @ s @ r))"
proof -
  have "value_start s" using assms by (simp add: reads_def)
  then show "\<not> prefix '']'' (skip_ws (b @ s @ r))" "\<not> prefix ''}'' (skip_ws (b @ s @ r))"
    using assms(2) by (cases s; auto simp: value_start_def)+
qed

lemma join_hd: "ss \<noteq> [] \<Longrightarrow> \<exists>r. join sep ss = hd ss @ r"
  by (cases ss; cases "tl ss") (auto simp: join_Cons)

lemma reads_array:
  assumes "list_all2 reads ss vs" and L: "layout_ok L"
  shows "reads (bracketed L d CHR ''['' CHR '']'' ss) (JArr vs)"
proof (rule readsI)
  let ?t = "bracketed L d CHR ''['' CHR '']'' ss"
  show "value_start ?t" by (simp add: bracketed_def value_start_def)
  show "parse_val (Suc n) (?t @ r) = Some (JArr vs, r)" if "2 * length ?t + 1 \<le> Suc n" for n r
  proof (cases "ss = []")
    case True
    with assms show ?thesis by (simp add: bracketed_def)
  next
    case False
    let ?b = "lay_break L (Suc d)" and ?j = "join ('','' @ lay_break L (Suc d)) ss"
    have b: "ws_text ?b" "ws_text (lay_break L d)" using L by (auto simp: layout_ok_def)
    obtain s v where hd: "hd ss = s" "reads s v" using assms(1) False by (cases ss; cases vs) auto
    have "parse_elems n (?b @ ?j @ lay_break L d @ CHR '']'' # r) = Some (vs, r)"
      using that False b by (intro parse_elems_join [OF assms(1)]) (simp_all add: bracketed_def)
    moreover have "\<not> prefix '']'' (skip_ws (?b @ ?j @ lay_break L d @ CHR '']'' # r))"
    proof -
      obtain q where "?j = s @ q" using join_hd [OF False] hd(1) by blast
      then show ?thesis using reads_not_closed(1) [OF hd(2) b(1)] by simp
    qed
    ultimately show ?thesis using False by (simp add: bracketed_def)
  qed
qed

lemma reads_object:
  assumes "list_all2 (reads_member L) ss kvs" and L: "layout_ok L"
  shows "reads (bracketed L d CHR ''{'' CHR ''}'' ss) (JObj kvs)"
proof (rule readsI)
  let ?t = "bracketed L d CHR ''{'' CHR ''}'' ss"
  show "value_start ?t" by (simp add: bracketed_def value_start_def)
  show "parse_val (Suc n) (?t @ r) = Some (JObj kvs, r)" if "2 * length ?t + 1 \<le> Suc n" for n r
  proof (cases "ss = []")
    case True
    with assms show ?thesis by (simp add: bracketed_def)
  next
    case False
    let ?b = "lay_break L (Suc d)" and ?j = "join ('','' @ lay_break L (Suc d)) ss"
    have b: "ws_text ?b" "ws_text (lay_break L d)" using L by (auto simp: layout_ok_def)
    obtain q where hd: "hd ss = dquote # q"
      using assms(1) False by (cases ss; cases kvs) (auto simp: reads_member_def json_quote_def)
    have "parse_members n (?b @ ?j @ lay_break L d @ CHR ''}'' # r) = Some (kvs, r)"
      using that False b L by (intro parse_members_join [OF assms(1)]) (simp_all add: bracketed_def)
    moreover have "\<not> prefix ''}'' (skip_ws (?b @ ?j @ lay_break L d @ CHR ''}'' # r))"
    proof -
      obtain q' where "?j = dquote # q'" using join_hd [OF False] hd by fastforce
      then show ?thesis using b by simp
    qed
    ultimately show ?thesis using False by (simp add: bracketed_def)
  qed
qed

lemma those_list_all2:
  "those (map f xs) = Some ys \<Longrightarrow> (\<And>x y. x \<in> set xs \<Longrightarrow> f x = Some y \<Longrightarrow> P y (g x)) \<Longrightarrow>
    list_all2 P ys (map g xs)"
proof (induction xs arbitrary: ys)
  case (Cons x xs)
  then obtain y ys' where "f x = Some y" "those (map f xs) = Some ys'" "ys = y # ys'"
    by (auto split: option.splits)
  with Cons show ?case by simp
qed simp

lemma encode_reads:
  shows "encode L d a = Some s \<Longrightarrow> any_utf8 a \<Longrightarrow> layout_ok L \<Longrightarrow> reads s (json_of a)"
    and "encode_members L d kvs = Some s \<Longrightarrow> list_all (\<lambda>(k, v). valid_utf8 k \<and> any_utf8 v) kvs \<Longrightarrow>
      layout_ok L \<Longrightarrow> reads s (JObj (map (\<lambda>(k, v). (k, json_of v)) kvs))"
proof (induction L d a and L d kvs arbitrary: s and s rule: encode_encode_members.induct)
  case (6 L d xs)
  then obtain ss where ss: "those (map (encode L (Suc d)) xs) = Some ss"
    "s = bracketed L d CHR ''['' CHR '']'' ss" by auto
  have "list_all2 reads ss (map json_of xs)"
    using ss(1) 6 by (elim those_list_all2) (auto simp: list_all_iff)
  with ss(2) 6 show ?case by (simp add: reads_array)
next
  case (9 L d kvs)
  let ?f = "\<lambda>(k, v). map_option (\<lambda>s. json_quote k @ lay_colon L @ s) (encode L (Suc d) v)"
  from 9 obtain ss where ss: "those (map ?f kvs) = Some ss"
    "s = bracketed L d CHR ''{'' CHR ''}'' ss" by auto
  have "list_all2 (reads_member L) ss (map (\<lambda>(k, v). (k, json_of v)) kvs)"
  proof (rule those_list_all2 [OF ss(1)])
    fix kv y
    assume kv: "kv \<in> set kvs" "?f kv = Some y"
    obtain k v where "kv = (k, v)" by fastforce
    with kv 9 show "reads_member L y (case kv of (k, v) \<Rightarrow> (k, json_of v))"
      by (auto simp: reads_member_def list_all_iff)
  qed
  with ss(2) 9 show ?case by (simp add: reads_object)
qed (auto simp: reads_literal reads_string num_text_int json_float_text intro: reads_num)

lemma json_parse_encode:
  assumes "encode L d a = Some s" and "any_utf8 a" and "layout_ok L"
  shows "json_parse s = Some (json_of a)"
proof -
  have "parse_val (2 * length s + 1) ([] @ s @ []) = Some (json_of a, [])"
    by (rule reads_parse [OF encode_reads(1) [OF assms]]) (simp_all add: ws_text_def)
  then show ?thesis by (simp add: json_parse_def skip_ws_def)
qed

text \<open>White space after the value changes nothing.\<close>

lemma json_parse_encode_ws:
  assumes "encode L d a = Some s" and "any_utf8 a" and "layout_ok L" and "ws_text w" and "num_end w"
  shows "json_parse (s @ w) = Some (json_of a)"
proof -
  have "skip_ws w = []" using assms(4) by (auto simp: skip_ws_def ws_text_def list_all_iff dropWhile_eq_Nil_conv)
  moreover have "parse_val (2 * length (s @ w) + 1) ([] @ s @ w) = Some (json_of a, w)"
    by (rule reads_parse [OF encode_reads(1) [OF assms(1-3)]]) (use assms(5) in \<open>simp_all add: ws_text_def\<close>)
  ultimately show ?thesis by (simp add: json_parse_def)
qed

end
