(* ===== verification/Guest_Report.thy ===== *)
theory Guest_Report
  imports Json_Roundtrip
begin

text \<open>
  \<open>GuestReport\<close> of \<open>guest_linux.go\<close>: the record, the JSON line that the guest prints and
  what the host decodes from it. The two ends are tied by a round trip.
\<close>

section \<open>The record\<close>

text \<open>A nil map is \<open>None\<close>.\<close>

record guest_report =
  gr_OK :: bool
  gr_Errors :: "string list"
  gr_KernelVersion :: string
  gr_Cmdline :: string
  gr_CPUs :: int
  gr_MemTotalKB :: int
  gr_Clocksource :: string
  gr_AvailClock :: string
  gr_VirtioDevices :: "(string, string) go_map option"
  gr_UptimeAtStart :: f64
  gr_ClockReadNS :: f64
  gr_CPUHashMBps :: f64
  gr_CPUHashMBpsN :: f64
  gr_MemWriteMBps :: f64
  gr_DiskWriteMBps :: f64
  gr_DiskReadMBps :: f64
  gr_NetEchoRTTus :: f64
  gr_NetThroughput :: f64
  gr_NetError :: string

definition empty_report :: guest_report where
  "empty_report =
    \<lparr>gr_OK = False, gr_Errors = [], gr_KernelVersion = [], gr_Cmdline = [], gr_CPUs = 0,
     gr_MemTotalKB = 0, gr_Clocksource = [], gr_AvailClock = [], gr_VirtioDevices = None,
     gr_UptimeAtStart = f_zero, gr_ClockReadNS = f_zero, gr_CPUHashMBps = f_zero,
     gr_CPUHashMBpsN = f_zero, gr_MemWriteMBps = f_zero, gr_DiskWriteMBps = f_zero,
     gr_DiskReadMBps = f_zero, gr_NetEchoRTTus = f_zero, gr_NetThroughput = f_zero,
     gr_NetError = []\<rparr>"

text \<open>The verb \<open>%v\<close> on the map: its entries in the order of their keys.\<close>

definition show_map :: "(string, string) go_map option \<Rightarrow> string" where
  "show_map m = ''map['' @ join '' '' (map (\<lambda>(k, v). k @ '':'' @ v) (case m of None \<Rightarrow> [] | Some kvs \<Rightarrow> kvs)) @ '']''"

section \<open>Encoding\<close>

definition map_any :: "(string, string) go_map option \<Rightarrow> any" where
  "map_any m = (case m of None \<Rightarrow> ANull | Some kvs \<Rightarrow> AMap (map (\<lambda>(k, v). (k, AStr v)) kvs))"

definition omit_float :: "string \<Rightarrow> f64 \<Rightarrow> (string \<times> any) list" where
  "omit_float k x = (if is_zero x then [] else [(k, AFloat x)])"

definition omit_string :: "string \<Rightarrow> string \<Rightarrow> (string \<times> any) list" where
  "omit_string k s = (if s = [] then [] else [(k, AStr s)])"

definition omit_strings :: "string \<Rightarrow> string list \<Rightarrow> (string \<times> any) list" where
  "omit_strings k ss = (if ss = [] then [] else [(k, AList (map AStr ss))])"

definition guest_fields :: "guest_report \<Rightarrow> (string \<times> any) list" where
  "guest_fields g =
    [(''ok'', ABool (gr_OK g))] @
    omit_strings ''errors'' (gr_Errors g) @
    [(''kernel_version'', AStr (gr_KernelVersion g)),
     (''cmdline'', AStr (gr_Cmdline g)),
     (''cpus'', AInt (gr_CPUs g)),
     (''mem_total_kb'', AInt (gr_MemTotalKB g)),
     (''clocksource'', AStr (gr_Clocksource g)),
     (''available_clocksource'', AStr (gr_AvailClock g)),
     (''virtio_devices'', map_any (gr_VirtioDevices g)),
     (''uptime_at_start_s'', AFloat (gr_UptimeAtStart g)),
     (''clock_gettime_ns'', AFloat (gr_ClockReadNS g)),
     (''cpu_sha256_mbps_1core'', AFloat (gr_CPUHashMBps g)),
     (''cpu_sha256_mbps_all_cores'', AFloat (gr_CPUHashMBpsN g)),
     (''mem_write_mbps'', AFloat (gr_MemWriteMBps g))] @
    omit_float ''disk_write_mbps'' (gr_DiskWriteMBps g) @
    omit_float ''disk_read_mbps'' (gr_DiskReadMBps g) @
    omit_float ''net_echo_rtt_us'' (gr_NetEchoRTTus g) @
    omit_float ''net_throughput_mbps'' (gr_NetThroughput g) @
    omit_string ''net_error'' (gr_NetError g)"

text \<open>\<open>json.Marshal\<close>, whose error the guest ignores: then nothing follows the prefix.\<close>

definition marshal_report :: "guest_report \<Rightarrow> string" where
  "marshal_report g = (case encode compact 0 (AObj (guest_fields g)) of Some s \<Rightarrow> s | None \<Rightarrow> [])"

section \<open>Decoding\<close>

text \<open>
  Names match a field exactly or, failing that, up to case; besides the letters of ASCII
  the Kelvin sign folds to \<open>k\<close> and the long s to \<open>s\<close>.
\<close>

definition kelvin :: string where "kelvin = [CHR 0xE2, CHR 0x84, CHR 0xAA]"
definition long_s :: string where "long_s = [CHR 0xC5, CHR 0xBF]"

function fold_name :: "string \<Rightarrow> string" where
  "fold_name s =
    (if prefix kelvin s then CHR ''k'' # fold_name (drop 3 s)
     else if prefix long_s s then CHR ''s'' # fold_name (drop 2 s)
     else (case s of [] \<Rightarrow> [] | c # cs \<Rightarrow> lower_char c # fold_name cs))"
  by pat_completeness auto
termination by (relation "measure length") (auto simp: kelvin_def long_s_def prefix_def)

declare fold_name.simps [simp del]

definition field_names :: "string list" where
  "field_names = [''ok'', ''errors'', ''kernel_version'', ''cmdline'', ''cpus'', ''mem_total_kb'',
     ''clocksource'', ''available_clocksource'', ''virtio_devices'', ''uptime_at_start_s'',
     ''clock_gettime_ns'', ''cpu_sha256_mbps_1core'', ''cpu_sha256_mbps_all_cores'',
     ''mem_write_mbps'', ''disk_write_mbps'', ''disk_read_mbps'', ''net_echo_rtt_us'',
     ''net_throughput_mbps'', ''net_error'']"

definition field_of :: "string \<Rightarrow> string" where
  "field_of k = (if k \<in> set field_names then k else fold_name k)"

text \<open>
  Storing a value in a variable of a type: \<open>null\<close> leaves it alone, a value of another kind
  is an error.
\<close>

definition into_bool :: "json \<Rightarrow> bool \<Rightarrow> bool option" where
  "into_bool v old = (case v of JNull \<Rightarrow> Some old | JBool b \<Rightarrow> Some b | _ \<Rightarrow> None)"

definition into_string :: "json \<Rightarrow> string \<Rightarrow> string option" where
  "into_string v old = (case v of JNull \<Rightarrow> Some old | JStr s \<Rightarrow> Some s | _ \<Rightarrow> None)"

definition into_int :: "json \<Rightarrow> int \<Rightarrow> int option" where
  "into_int v old = (case v of JNull \<Rightarrow> Some old | JNum t \<Rightarrow> atoi t | _ \<Rightarrow> None)"

definition into_float :: "json \<Rightarrow> f64 \<Rightarrow> f64 option" where
  "into_float v old = (case v of JNull \<Rightarrow> Some old | JNum t \<Rightarrow> parse_float t | _ \<Rightarrow> None)"

fun into_elems :: "json list \<Rightarrow> string list \<Rightarrow> string list option" where
  "into_elems [] old = Some []"
| "into_elems (v # vs) old =
    (case into_string v (case old of [] \<Rightarrow> [] | s # ss \<Rightarrow> s) of None \<Rightarrow> None
     | Some s \<Rightarrow> map_option ((#) s) (into_elems vs (tl old)))"

definition into_strings :: "json \<Rightarrow> string list \<Rightarrow> string list option" where
  "into_strings v old = (case v of JNull \<Rightarrow> Some [] | JArr vs \<Rightarrow> into_elems vs old | _ \<Rightarrow> None)"

fun into_entries :: "(string \<times> json) list \<Rightarrow> (string, string) go_map \<Rightarrow> (string, string) go_map option" where
  "into_entries [] m = Some m"
| "into_entries ((k, v) # kvs) m =
    (case into_string v [] of None \<Rightarrow> None | Some s \<Rightarrow> into_entries kvs (gm_put k s m))"

definition into_map ::
    "json \<Rightarrow> (string, string) go_map option \<Rightarrow> (string, string) go_map option option" where
  "into_map v old = (case v of JNull \<Rightarrow> Some None
     | JObj kvs \<Rightarrow> map_option Some (into_entries kvs (case old of None \<Rightarrow> [] | Some m \<Rightarrow> m))
     | _ \<Rightarrow> None)"

definition set_field :: "string \<Rightarrow> json \<Rightarrow> guest_report \<Rightarrow> guest_report option" where
  "set_field k v g =
    (if k = ''ok'' then map_option (\<lambda>x. g\<lparr>gr_OK := x\<rparr>) (into_bool v (gr_OK g))
     else if k = ''errors'' then map_option (\<lambda>x. g\<lparr>gr_Errors := x\<rparr>) (into_strings v (gr_Errors g))
     else if k = ''kernel_version'' then
       map_option (\<lambda>x. g\<lparr>gr_KernelVersion := x\<rparr>) (into_string v (gr_KernelVersion g))
     else if k = ''cmdline'' then map_option (\<lambda>x. g\<lparr>gr_Cmdline := x\<rparr>) (into_string v (gr_Cmdline g))
     else if k = ''cpus'' then map_option (\<lambda>x. g\<lparr>gr_CPUs := x\<rparr>) (into_int v (gr_CPUs g))
     else if k = ''mem_total_kb'' then
       map_option (\<lambda>x. g\<lparr>gr_MemTotalKB := x\<rparr>) (into_int v (gr_MemTotalKB g))
     else if k = ''clocksource'' then
       map_option (\<lambda>x. g\<lparr>gr_Clocksource := x\<rparr>) (into_string v (gr_Clocksource g))
     else if k = ''available_clocksource'' then
       map_option (\<lambda>x. g\<lparr>gr_AvailClock := x\<rparr>) (into_string v (gr_AvailClock g))
     else if k = ''virtio_devices'' then
       map_option (\<lambda>x. g\<lparr>gr_VirtioDevices := x\<rparr>) (into_map v (gr_VirtioDevices g))
     else if k = ''uptime_at_start_s'' then
       map_option (\<lambda>x. g\<lparr>gr_UptimeAtStart := x\<rparr>) (into_float v (gr_UptimeAtStart g))
     else if k = ''clock_gettime_ns'' then
       map_option (\<lambda>x. g\<lparr>gr_ClockReadNS := x\<rparr>) (into_float v (gr_ClockReadNS g))
     else if k = ''cpu_sha256_mbps_1core'' then
       map_option (\<lambda>x. g\<lparr>gr_CPUHashMBps := x\<rparr>) (into_float v (gr_CPUHashMBps g))
     else if k = ''cpu_sha256_mbps_all_cores'' then
       map_option (\<lambda>x. g\<lparr>gr_CPUHashMBpsN := x\<rparr>) (into_float v (gr_CPUHashMBpsN g))
     else if k = ''mem_write_mbps'' then
       map_option (\<lambda>x. g\<lparr>gr_MemWriteMBps := x\<rparr>) (into_float v (gr_MemWriteMBps g))
     else if k = ''disk_write_mbps'' then
       map_option (\<lambda>x. g\<lparr>gr_DiskWriteMBps := x\<rparr>) (into_float v (gr_DiskWriteMBps g))
     else if k = ''disk_read_mbps'' then
       map_option (\<lambda>x. g\<lparr>gr_DiskReadMBps := x\<rparr>) (into_float v (gr_DiskReadMBps g))
     else if k = ''net_echo_rtt_us'' then
       map_option (\<lambda>x. g\<lparr>gr_NetEchoRTTus := x\<rparr>) (into_float v (gr_NetEchoRTTus g))
     else if k = ''net_throughput_mbps'' then
       map_option (\<lambda>x. g\<lparr>gr_NetThroughput := x\<rparr>) (into_float v (gr_NetThroughput g))
     else if k = ''net_error'' then
       map_option (\<lambda>x. g\<lparr>gr_NetError := x\<rparr>) (into_string v (gr_NetError g))
     else Some g)"

fun set_fields :: "(string \<times> json) list \<Rightarrow> guest_report \<Rightarrow> guest_report option" where
  "set_fields [] g = Some g"
| "set_fields ((k, v) # kvs) g =
    (case set_field (field_of k) v g of None \<Rightarrow> None | Some g \<Rightarrow> set_fields kvs g)"

text \<open>\<open>json.Unmarshal\<close> into a zero \<open>GuestReport\<close>: \<open>None\<close> when it returns an error.\<close>

definition unmarshal_report :: "string \<Rightarrow> guest_report option" where
  "unmarshal_report s = (case json_parse s of None \<Rightarrow> None
     | Some (JObj kvs) \<Rightarrow> set_fields kvs empty_report
     | Some JNull \<Rightarrow> Some empty_report
     | Some _ \<Rightarrow> None)"

section \<open>The round trip\<close>

lemma atoi_dec_int:
  assumes "min_int64 \<le> i" and "i \<le> max_int64"
  shows "atoi (dec_int i) = Some i"
proof (cases "i < 0")
  case False
  then have "dec_int i = dec (nat i)" and "int (nat i) = i" by (simp_all add: dec_int_def)
  with assms(2) show ?thesis using atoi_dec [of "nat i"] by simp
next
  case True
  have "int (value_of 10 (map dec_digit (dec (nat (- i))))) = - i" using True by simp
  with True assms show ?thesis
    by (simp add: atoi_def parse_int_def dec_int_def Let_def max_int64_def)
qed

definition positive_zero :: "f64 \<Rightarrow> bool" where
  "positive_zero x \<longleftrightarrow> is_zero x \<longrightarrow> x = f_zero"

text \<open>
  The reports of which nothing is lost: text that is UTF-8, integers of 64 bits, no negative
  zero in a field that is left out when it is zero.
\<close>

definition report_ok :: "guest_report \<Rightarrow> bool" where
  "report_ok g \<longleftrightarrow>
    any_utf8 (AObj (guest_fields g)) \<and>
    min_int64 \<le> gr_CPUs g \<and> gr_CPUs g \<le> max_int64 \<and>
    min_int64 \<le> gr_MemTotalKB g \<and> gr_MemTotalKB g \<le> max_int64 \<and>
    (case gr_VirtioDevices g of None \<Rightarrow> True | Some m \<Rightarrow> gm_ok m) \<and>
    positive_zero (gr_DiskWriteMBps g) \<and> positive_zero (gr_DiskReadMBps g) \<and>
    positive_zero (gr_NetEchoRTTus g) \<and> positive_zero (gr_NetThroughput g)"

lemma those_Some_all: "those xs = Some ys \<Longrightarrow> x \<in> set xs \<Longrightarrow> x \<noteq> None"
  by (induction xs arbitrary: ys) (auto split: option.splits)

lemma encoded_float:
  assumes "encode L d (AObj kvs) = Some s" and "(k, AFloat x) \<in> set kvs"
  shows "\<exists>t. json_float x = Some t"
proof -
  let ?f = "\<lambda>(k, v). map_option (\<lambda>s. json_quote k @ lay_colon L @ s) (encode L (Suc d) v)"
  from assms(1) obtain ss where "those (map ?f kvs) = Some ss" by auto
  moreover have "?f (k, AFloat x) \<in> set (map ?f kvs)" 
    using imageI [OF assms(2), of ?f] by (simp only: set_map)
  ultimately have "?f (k, AFloat x) \<noteq> None" by (rule those_Some_all)
  then show ?thesis by auto
qed

definition float_ok :: "f64 \<Rightarrow> bool" where
  "float_ok x \<longleftrightarrow> json_float x \<noteq> None"

lemma into_json [simp]:
  "into_bool (JBool b) old = Some b" "into_string (JStr t) u = Some t"
  by (simp_all add: into_bool_def into_string_def)

lemma into_int_json [simp]:
  "min_int64 \<le> i \<Longrightarrow> i \<le> max_int64 \<Longrightarrow> into_int (JNum (dec_int i)) j = Some i"
  unfolding into_int_def json.case by (rule atoi_dec_int)

lemma into_float_json [simp]:
  "float_ok x \<Longrightarrow> into_float (JNum (case json_float x of Some s \<Rightarrow> s | None \<Rightarrow> [])) old = Some x"
  using json_float_text [of x] by (auto simp: into_float_def float_ok_def)

lemma into_elems_json [simp]: "into_elems (map (json_of \<circ> AStr) ss) old = Some ss"
  by (induction ss arbitrary: old) simp_all

lemma into_entries_json:
  "into_entries (map (\<lambda>(k, v). (k, JStr v)) kvs) m = Some (foldl (\<lambda>m (k, v). gm_put k v m) m kvs)"
  by (induction kvs arbitrary: m) auto

lemma gm_rebuild:
  assumes "gm_ok m"
  shows "foldl (\<lambda>m (k, v). gm_put k v m) [] m = m"
proof (rule gm_ext)
  show "gm_ok (foldl (\<lambda>m (k, v). gm_put k v m) [] m)" by (rule gm.invar_put_all [OF gm.invar_empty])
  show "gm_ok m" by (rule assms)
  fix k
  have d: "distinct (map fst m)" using assms by (simp add: gm_ok_def strict_sorted_iff)
  have "map_of (rev m) k = Some v \<longleftrightarrow> map_of m k = Some v" for v
    using d by (simp add: rev_map [symmetric])
  then have "map_of (rev m) k = map_of m k" by (metis option.exhaust)
  then show "gm_get (foldl (\<lambda>m (k, v). gm_put k v m) [] m) k = gm_get m k"
    using gm.lookup_put_all_empty [of m k] by (simp add: gm_get_def)
qed

lemma into_map_json:
  assumes "case m of None \<Rightarrow> True | Some m \<Rightarrow> gm_ok m"
  shows "into_map (json_of (map_any m)) None = Some m"
proof (cases m)
  case (Some kvs)
  have "map (\<lambda>(k, v). (k, json_of v)) (map (\<lambda>(k, v). (k, AStr v)) kvs) =
      map (\<lambda>(k, v). (k, JStr v)) kvs" by auto
  with Some assms show ?thesis
    by (simp add: map_any_def into_map_def into_entries_json gm_rebuild del: map_map)
qed (simp add: map_any_def into_map_def)

lemma set_fields_append:
  "set_fields (a @ b) g = (case set_fields a g of None \<Rightarrow> None | Some g \<Rightarrow> set_fields b g)"
  by (induction a g rule: set_fields.induct) (auto split: option.splits)

definition jfields :: "(string \<times> any) list \<Rightarrow> (string \<times> json) list" where
  "jfields = map (\<lambda>(k, v). (k, json_of v))"

lemma jfields_simps [simp]:
  "jfields [] = []" "jfields ((k, v) # xs) = (k, json_of v) # jfields xs"
  "jfields (xs @ ys) = jfields xs @ jfields ys"
  by (simp_all add: jfields_def)

lemma set_omit_float:
  assumes "float_ok x \<or> is_zero x" and "positive_zero x"
  shows "gr_DiskWriteMBps g = f_zero \<Longrightarrow>
      set_fields (jfields (omit_float ''disk_write_mbps'' x)) g = Some (g\<lparr>gr_DiskWriteMBps := x\<rparr>)"
    and "gr_DiskReadMBps g = f_zero \<Longrightarrow>
      set_fields (jfields (omit_float ''disk_read_mbps'' x)) g = Some (g\<lparr>gr_DiskReadMBps := x\<rparr>)"
    and "gr_NetEchoRTTus g = f_zero \<Longrightarrow>
      set_fields (jfields (omit_float ''net_echo_rtt_us'' x)) g = Some (g\<lparr>gr_NetEchoRTTus := x\<rparr>)"
    and "gr_NetThroughput g = f_zero \<Longrightarrow>
      set_fields (jfields (omit_float ''net_throughput_mbps'' x)) g = Some (g\<lparr>gr_NetThroughput := x\<rparr>)"
  using assms
  by (cases "is_zero x"; simp add: omit_float_def positive_zero_def field_of_def field_names_def set_field_def)+

lemma set_omit_string:
  "gr_NetError g = [] \<Longrightarrow> set_fields (jfields (omit_string ''net_error'' t)) g = Some (g\<lparr>gr_NetError := t\<rparr>)"
  by (cases "t = []") (simp_all add: omit_string_def field_of_def field_names_def set_field_def)

lemma set_errors:
  "gr_Errors g = [] \<Longrightarrow>
    set_fields (jfields (omit_strings ''errors'' es)) g = Some (g\<lparr>gr_Errors := es\<rparr>)"
  by (cases "es = []")
    (simp_all add: omit_strings_def field_of_def field_names_def set_field_def into_strings_def)

lemma unmarshal_marshal:
  assumes enc: "encode compact 0 (AObj (guest_fields g)) = Some s" and ok: "report_ok g"
  shows "unmarshal_report s = Some g"
proof -
  have utf: "any_utf8 (AObj (guest_fields g))" using ok by (simp add: report_ok_def)
  have p: "json_parse s = Some (JObj (jfields (guest_fields g)))"
    using json_parse_encode [OF enc utf compact_ok] by (simp add: jfields_def)
  have f: "float_ok x" if "(k, AFloat x) \<in> set (guest_fields g)" for k x
    using encoded_float [OF enc that] by (simp add: float_ok_def)
  have floats: "float_ok (gr_UptimeAtStart g)" "float_ok (gr_ClockReadNS g)" "float_ok (gr_CPUHashMBps g)"
    "float_ok (gr_CPUHashMBpsN g)" "float_ok (gr_MemWriteMBps g)"
    "float_ok (gr_DiskWriteMBps g) \<or> is_zero (gr_DiskWriteMBps g)"
    "float_ok (gr_DiskReadMBps g) \<or> is_zero (gr_DiskReadMBps g)"
    "float_ok (gr_NetEchoRTTus g) \<or> is_zero (gr_NetEchoRTTus g)"
    "float_ok (gr_NetThroughput g) \<or> is_zero (gr_NetThroughput g)"
    by (auto intro!: f simp: guest_fields_def omit_float_def)
  note ok' = ok [unfolded report_ok_def]
  have m: "into_map (json_of (map_any (gr_VirtioDevices g))) None = Some (gr_VirtioDevices g)"
    using ok' by (intro into_map_json) simp
  show ?thesis
    unfolding unmarshal_report_def p guest_fields_def jfields_simps
    using ok' floats m
    by (simp add: set_fields_append set_errors set_omit_float set_omit_string field_of_def
        field_names_def set_field_def empty_report_def)
qed

end
