(* ===== verification/Cpio.thy ===== *)
theory Cpio
  imports Go_Strings "HOL-Library.Word"
begin

text \<open>
  \<open>initramfs.go\<close>: the writer of the cpio \<open>newc\<close> archive that becomes the guest's root file
  system. The specification it is held against is a reader of the format: magic number,
  thirteen eight-digit hexadecimal fields, the NUL-terminated name padded to a multiple of
  four with the header, the data padded to a multiple of four, entries until the trailer.
\<close>

unbundle bit_operations_syntax

section \<open>The writer\<close>

definition modeFile :: "32 word" where "modeFile = 0x8000"
definition modeDir :: "32 word" where "modeDir = 0x4000"
definition modeChar :: "32 word" where "modeChar = 0x2000"

record cpioEntry =
  ce_name :: string
  ce_mode :: "32 word"
  ce_data :: bytes
  ce_rdevMajor :: "32 word"
  ce_rdevMinor :: "32 word"

record cpioWriter =
  cw_buf :: bytes
  cw_ino :: "32 word"

definition new_writer :: cpioWriter where
  "new_writer = \<lparr>cw_buf = [], cw_ino = 0\<rparr>"

function pad_buf :: "bytes \<Rightarrow> bytes" where
  "pad_buf buf = (if length buf mod 4 \<noteq> 0 then pad_buf (buf @ [nul]) else buf)"
  by pat_completeness auto
termination
proof (relation "measure (\<lambda>buf. (4 - length buf mod 4) mod 4)")
  fix buf :: bytes
  assume "length buf mod 4 \<noteq> 0"
  then show "(buf @ [nul], buf) \<in> measure (\<lambda>buf. (4 - length buf mod 4) mod 4)"
    by (simp add: mod_Suc) arith
qed simp

declare pad_buf.simps [simp del]

definition cpio_pad :: "cpioWriter \<Rightarrow> cpioWriter" where
  "cpio_pad w = w\<lparr>cw_buf := pad_buf (cw_buf w)\<rparr>"

definition cpio_write :: "bytes \<Rightarrow> cpioWriter \<Rightarrow> cpioWriter" where
  "cpio_write bs w = w\<lparr>cw_buf := cw_buf w @ bs\<rparr>"

definition header_fields :: "32 word \<Rightarrow> cpioEntry \<Rightarrow> nat list" where
  "header_fields ino e =
    [unat ino, unat (ce_mode e), 0, 0, 1, 0, length (ce_data e), 0, 0,
     unat (ce_rdevMajor e), unat (ce_rdevMinor e), length (ce_name e) + 1, 0]"

definition header_text :: "nat list \<Rightarrow> bytes" where
  "header_text fs = ''070701'' @ concat (map (hex_pad 8) fs)"

definition cpio_add :: "cpioEntry \<Rightarrow> cpioWriter \<Rightarrow> cpioWriter" where
  "cpio_add e w =
    (let w = w\<lparr>cw_ino := cw_ino w + 1\<rparr>;
         w = cpio_write (header_text (header_fields (cw_ino w) e)) w;
         w = cpio_write (ce_name e) w;
         w = cpio_write [nul] w;
         w = cpio_pad w;
         w = cpio_write (ce_data e) w
     in cpio_pad w)"

definition trailer_name :: string where "trailer_name = ''TRAILER!!!''"

definition trailer_field :: "nat \<Rightarrow> bytes" where
  "trailer_field i =
    (if i = 11 then hex_pad 8 (length trailer_name + 1)
     else if i = 4 then hex_pad 8 1 else ''00000000'')"

definition cpio_finish :: "cpioWriter \<Rightarrow> bytes" where
  "cpio_finish w =
    (let w = cpio_write ''070701'' w;
         w = foldl (\<lambda>w i. cpio_write (trailer_field i) w) w [0..<13];
         w = cpio_write trailer_name w;
         w = cpio_write [nul] w
     in cw_buf (cpio_pad w))"

definition dir_entry :: "string \<Rightarrow> cpioEntry" where
  "dir_entry d = \<lparr>ce_name = d, ce_mode = modeDir OR 0x1ED, ce_data = [],
     ce_rdevMajor = 0, ce_rdevMinor = 0\<rparr>"

definition console_entry :: cpioEntry where
  "console_entry = \<lparr>ce_name = ''dev/console'', ce_mode = modeChar OR 0x180, ce_data = [],
     ce_rdevMajor = 5, ce_rdevMinor = 1\<rparr>"

definition init_entry :: "bytes \<Rightarrow> cpioEntry" where
  "init_entry bin = \<lparr>ce_name = ''init'', ce_mode = modeFile OR 0x1ED, ce_data = bin,
     ce_rdevMajor = 0, ce_rdevMinor = 0\<rparr>"

definition buildInitramfs :: "bytes \<Rightarrow> bytes" where
  "buildInitramfs initBinary =
    (let w = foldl (\<lambda>w d. cpio_add (dir_entry d) w) new_writer [''dev'', ''proc'', ''sys'', ''tmp''];
         w = cpio_add console_entry w;
         w = cpio_add (init_entry initBinary) w
     in cpio_finish w)"

section \<open>Padding\<close>

definition pad_len :: "nat \<Rightarrow> nat" where
  "pad_len n = (4 - n mod 4) mod 4"

lemma pad_len_alt: "pad_len n = (3 * n) mod 4"
proof -
  have "n mod 4 = 0 \<or> n mod 4 = 1 \<or> n mod 4 = 2 \<or> n mod 4 = 3" by arith
  moreover have "(3 * n) mod 4 = (3 * (n mod 4)) mod 4" by (simp add: mod_mult_right_eq)
  ultimately show ?thesis by (auto simp: pad_len_def)
qed

lemma pad_len_aligned: "(n + pad_len n) mod 4 = 0"
  unfolding pad_len_alt by presburger

lemma pad_len_add: "m mod 4 = 0 \<Longrightarrow> pad_len (m + n) = pad_len n"
  unfolding pad_len_alt by presburger

lemma pad_len_step: "n mod 4 \<noteq> 0 \<Longrightarrow> pad_len n = Suc (pad_len (Suc n))"
  unfolding pad_len_alt by presburger

lemma pad_buf_eq: "pad_buf buf = buf @ replicate (pad_len (length buf)) nul"
proof (induction buf rule: pad_buf.induct)
  case (1 buf)
  show ?case
  proof (cases "length buf mod 4 = 0")
    case True
    then show ?thesis by (subst pad_buf.simps) (simp add: pad_len_def)
  next
    case False
    then show ?thesis
      using 1 by (subst pad_buf.simps) (simp add: pad_len_step [of "length buf"])
  qed
qed

lemma length_pad_buf: "length (pad_buf buf) mod 4 = 0"
  by (simp add: pad_buf_eq pad_len_aligned)

lemma buf_ops [simp]:
  "cw_buf (cpio_write bs w) = cw_buf w @ bs" "cw_ino (cpio_write bs w) = cw_ino w"
  "cw_buf (cpio_pad w) = pad_buf (cw_buf w)" "cw_ino (cpio_pad w) = cw_ino w"
  by (simp_all add: cpio_write_def cpio_pad_def)

lemma cpio_add_ino [simp]: "cw_ino (cpio_add e w) = cw_ino w + 1"
  by (simp add: cpio_add_def Let_def)

lemma cpio_add_aligned: "length (cw_buf (cpio_add e w)) mod 4 = 0"
  by (simp add: cpio_add_def Let_def length_pad_buf)

lemma cpio_finish_aligned: "length (cpio_finish w) mod 4 = 0"
  by (simp add: cpio_finish_def Let_def length_pad_buf)

section \<open>The reader\<close>

fun read_fields :: "nat \<Rightarrow> bytes \<Rightarrow> (nat list \<times> bytes) option" where
  "read_fields 0 bs = Some ([], bs)"
| "read_fields (Suc n) bs =
    (if length bs < 8 then None
     else case read_hex (take 8 bs) of None \<Rightarrow> None
     | Some v \<Rightarrow> map_option (\<lambda>(vs, r). (v # vs, r)) (read_fields n (drop 8 bs)))"

type_synonym newc_entry = "nat list \<times> string \<times> bytes"

definition newc_read :: "bytes \<Rightarrow> (newc_entry \<times> bytes) option" where
  "newc_read bs =
    (if take 6 bs \<noteq> ''070701'' then None
     else case read_fields 13 (drop 6 bs) of None \<Rightarrow> None
     | Some (fs, r) \<Rightarrow>
        let ns = fs ! 11; ds = fs ! 6; np = ns + pad_len (110 + ns); dp = ds + pad_len ds in
        if ns = 0 \<or> length r < np + dp \<or> r ! (ns - 1) \<noteq> nul then None
        else Some ((fs, take (ns - 1) r, take ds (drop np r)), drop (np + dp) r))"

definition is_trailer :: "newc_entry \<Rightarrow> bool" where
  "is_trailer e \<longleftrightarrow> fst (snd e) = ''TRAILER!!!''"

text \<open>Entries are read until the trailer; running out of fuel is \<open>None\<close>.\<close>

fun read_all :: "(bytes \<Rightarrow> ('e \<times> bytes) option) \<Rightarrow> ('e \<Rightarrow> bool) \<Rightarrow> nat \<Rightarrow> bytes \<Rightarrow> 'e list option" where
  "read_all rd stop 0 bs = None"
| "read_all rd stop (Suc n) bs =
    (case rd bs of None \<Rightarrow> None
     | Some (e, r) \<Rightarrow> if stop e then Some [] else map_option ((#) e) (read_all rd stop n r))"

section \<open>The interface between writer and reader\<close>

locale entry_codec =
  fixes enc :: "'e \<Rightarrow> bytes"
    and rd :: "bytes \<Rightarrow> ('e \<times> bytes) option"
    and ok :: "'e \<Rightarrow> bool"
  assumes rd_enc: "ok e \<Longrightarrow> rd (enc e @ rest) = Some (e, rest)"
begin

lemma read_all_concat:
  "list_all (\<lambda>e. ok e \<and> \<not> stop e) es \<Longrightarrow> ok t \<Longrightarrow> stop t \<Longrightarrow> length es < n \<Longrightarrow>
    read_all rd stop n (concat (map enc es) @ enc t @ rest) = Some es"
proof (induction es arbitrary: n)
  case Nil
  then obtain m where "n = Suc m" by (cases n) auto
  with Nil show ?case by (simp add: rd_enc)
next
  case (Cons e es)
  then obtain m where m: "n = Suc m" and "length es < m" by (cases n) auto
  with Cons have "read_all rd stop m (concat (map enc es) @ enc t @ rest) = Some es" by simp
  with Cons.prems m show ?case by (simp add: rd_enc)
qed

lemma enc_inj: "ok d \<Longrightarrow> ok e \<Longrightarrow> enc d = enc e \<Longrightarrow> d = e"
  by (metis rd_enc option.inject prod.inject)

end

definition newc_enc :: "newc_entry \<Rightarrow> bytes" where
  "newc_enc e = (case e of (fs, nm, d) \<Rightarrow>
    header_text fs @ nm @ [nul] @ replicate (pad_len (110 + length nm + 1)) nul @
    d @ replicate (pad_len (length d)) nul)"

definition newc_ok :: "newc_entry \<Rightarrow> bool" where
  "newc_ok e \<longleftrightarrow> (case e of (fs, nm, d) \<Rightarrow>
    length fs = 13 \<and> list_all (\<lambda>v. v < 2 ^ 32) fs \<and>
    fs ! 6 = length d \<and> fs ! 11 = length nm + 1)"

lemma hex_digit_upper: "d < 16 \<Longrightarrow> hex_digit_value (upper_digit d) = Some d"
  by (simp add: hex_digit_value_def of_char_upper_digit Let_def)

lemma those_hex_upper:
  "list_all (\<lambda>d. d < 16) ds \<Longrightarrow> those (map hex_digit_value (map upper_digit ds)) = Some ds"
  by (induction ds) (auto simp: hex_digit_upper)

lemma read_hex_pad [simp]: "read_hex (hex_pad w n) = Some n"
proof -
  have "list_all (\<lambda>d. d < 16) (replicate k 0 @ digits_of 16 n)" for k
    using digits_of_less [of 16 _ n] by (auto simp: list_all_iff)
  from those_hex_upper [OF this] show ?thesis
    by (simp add: read_hex_def hex_pad_def Let_def)
qed

lemma length_hex_pad: "length (hex_pad w n) = max w (length (digits_of 16 n))"
  by (simp add: hex_pad_def Let_def)

lemma length_hex_pad8: "length (hex_pad 8 n) = 8 \<longleftrightarrow> n < 2 ^ 32"
proof -
  have "length (digits_of 16 n) \<le> 8 \<longleftrightarrow> n < 16 ^ 8" by (rule length_digits_of) simp_all
  moreover have "(16::nat) ^ 8 = 2 ^ 32" by simp
  ultimately show ?thesis by (auto simp: length_hex_pad max_def)
qed

lemma read_fields_concat:
  "list_all (\<lambda>v. v < 2 ^ 32) fs \<Longrightarrow>
    read_fields (length fs) (concat (map (hex_pad 8) fs) @ rest) = Some (fs, rest)"
proof (induction fs)
  case (Cons v fs)
  then have "length (hex_pad 8 v) = 8" by (simp add: length_hex_pad8)
  with Cons show ?case by simp
qed simp

lemma length_header_text:
  "length fs = 13 \<Longrightarrow> list_all (\<lambda>v. v < 2 ^ 32) fs \<Longrightarrow> length (header_text fs) = 110"
proof -
  have "list_all (\<lambda>v. v < 2 ^ 32) xs \<Longrightarrow> length (concat (map (hex_pad 8) xs)) = 8 * length xs" for xs
    by (induction xs) (auto simp: length_hex_pad8)
  then show "length fs = 13 \<Longrightarrow> list_all (\<lambda>v. v < 2 ^ 32) fs \<Longrightarrow> length (header_text fs) = 110"
    by (simp add: header_text_def)
qed

lemma newc_read_enc: "newc_ok e \<Longrightarrow> newc_read (newc_enc e @ rest) = Some (e, rest)"
proof -
  assume ok: "newc_ok e"
  obtain fs nm d where e: "e = (fs, nm, d)" by (metis prod_cases3)
  let ?np = "replicate (pad_len (110 + length nm + 1)) nul"
  let ?dp = "replicate (pad_len (length d)) nul"
  let ?r = "nm @ [nul] @ ?np @ d @ ?dp @ rest"
  from ok have fs: "length fs = 13" "list_all (\<lambda>v. v < 2 ^ 32) fs"
    "fs ! 6 = length d" "fs ! 11 = Suc (length nm)"
    by (simp_all add: newc_ok_def e)
  have "newc_enc e @ rest = ''070701'' @ concat (map (hex_pad 8) fs) @ ?r"
    by (simp add: newc_enc_def header_text_def e)
  moreover have "read_fields 13 (concat (map (hex_pad 8) fs) @ ?r) = Some (fs, ?r)"
    using read_fields_concat [OF fs(2), of ?r] fs(1) by simp
  ultimately show ?thesis
    using fs by (simp add: newc_read_def e Let_def nth_append)
qed

interpretation newc: entry_codec newc_enc newc_read newc_ok
  by unfold_locales (rule newc_read_enc)

section \<open>The writer writes entries of the format\<close>

definition entry_of :: "32 word \<Rightarrow> cpioEntry \<Rightarrow> newc_entry" where
  "entry_of ino e = (header_fields ino e, ce_name e, ce_data e)"

definition trailer_entry :: newc_entry where
  "trailer_entry = ([0, 0, 0, 0, 1, 0, 0, 0, 0, 0, 0, 11, 0], trailer_name, [])"

lemma unat32_less [simp]: "unat (x :: 32 word) < 4294967296"
  using unsigned_less [of x, where ?'a = nat] by simp

lemma entry_of_ok:
  "length (ce_data e) < 2 ^ 32 \<Longrightarrow> length (ce_name e) + 1 < 2 ^ 32 \<Longrightarrow> newc_ok (entry_of ino e)"
  by (simp add: newc_ok_def entry_of_def header_fields_def)

lemma trailer_ok: "newc_ok trailer_entry" "is_trailer trailer_entry"
  by (simp_all add: newc_ok_def trailer_entry_def trailer_name_def is_trailer_def)

lemma cpio_add_buf:
  assumes "length (cw_buf w) mod 4 = 0"
    and "length (ce_data e) < 2 ^ 32" and "length (ce_name e) + 1 < 2 ^ 32"
  shows "cw_buf (cpio_add e w) = cw_buf w @ newc_enc (entry_of (cw_ino w + 1) e)"
proof -
  let ?h = "header_text (header_fields (cw_ino w + 1) e)"
  have "newc_ok (entry_of (cw_ino w + 1) e)" using assms by (intro entry_of_ok)
  then have h: "length ?h = 110"
    by (intro length_header_text) (simp_all add: newc_ok_def entry_of_def)
  let ?n = "cw_buf w @ ?h @ ce_name e @ [nul]"
  have n: "pad_len (length ?n) = pad_len (110 + length (ce_name e) + 1)"
    using pad_len_add [OF assms(1), of "110 + length (ce_name e) + 1"] h by simp
  have "length (pad_buf ?n) mod 4 = 0" by (rule length_pad_buf)
  then have d: "pad_len (length (pad_buf ?n @ ce_data e)) = pad_len (length (ce_data e))"
    using pad_len_add by simp
  have "cw_buf (cpio_add e w) = pad_buf (pad_buf ?n @ ce_data e)"
    by (simp add: cpio_add_def Let_def)
  also have "\<dots> = pad_buf ?n @ ce_data e @ replicate (pad_len (length (ce_data e))) nul"
    unfolding pad_buf_eq [of "pad_buf ?n @ ce_data e"] d by simp
  also have "\<dots> = cw_buf w @ newc_enc (entry_of (cw_ino w + 1) e)"
    unfolding pad_buf_eq [of ?n] n by (simp add: newc_enc_def entry_of_def)
  finally show ?thesis .
qed

lemma hex_pad_0: "hex_pad 8 0 = ''00000000''"
  by code_simp

lemma cpio_finish_buf:
  assumes "length (cw_buf w) mod 4 = 0"
  shows "cpio_finish w = cw_buf w @ newc_enc trailer_entry"
proof -
  have f: "cw_buf (foldl (\<lambda>w i. cpio_write (trailer_field i) w) w is) =
      cw_buf w @ concat (map trailer_field is)" for w "is"
    by (induction "is" arbitrary: w) auto
  have n: "Suc (length trailer_name) = 11" by (simp add: trailer_name_def)
  have t: "''070701'' @ concat (map trailer_field [0..<13]) =
      header_text [0, 0, 0, 0, 1, 0, 0, 0, 0, 0, 0, 11, 0]"
    by (simp add: trailer_field_def header_text_def hex_pad_0 n upt_rec)
  have h: "length (header_text [0, 0, 0, 0, 1, 0, 0, 0, 0, 0, 0, 11, 0]) = 110"
    by (rule length_header_text) simp_all
  let ?b = "cw_buf w @ header_text [0, 0, 0, 0, 1, 0, 0, 0, 0, 0, 0, 11, 0] @ trailer_name @ [nul]"
  have "cpio_finish w = pad_buf ?b"
    unfolding t [symmetric] by (simp add: cpio_finish_def Let_def f)
  moreover have "pad_len (length ?b) = pad_len (110 + length trailer_name + 1)"
    using pad_len_add [OF assms, of "110 + length trailer_name + 1"] h by simp
  ultimately show ?thesis
    by (simp add: pad_buf_eq newc_enc_def trailer_entry_def pad_len_def)
qed

text \<open>The entries of the archive, in order, with their inode numbers.\<close>

fun numbered :: "32 word \<Rightarrow> cpioEntry list \<Rightarrow> newc_entry list" where
  "numbered ino [] = []"
| "numbered ino (e # es) = entry_of (ino + 1) e # numbered (ino + 1) es"

definition cpio_add_all :: "cpioEntry list \<Rightarrow> cpioWriter \<Rightarrow> cpioWriter" where
  "cpio_add_all es w = foldl (\<lambda>w e. cpio_add e w) w es"

definition small_entry :: "cpioEntry \<Rightarrow> bool" where
  "small_entry e \<longleftrightarrow> length (ce_data e) < 2 ^ 32 \<and> length (ce_name e) + 1 < 2 ^ 32"

lemma cpio_add_all_aligned:
  "length (cw_buf w) mod 4 = 0 \<Longrightarrow> length (cw_buf (cpio_add_all es w)) mod 4 = 0"
  by (induction es arbitrary: w) (simp_all add: cpio_add_all_def cpio_add_aligned)

lemma cpio_add_all_buf:
  "length (cw_buf w) mod 4 = 0 \<Longrightarrow> list_all small_entry es \<Longrightarrow>
    cw_buf (cpio_add_all es w) = cw_buf w @ concat (map newc_enc (numbered (cw_ino w) es))"
proof (induction es arbitrary: w)
  case (Cons e es)
  have w: "cw_buf (cpio_add e w) = cw_buf w @ newc_enc (entry_of (cw_ino w + 1) e)"
    using Cons.prems by (intro cpio_add_buf) (auto simp: small_entry_def)
  have "list_all small_entry es" using Cons.prems by simp
  from Cons.IH [OF cpio_add_aligned this, of e w] show ?case
    by (simp add: cpio_add_all_def w)
qed (simp add: cpio_add_all_def)

lemma numbered_ok: "list_all small_entry es \<Longrightarrow> list_all newc_ok (numbered ino es)"
  by (induction ino es rule: numbered.induct) (auto simp: small_entry_def intro: entry_of_ok)

lemma cpio_archive_read:
  assumes "list_all small_entry es" and "list_all (\<lambda>e. ce_name e \<noteq> trailer_name) es"
  shows "read_all newc_read is_trailer (Suc (length es)) (cpio_finish (cpio_add_all es new_writer)) =
    Some (numbered 0 es)"
proof -
  let ?w = "cpio_add_all es new_writer"
  have w: "cw_buf ?w = concat (map newc_enc (numbered 0 es))" "length (cw_buf ?w) mod 4 = 0"
    using cpio_add_all_buf [of new_writer es] cpio_add_all_aligned [of new_writer es] assms(1)
    by (simp_all add: new_writer_def)
  have f: "cpio_finish ?w = concat (map newc_enc (numbered 0 es)) @ newc_enc trailer_entry @ []"
    using cpio_finish_buf [OF w(2)] w(1) by simp
  have len: "length (numbered ino es) = length es" for ino
    by (induction ino es rule: numbered.induct) auto
  have "list_all (\<lambda>e. ce_name e \<noteq> trailer_name) es \<Longrightarrow>
      list_all (\<lambda>e. \<not> is_trailer e) (numbered ino es)" for ino
    by (induction ino es rule: numbered.induct)
      (auto simp: is_trailer_def entry_of_def trailer_name_def)
  with assms numbered_ok [OF assms(1), of 0]
  have "list_all (\<lambda>e. newc_ok e \<and> \<not> is_trailer e) (numbered 0 es)"
    by (auto simp: list_all_iff)
  then show ?thesis
    unfolding f by (rule newc.read_all_concat [where stop = is_trailer, OF _ trailer_ok]) (simp add: len)
qed

definition initramfs_entries :: "bytes \<Rightarrow> cpioEntry list" where
  "initramfs_entries bin =
    map dir_entry [''dev'', ''proc'', ''sys'', ''tmp''] @ [console_entry, init_entry bin]"

lemma buildInitramfs_add_all:
  "buildInitramfs bin = cpio_finish (cpio_add_all (initramfs_entries bin) new_writer)"
  by (simp add: buildInitramfs_def cpio_add_all_def initramfs_entries_def)

lemma initramfs_entries_small:
  "length bin < 2 ^ 32 \<Longrightarrow> list_all small_entry (initramfs_entries bin)"
  by (simp add: initramfs_entries_def small_entry_def dir_entry_def console_entry_def init_entry_def)

lemma initramfs_entries_names:
  "list_all (\<lambda>e. ce_name e \<noteq> trailer_name) (initramfs_entries bin)"
  by (simp add: initramfs_entries_def trailer_name_def dir_entry_def console_entry_def init_entry_def)

end
