(* ===== verification/Guest_Net.thy ===== *)
theory Guest_Net
  imports Go_Strings Cpio "HOL-Library.Word"
begin

text \<open>
  The address plan of \<open>boot_linux.go\<close>: \<open>-guest-net\<close> is parsed and checked once
  (\<open>resolveGuestNet\<close>), and each microVM takes a /30 of it. The part of Go's \<open>net\<close> package
  that parses addresses and prefixes is modelled below it; an IPv6 zone is rejected where
  Go's parser is called, so the parser here refuses it at once.
\<close>

section \<open>Parsing addresses\<close>

type_synonym octets = "8 word list"

fun v4_go :: "string \<Rightarrow> nat \<Rightarrow> nat \<Rightarrow> nat \<Rightarrow> bool \<Rightarrow> octets \<Rightarrow> octets option" where
  "v4_go [] pos val digits start acc = (if pos < 3 then None else Some (acc @ [of_nat val]))"
| "v4_go (c # cs) pos val digits start acc =
    (if is_dec_digit c then
       (if digits = 1 \<and> val = 0 then None
        else if 255 < val * 10 + dec_digit c then None
        else v4_go cs pos (val * 10 + dec_digit c) (Suc digits) False acc)
     else if c = CHR ''.'' then
       (if start \<or> cs = [] then None
        else if pos = 3 then None
        else v4_go cs (Suc pos) 0 0 True (acc @ [of_nat val]))
     else None)"

definition parse_v4 :: "string \<Rightarrow> octets option" where
  "parse_v4 s = v4_go s 0 0 0 True []"

definition v6_finish :: "string \<Rightarrow> octets \<Rightarrow> nat option \<Rightarrow> octets option" where
  "v6_finish s acc ell =
    (if s \<noteq> [] then None
     else if length acc < 16 then
       (case ell of None \<Rightarrow> None
        | Some e \<Rightarrow> Some (take e acc @ replicate (16 - length acc) 0 @ drop e acc))
     else if ell \<noteq> None then None else Some acc)"

function v6_go :: "string \<Rightarrow> octets \<Rightarrow> nat option \<Rightarrow> octets option" where
  "v6_go s acc ell =
    (if 16 \<le> length acc then v6_finish s acc ell
     else
       let ds = takeWhile (\<lambda>c. hex_digit_value c \<noteq> None) s;
           r = dropWhile (\<lambda>c. hex_digit_value c \<noteq> None) s;
           v = (case read_hex ds of Some v \<Rightarrow> v | None \<Rightarrow> 0);
           acc' = acc @ [of_nat (v div 256), of_nat (v mod 256)]
       in if ds = [] \<or> 4 < length ds then None
          else case r of
            [] \<Rightarrow> v6_finish [] acc' ell
          | c # r' \<Rightarrow>
              if c = CHR ''.'' then
                (if ell = None \<and> length acc \<noteq> 12 \<or> 16 < length acc + 4 then None
                 else case parse_v4 s of None \<Rightarrow> None | Some q \<Rightarrow> v6_finish [] (acc @ q) ell)
              else if c \<noteq> CHR '':'' \<or> r' = [] then None
              else if hd r' = CHR '':'' then
                (if ell \<noteq> None then None
                 else if tl r' = [] then v6_finish [] acc' (Some (length acc'))
                 else v6_go (tl r') acc' (Some (length acc')))
              else v6_go r' acc' ell)"
  by pat_completeness auto
termination
proof (relation "measure (\<lambda>(s, acc, ell). length s)", goal_cases)
  case (2 s acc ell ds r v acc' c r')
  have "length r \<le> length s" unfolding 2(3) by (rule length_dropWhile_le)
  moreover have "length (tl r') < length r" unfolding 2(7) by simp
  ultimately show ?case by simp
next
  case (3 s acc ell ds r v acc' c r')
  have "length r \<le> length s" unfolding 3(3) by (rule length_dropWhile_le)
  moreover have "length r' < length r" unfolding 3(7) by simp
  ultimately show ?case by simp
qed simp

declare v6_go.simps [simp del]

definition parse_v6 :: "string \<Rightarrow> octets option" where
  "parse_v6 s =
    (if CHR ''%'' \<in> set s then None
     else if prefix ''::'' s then
       (if drop 2 s = [] then Some (replicate 16 0) else v6_go (drop 2 s) [] (Some 0))
     else v6_go s [] None)"

text \<open>\<open>netip.ParseAddr\<close>: the first of dot, colon and percent sign decides.\<close>

definition parse_addr :: "string \<Rightarrow> octets option" where
  "parse_addr s =
    (case find (\<lambda>c. c = CHR ''.'' \<or> c = CHR '':'' \<or> c = CHR ''%'') s of
       None \<Rightarrow> None
     | Some c \<Rightarrow> if c = CHR ''.'' then parse_v4 s else if c = CHR '':'' then parse_v6 s else None)"

definition as16 :: "octets \<Rightarrow> octets" where
  "as16 ip = (if length ip = 4 then replicate 10 0 @ [255, 255] @ ip else ip)"

definition to4 :: "octets \<Rightarrow> octets option" where
  "to4 ip =
    (if length ip = 4 then Some ip
     else if length ip = 16 \<and> take 10 ip = replicate 10 0 \<and> ip ! 10 = 255 \<and> ip ! 11 = 255
       then Some (drop 12 ip) else None)"

fun cidr_mask :: "nat \<Rightarrow> nat \<Rightarrow> octets" where
  "cidr_mask n 0 = []"
| "cidr_mask n (Suc l) =
    (if 8 \<le> n then 255 # cidr_mask (n - 8) l else NOT (drop_bit n 255) # cidr_mask 0 l)"

definition ip_mask :: "octets \<Rightarrow> octets \<Rightarrow> octets" where
  "ip_mask ip m =
    (let ip = (if length m = 4 \<and> length ip = 16 \<and> take 12 ip = replicate 10 0 @ [255, 255]
       then drop 12 ip else ip)
     in if length ip \<noteq> length m then [] else map2 (AND) ip m)"

text \<open>\<open>dtoi\<close>: the leading decimal digits, failing from 16777215 on.\<close>

definition dtoi_all :: "string \<Rightarrow> nat option" where
  "dtoi_all s =
    (if s \<noteq> [] \<and> list_all is_dec_digit s \<and> value_of 10 (map dec_digit s) < 16777215
     then Some (value_of 10 (map dec_digit s)) else None)"

record ip_net =
  net_IP :: octets
  net_ones :: nat
  net_bits :: nat

definition ParseCIDR :: "string \<Rightarrow> (octets \<times> ip_net) option" where
  "ParseCIDR s =
    (case cut s ''/'' of None \<Rightarrow> None
     | Some (addr, msk) \<Rightarrow>
        (case parse_addr addr of None \<Rightarrow> None
         | Some ip \<Rightarrow>
            (case dtoi_all msk of None \<Rightarrow> None
             | Some n \<Rightarrow>
                if 8 * length ip < n then None
                else Some (as16 ip,
                  \<lparr>net_IP = ip_mask (as16 ip) (cidr_mask n (length ip)),
                   net_ones = n, net_bits = 8 * length ip\<rparr>))))"

section \<open>The address plan\<close>

definition tapPrefix :: string where "tapPrefix = ''fcpf''"
definition echoPort :: nat where "echoPort = 52345"
definition guestNetmask :: string where "guestNetmask = ''255.255.255.252''"

definition vmBase :: "32 word \<Rightarrow> nat \<Rightarrow> 32 word" where
  "vmBase guestNetBase i = guestNetBase + of_nat i * 4"

definition byte_at :: "nat \<Rightarrow> 32 word \<Rightarrow> 8 word" where
  "byte_at k v = ucast (drop_bit k v)"

definition ipString :: "32 word \<Rightarrow> string" where
  "ipString v = dec (unat (byte_at 24 v)) @ ''.'' @ dec (unat (byte_at 16 v)) @ ''.'' @
    dec (unat (byte_at 8 v)) @ ''.'' @ dec (unat (byte_at 0 v))"

definition vmHostIP :: "32 word \<Rightarrow> nat \<Rightarrow> string" where
  "vmHostIP guestNetBase i = ipString (vmBase guestNetBase i + 1)"

definition vmGuestIP :: "32 word \<Rightarrow> nat \<Rightarrow> string" where
  "vmGuestIP guestNetBase i = ipString (vmBase guestNetBase i + 2)"

definition vmTap :: "nat \<Rightarrow> string" where
  "vmTap i = tapPrefix @ dec i"

definition vmMAC :: "32 word \<Rightarrow> nat \<Rightarrow> string" where
  "vmMAC guestNetBase i =
    (let b = vmBase guestNetBase i + 2 in
     ''06:00:'' @ hex_pad 2 (unat (byte_at 24 b)) @ '':'' @ hex_pad 2 (unat (byte_at 16 b)) @ '':'' @
     hex_pad 2 (unat (byte_at 8 b)) @ '':'' @ hex_pad 2 (unat (byte_at 0 b)))"

text \<open>
  \<open>1 << (bits - ones) / 4\<close> on 64-bit integers: the shift first, a count of 64 or more
  gives zero, a count of 63 the most negative number.
\<close>

definition avail_30s :: "nat \<Rightarrow> int" where
  "avail_30s k = (if k < 63 then 2 ^ k div 4 else if k = 63 then - (2 ^ 61) else 0)"

datatype net_result = NetErr string | NetPanic | NetOK "32 word"

definition u32_of_octets :: "octets \<Rightarrow> 32 word" where
  "u32_of_octets b = push_bit 24 (ucast (b ! 0)) OR push_bit 16 (ucast (b ! 1)) OR
    push_bit 8 (ucast (b ! 2)) OR ucast (b ! 3)"

definition resolveGuestNet :: "string \<Rightarrow> int \<Rightarrow> net_result" where
  "resolveGuestNet cidr vms =
    (case ParseCIDR cidr of
       None \<Rightarrow> NetErr (''-guest-net '' @ quote cidr @ '': '' @ ''invalid CIDR address: '' @ cidr)
     | Some (ip, ipnet) \<Rightarrow>
        (case to4 ip of
           None \<Rightarrow> NetErr (''-guest-net '' @ quote cidr @ '': must be IPv4'')
         | Some v4 \<Rightarrow>
            let avail = avail_30s (net_bits ipnet - net_ones ipnet) in
            if avail < vms then
              NetErr (''-guest-net '' @ cidr @ '' holds '' @ dec_int avail @
                '' /30s but -vms is '' @ dec_int vms)
            else (case to4 (net_IP ipnet) of
                None \<Rightarrow> NetPanic
              | Some base \<Rightarrow> NetOK (u32_of_octets base))))"

section \<open>Printing and parsing addresses\<close>

lemma value_of_Cons: "value_of b (d # ds) = d * b ^ length ds + value_of b ds"
  using value_of_append [of b "[d]" ds] by (simp add: value_of_def)

lemma v4_go_digits:
  "0 < val \<Longrightarrow> list_all (\<lambda>d. d < 10) ds \<Longrightarrow> val * 10 ^ length ds + value_of 10 ds \<le> 255 \<Longrightarrow>
    v4_go (map lower_digit ds @ rest) pos val k False acc =
    v4_go rest pos (val * 10 ^ length ds + value_of 10 ds) (k + length ds) False acc"
proof (induction ds arbitrary: val k)
  case (Cons d ds)
  have eq: "val * 10 ^ length (d # ds) + value_of 10 (d # ds) =
      (val * 10 + d) * 10 ^ length ds + value_of 10 ds"
    by (simp add: value_of_Cons algebra_simps)
  have "(val * 10 + d) * 1 \<le> (val * 10 + d) * 10 ^ length ds" by (rule mult_le_mono2) simp
  then have "val * 10 + d \<le> 255" using Cons.prems(3) unfolding eq mult_1_right by linarith
  with Cons eq show ?case by simp
qed simp

lemma v4_go_dec:
  assumes "n \<le> 255"
  shows "v4_go (dec n @ rest) pos 0 0 True acc = v4_go rest pos n (length (dec n)) False acc"
proof -
  obtain d ds where d: "digits_of 10 n = d # ds" by (cases "digits_of 10 n") auto
  have all: "list_all (\<lambda>d. d < 10) (d # ds)"
    using digits_of_less [of 10 _ n] d by (auto simp: list_all_iff)
  have v: "n = d * 10 ^ length ds + value_of 10 ds"
    using value_of_digits_of [of 10 n] d by (simp add: value_of_Cons)
  show ?thesis
  proof (cases "n = 0")
    case True
    have "digits_of 10 0 = [0]" by (subst digits_of.simps) simp
    with True show ?thesis by (simp add: dec_def)
  next
    case False
    then have "0 < d" using digits_of_head_nonzero [of 10 n] d by simp
    then have "v4_go (map lower_digit ds @ rest) pos d 1 False acc =
        v4_go rest pos n (1 + length ds) False acc"
      using v4_go_digits [of d ds rest pos 1 acc] all v assms by simp
    moreover have "d \<le> 255" using all by simp
    ultimately show ?thesis using all by (simp add: dec_def d)
  qed
qed

lemma unat8_le [simp]: "unat (b :: 8 word) \<le> 255"
  using unsigned_less [of b, where ?'a = nat] by simp

lemma parse_v4_ipString:
  "parse_v4 (ipString v) = Some [byte_at 24 v, byte_at 16 v, byte_at 8 v, byte_at 0 v]"
proof -
  have dot: "\<not> is_dec_digit CHR ''.''" by (simp add: is_dec_digit_iff)
  have last: "v4_go (dec n) pos 0 0 True acc = v4_go [] pos n (length (dec n)) False acc"
    if "n \<le> 255" for n pos acc
    using v4_go_dec [OF that, of "[]"] by simp
  show ?thesis
    by (simp add: parse_v4_def ipString_def v4_go_dec last dot)
qed

lemma byte_index:
  "j < 8 \<and> j div 8 = 0 \<and> j mod 8 = j \<or>
   8 \<le> j \<and> j < 16 \<and> j div 8 = 1 \<and> j mod 8 = j - 8 \<or>
   16 \<le> j \<and> j < 24 \<and> j div 8 = 2 \<and> j mod 8 = j - 16 \<or>
   24 \<le> j \<and> j < 32 \<and> j div 8 = 3 \<and> j mod 8 = j - 24 \<or> 32 \<le> j"
  for j :: nat
proof -
  have j: "j = 8 * (j div 8) + j mod 8" and r: "j mod 8 < 8" by simp_all
  have "j div 8 = 0 \<or> j div 8 = 1 \<or> j div 8 = 2 \<or> j div 8 = 3 \<or> 4 \<le> j div 8" by arith
  moreover have q: "8 * q \<le> j \<and> j < 8 * q + 8 \<and> j mod 8 = j - 8 * q" if "j div 8 = q" for q
    using j r that by linarith
  moreover have "j < 8 \<and> j mod 8 = j" if "j div 8 = 0" using q [OF that] by simp
  moreover have "8 \<le> j \<and> j < 16 \<and> j mod 8 = j - 8" if "j div 8 = 1" using q [OF that] by simp
  moreover have "16 \<le> j \<and> j < 24 \<and> j mod 8 = j - 16" if "j div 8 = 2" using q [OF that] by simp
  moreover have "24 \<le> j \<and> j < 32 \<and> j mod 8 = j - 24" if "j div 8 = 3" using q [OF that] by simp
  moreover have "32 \<le> j" if "4 \<le> j div 8" using j that by linarith
  ultimately show ?thesis by blast
qed

lemma bit_u32_of_octets:
  assumes "length b = 4"
  shows "bit (u32_of_octets b) j \<longleftrightarrow> j < 32 \<and> bit (b ! (3 - j div 8)) (j mod 8)"
proof -
  have hi: "\<not> bit (x :: 8 word) k" if "8 \<le> k" for x k
    using bit_imp_le_length [of x k] that by auto
  from byte_index [of j] show ?thesis
    by (elim disjE conjE) (auto simp: u32_of_octets_def bit_simps hi)
qed

lemma u32_of_octets_bytes:
  "u32_of_octets [byte_at 24 v, byte_at 16 v, byte_at 8 v, byte_at 0 v] = v"
proof (rule bit_eqI)
  fix j
  assume "possible_bit TYPE(32 word) j"
  then have "j < 32" by simp
  with byte_index [of j]
  show "bit (u32_of_octets [byte_at 24 v, byte_at 16 v, byte_at 8 v, byte_at 0 v]) j = bit v j"
    by (elim disjE conjE) (auto simp: bit_u32_of_octets byte_at_def bit_simps)
qed

lemma ipString_inj: "ipString v = ipString w \<longleftrightarrow> v = w"
proof
  assume "ipString v = ipString w"
  then have "parse_v4 (ipString v) = parse_v4 (ipString w)" by simp
  then show "v = w"
    by (metis option.inject parse_v4_ipString u32_of_octets_bytes)
qed simp

section \<open>Lengths of parsed addresses\<close>

lemma length_v4_go: "v4_go s pos val k st acc = Some b \<Longrightarrow> length acc = pos \<Longrightarrow> pos \<le> 3 \<Longrightarrow> length b = 4"
  by (induction s pos val k st acc rule: v4_go.induct) (auto split: if_splits)

lemma length_parse_v4: "parse_v4 s = Some b \<Longrightarrow> length b = 4"
  by (auto simp: parse_v4_def dest: length_v4_go)

lemma length_v6_finish:
  "v6_finish s acc ell = Some b \<Longrightarrow> length acc \<le> 16 \<Longrightarrow> (\<forall>e. ell = Some e \<longrightarrow> e \<le> length acc) \<Longrightarrow>
    length b = 16"
  by (auto simp: v6_finish_def split: if_splits option.splits)

lemma length_v6_go:
  "v6_go s acc ell = Some b \<Longrightarrow> length acc \<le> 16 \<Longrightarrow> even (length acc) \<Longrightarrow>
    (\<forall>e. ell = Some e \<longrightarrow> e \<le> length acc) \<Longrightarrow> length b = 16"
proof (induction s acc ell rule: v6_go.induct)
  case (1 s acc ell)
  show ?case
  proof (cases "16 \<le> length acc")
    case True
    with 1 show ?thesis by (subst (asm) v6_go.simps) (auto intro: length_v6_finish)
  next
    case False
    then have len: "length acc + 2 \<le> 16" using 1(5) by presburger
    define ds where "ds = takeWhile (\<lambda>c. hex_digit_value c \<noteq> None) s"
    define r where "r = dropWhile (\<lambda>c. hex_digit_value c \<noteq> None) s"
    define v where "v = (case read_hex ds of Some v \<Rightarrow> v | None \<Rightarrow> 0)"
    define acc' :: octets where "acc' = acc @ [of_nat (v div 256), of_nat (v mod 256)]"
    have acc': "length acc' = length acc + 2" by (simp add: acc'_def)
    note IH = 1(1,2) [OF False ds_def r_def v_def acc'_def]
    note step = 1(3) [unfolded v6_go.simps [of s acc ell] Let_def,
        folded ds_def r_def, folded v_def, folded acc'_def]
    have ds: "\<not> (ds = [] \<or> 4 < length ds)" using step False by (auto split: if_splits)
    have fin: "v6_finish [] acc' l = Some b \<Longrightarrow> (\<forall>e. l = Some e \<longrightarrow> e \<le> length acc') \<Longrightarrow> length b = 16" for l
      using len acc' by (intro length_v6_finish [of "[]" acc' l b]) auto
    have ell: "\<forall>e. ell = Some e \<longrightarrow> e \<le> length acc'" using 1(6) acc' by auto
    show ?thesis
    proof (cases r)
      case Nil
      with step False ds ell fin show ?thesis by auto
    next
      case (Cons c r')
      consider (dot) "c = CHR ''.''"
        | (ellipsis) "c = CHR '':''" "r' \<noteq> []" "hd r' = CHR '':''"
        | (colon) "c = CHR '':''" "r' \<noteq> []" "hd r' \<noteq> CHR '':''"
        using step False ds Cons by (auto split: if_splits)
      then show ?thesis
      proof cases
        case dot
        then obtain q where q: "parse_v4 s = Some q" "v6_finish [] (acc @ q) ell = Some b"
            "length acc + 4 \<le> 16"
          using step False ds Cons by (auto split: if_splits option.splits)
        then show ?thesis using 1(6) length_parse_v4 [OF q(1)]
          by (intro length_v6_finish [OF q(2)]) auto
      next
        case ellipsis
        then have "ell = None" using step False ds Cons by (auto split: if_splits)
        then show ?thesis
          using step False ds Cons ellipsis fin [of "Some (length acc')"]
            IH(1) [OF ds Cons] len acc' 1(5)
          by (auto split: if_splits)
      next
        case colon
        then show ?thesis
          using step False ds Cons IH(2) [OF ds Cons] len acc' 1(5) ell by auto
      qed
    qed
  qed
qed

lemma length_parse_addr: "parse_addr s = Some b \<Longrightarrow> length b = 4 \<or> length b = 16"
  by (auto simp: parse_addr_def parse_v6_def split: option.splits if_splits
      dest: length_parse_v4 length_v6_go)

section \<open>The resolved range\<close>

lemma length_cidr_mask [simp]: "length (cidr_mask n l) = l"
  by (induction n l rule: cidr_mask.induct) auto

lemma bit_255 [simp]: "bit (255 :: 8 word) i \<longleftrightarrow> i < 8"
proof -
  have "(255 :: 8 word) = mask 8" by (simp add: mask_eq_exp_minus_1)
  then show ?thesis unfolding \<open>(255 :: 8 word) = mask 8\<close> by (simp only: bit_mask_iff) auto
qed

lemma bit_cidr_mask:
  "k < l \<Longrightarrow> i < 8 \<Longrightarrow> bit (cidr_mask n l ! k) i \<longleftrightarrow> 8 * k + 7 - i < n"
proof (induction n l arbitrary: k rule: cidr_mask.induct)
  case (2 n l)
  show ?case
  proof (cases k)
    case 0
    with 2 show ?thesis by (auto simp: bit_simps simp del: bit_numeral_word_iff)
  next
    case (Suc k')
    with 2 show ?thesis by (cases "8 \<le> n") auto
  qed
qed simp

text \<open>
  A base whose octets only have bits of the first \<open>32 - h\<close> positions is a multiple of
  \<open>2 ^ h\<close>.
\<close>

lemma dvd_u32_of_octets:
  assumes "length b = 4" and "h \<le> 32"
    and bits: "\<And>k i. k < 4 \<Longrightarrow> i < 8 \<Longrightarrow> bit (b ! k) i \<Longrightarrow> 8 * k + 7 - i < 32 - h"
  shows "2 ^ h dvd unat (u32_of_octets b)"
proof -
  have "\<not> bit (u32_of_octets b) j" if "j < h" for j
  proof
    assume "bit (u32_of_octets b) j"
    then have j: "j < 32" and "bit (b ! (3 - j div 8)) (j mod 8)"
      by (simp_all add: bit_u32_of_octets [OF assms(1)])
    then have "8 * (3 - j div 8) + 7 - j mod 8 < 32 - h" by (intro bits) auto
    moreover have "8 * (3 - j div 8) + 7 - j mod 8 = 31 - j"
      using byte_index [of j] j by (elim disjE conjE) simp_all
    ultimately show False using that j by simp
  qed
  then have "take_bit h (u32_of_octets b) = 0"
    by (intro bit_eqI) (auto simp: bit_simps)
  then have "take_bit h (unat (u32_of_octets b)) = 0"
    by (metis unsigned_0 unsigned_take_bit_eq)
  then show ?thesis by (simp add: take_bit_eq_0_iff)
qed

lemma to4_length: "to4 ip = Some b \<Longrightarrow> length b = 4"
  by (auto simp: to4_def split: if_splits)

definition good_range :: "32 word \<Rightarrow> int \<Rightarrow> nat \<Rightarrow> bool" where
  "good_range base vms h \<longleftrightarrow>
    h \<le> 32 \<and> 2 ^ h dvd unat base \<and> unat base + 2 ^ h \<le> 2 ^ 32 \<and> vms \<le> 2 ^ h div 4"

lemma dvd_below:
  "2 ^ h dvd n \<Longrightarrow> n < 2 ^ 32 \<Longrightarrow> h \<le> 32 \<Longrightarrow> n + 2 ^ h \<le> (2::nat) ^ 32"
proof -
  assume "2 ^ h dvd n" "n < 2 ^ 32" "h \<le> 32"
  then obtain q where q: "n = 2 ^ h * q" by (auto elim: dvdE)
  have e: "(2::nat) ^ 32 = 2 ^ h * 2 ^ (32 - h)"
    using \<open>h \<le> 32\<close> by (simp flip: power_add)
  with q \<open>n < 2 ^ 32\<close> have "q < 2 ^ (32 - h)" by (metis mult_less_cancel1)
  then have "2 ^ h * (q + 1) \<le> 2 ^ h * 2 ^ (32 - h)" by (intro mult_le_mono2) simp
  with q e show "n + 2 ^ h \<le> 2 ^ 32" by simp
qed

lemma good_rangeI:
  assumes "length b = 4" and "h \<le> 32" and "vms \<le> avail_30s h"
    and "\<And>k i. k < 4 \<Longrightarrow> i < 8 \<Longrightarrow> bit (b ! k) i \<Longrightarrow> 8 * k + 7 - i < 32 - h"
  shows "good_range (u32_of_octets b) vms h"
proof -
  have d: "2 ^ h dvd unat (u32_of_octets b)" by (rule dvd_u32_of_octets) (use assms in auto)
  have "unat (u32_of_octets b) < 2 ^ 32" by simp
  from dvd_below [OF d this assms(2)] d assms(2,3) show ?thesis
    by (simp add: good_range_def avail_30s_def)
qed

lemma nth_map2_AND:
  "length xs = length ys \<Longrightarrow> k < length ys \<Longrightarrow> map2 (AND) xs ys ! k = xs ! k AND ys ! k"
  for xs ys :: octets
  by simp

lemma resolveGuestNet_good:
  assumes "resolveGuestNet cidr vms = NetOK base"
  shows "\<exists>h. good_range base vms h"
proof -
  from assms obtain ip ipnet b where p: "ParseCIDR cidr = Some (ip, ipnet)"
    and av: "vms \<le> avail_30s (net_bits ipnet - net_ones ipnet)"
    and b: "to4 (net_IP ipnet) = Some b" and base: "base = u32_of_octets b"
    by (auto simp: resolveGuestNet_def Let_def split: option.splits prod.splits if_splits)
  from p obtain a n where a: "length a = 4 \<or> length a = 16" and n: "n \<le> 8 * length a"
    and net: "net_IP ipnet = ip_mask (as16 a) (cidr_mask n (length a))"
      "net_ones ipnet = n" "net_bits ipnet = 8 * length a"
    by (auto simp: ParseCIDR_def split: option.splits prod.splits if_splits dest: length_parse_addr)
  have len: "length b = 4" using b by (rule to4_length)
  show ?thesis
  proof (cases "length a = 4")
    case True
    have "ip_mask (as16 a) (cidr_mask n 4) = map2 (AND) a (cidr_mask n 4)"
      using True by (simp add: ip_mask_def as16_def Let_def)
    with b net True have bm: "b = map2 (AND) a (cidr_mask n 4)" by (simp add: to4_def)
    have "good_range base vms (32 - n)" unfolding base
    proof (rule good_rangeI [OF len])
      show "vms \<le> avail_30s (32 - n)" using av net True by simp
      fix k i :: nat
      assume "k < 4" "i < 8" "bit (b ! k) i"
      then have "bit (cidr_mask n 4 ! k) i" using True by (simp add: bm bit_simps)
      then show "8 * k + 7 - i < 32 - (32 - n)"
        using bit_cidr_mask [OF \<open>k < 4\<close> \<open>i < 8\<close>] n True by simp
    qed simp
    then show ?thesis ..
  next
    case False
    with a have a16: "length a = 16" by simp
    let ?m = "map2 (AND) a (cidr_mask n 16)"
    have net': "net_IP ipnet = ?m" using net a16 by (simp add: ip_mask_def as16_def Let_def)
    have m16: "length ?m = 16" using a16 by simp
    from b net' m16 have b': "b = drop 12 ?m" and m11: "?m ! 11 = 255"
      by (auto simp: to4_def split: if_splits)
    have "bit (?m ! 11) 0" unfolding m11 by simp
    then have "bit (cidr_mask n 16 ! 11) 0" using a16 by (simp add: bit_simps)
    then have n96: "96 \<le> n" using bit_cidr_mask [of 11 16 0 n] by simp
    have "good_range base vms (128 - n)" unfolding base
    proof (rule good_rangeI [OF len])
      show "128 - n \<le> 32" using n96 by simp
      show "vms \<le> avail_30s (128 - n)" using av net a16 by simp
      fix k i :: nat
      assume k: "k < 4" "i < 8" "bit (b ! k) i"
      then have "bit (?m ! (12 + k)) i" using m16 by (simp add: b')
      then have "bit (cidr_mask n 16 ! (12 + k)) i"
        using k a16 by (simp add: bit_simps nth_map2_AND)
      then show "8 * k + 7 - i < 32 - (128 - n)"
        using bit_cidr_mask [of "12 + k" 16 i n] k n a16 n96 by simp
    qed
    then show ?thesis ..
  qed
qed

text \<open>In a resolved range the offsets of a microVM's /30 are computed without wrap-around.\<close>

lemma good_range_address:
  assumes "good_range base vms h" and "int i < vms" and "k < 4"
  shows "unat (vmBase base i + of_nat k) = unat base + 4 * i + k"
    and "unat base + 4 * i + k < unat base + 2 ^ h"
proof -
  have "int i < 2 ^ h div 4" using assms by (simp add: good_range_def)
  then have "4 * int i + 4 \<le> 2 ^ h" by linarith
  then have "int (4 * i + 4) \<le> int (2 ^ h)" by simp
  then have "4 * i + 4 \<le> 2 ^ h" by (simp only: of_nat_le_iff)
  then show lt: "unat base + 4 * i + k < unat base + 2 ^ h" using assms(3) by simp
  then have "unat base + 4 * i + k < 2 ^ 32" using assms(1) by (simp add: good_range_def)
  moreover have "vmBase base i + of_nat k = of_nat (unat base + 4 * i + k)"
    by (simp add: vmBase_def)
  ultimately show "unat (vmBase base i + of_nat k) = unat base + 4 * i + k"
    by (simp only: unat_of_nat) simp
qed

lemma good_range_disjoint:
  assumes "good_range base vms h" and "int i < vms" and "int j < vms" and "k < 4" and "l < 4"
  shows "vmBase base i + of_nat k = vmBase base j + of_nat l \<longleftrightarrow> i = j \<and> k = l"
proof
  assume "vmBase base i + of_nat k = vmBase base j + of_nat l"
  then have "unat base + 4 * i + k = unat base + 4 * j + l"
    using good_range_address(1) [OF assms(1,2,4)] good_range_address(1) [OF assms(1,3,5)] by simp
  then show "i = j \<and> k = l" using assms(4,5) by arith
qed simp

lemma length_hex_pad2: "n \<le> 255 \<Longrightarrow> length (hex_pad 2 n) = 2"
  using length_digits_of [of 16 2 n] by (simp add: length_hex_pad)

lemma hex_pad_inj: "hex_pad w m = hex_pad w n \<longleftrightarrow> m = n"
  by (metis option.inject read_hex_pad)

lemma vmMAC_inj:
  assumes "vmMAC base i = vmMAC base j"
  shows "vmBase base i = vmBase base j"
proof -
  let ?b = "vmBase base i + 2" and ?c = "vmBase base j + 2"
  have len: "length (hex_pad 2 (unat (x :: 8 word))) = 2" for x by (rule length_hex_pad2) simp
  from assms have "byte_at 24 ?b = byte_at 24 ?c" "byte_at 16 ?b = byte_at 16 ?c"
    "byte_at 8 ?b = byte_at 8 ?c" "byte_at 0 ?b = byte_at 0 ?c"
    by (simp_all add: vmMAC_def Let_def len hex_pad_inj word_unat_eq_iff)
  then have "?b = ?c" by (metis u32_of_octets_bytes)
  then show ?thesis by simp
qed

section \<open>The default range\<close>

lemma cidr_mask_22: "cidr_mask 22 4 = [255, 255, - 4, - 256]"
proof -
  have "cidr_mask 22 (Suc (Suc (Suc (Suc 0)))) = [255, 255, - 4, - 256]"
    by simp
  then show ?thesis by (simp add: numeral_eq_Suc)
qed

lemma ParseCIDR_default:
  "ParseCIDR ''172.31.240.0/22'' = Some (as16 [172, 31, 240, 0],
    \<lparr>net_IP = [172, 31, 240, 0], net_ones = 22, net_bits = 32\<rparr>)"
proof -
  have "cut ''172.31.240.0/22'' ''/'' = Some (''172.31.240.0'', ''22'')" by (simp add: cut_single)
  moreover have "parse_addr ''172.31.240.0'' = Some [172, 31, 240, 0]"
    by (simp add: parse_addr_def parse_v4_def is_dec_digit_iff dec_digit_def)
  moreover have "dtoi_all ''22'' = Some 22"
    by (simp add: dtoi_all_def is_dec_digit_iff dec_digit_def value_of_def)
  moreover have "ip_mask (as16 [172, 31, 240, 0]) [255, 255, - 4, - 256] = [172, 31, 240, 0]"
    by (simp add: ip_mask_def as16_def)
  ultimately show ?thesis by (simp add: ParseCIDR_def cidr_mask_22)
qed

lemma to4_4 [simp]: "length ip = 4 \<Longrightarrow> to4 ip = Some ip"
  by (simp add: to4_def)

lemma to4_as16 [simp]: "length ip = 4 \<Longrightarrow> to4 (as16 ip) = Some ip"
  by (simp add: to4_def as16_def nth_append)

text \<open>The default range of the \<open>-guest-net\<close> flag has 256 blocks.\<close>

lemma resolveGuestNet_default:
  "vms \<le> 256 \<Longrightarrow> resolveGuestNet ''172.31.240.0/22'' vms = NetOK 0xAC1FF000"
  by (simp add: resolveGuestNet_def ParseCIDR_default avail_30s_def u32_of_octets_def)

section \<open>A mapped range\<close>

definition mapped_ip :: octets where "mapped_ip = [0, 0, 0, 0, 0, 0, 0, 0, 0, 0, 255, 255, 10, 0, 0, 0]"
lemma hex_digits: "hex_digit_value CHR ''f'' = Some 15" "hex_digit_value CHR '':'' = None" "hex_digit_value CHR ''1'' = Some 1" "hex_digit_value CHR ''0'' = Some 0" "hex_digit_value CHR ''.'' = None"
  by (simp_all add: hex_digit_value_def Let_def)

lemma replicate_10: "replicate 10 (0 :: 8 word) = [0, 0, 0, 0, 0, 0, 0, 0, 0, 0]"
  by (simp add: numeral_eq_Suc)

lemma parse_v6_mapped: "parse_v6 ''::ffff:10.0.0.0'' = Some mapped_ip"
proof -
  have "parse_v4 ''10.0.0.0'' = Some [10, 0, 0, 0]"
    by (simp add: parse_v4_def is_dec_digit_iff dec_digit_def)
  then have "v6_go ''10.0.0.0'' [255, 255] (Some 0) = Some mapped_ip"
    by (subst v6_go.simps) (simp add: hex_digits Let_def v6_finish_def mapped_ip_def replicate_10)
  then have "v6_go ''ffff:10.0.0.0'' [] (Some 0) = Some mapped_ip"
    by (subst v6_go.simps) (simp add: hex_digits Let_def read_hex_def value_of_def)
  then show ?thesis by (simp add: parse_v6_def)
qed

lemma cidr_mask_90: "cidr_mask 90 16 = [255, 255, 255, 255, 255, 255, 255, 255, 255, 255, 255, - 64, 0, 0, 0, 0]"
proof -
  have "cidr_mask 90 (Suc (Suc (Suc (Suc (Suc (Suc (Suc (Suc (Suc (Suc (Suc (Suc (Suc (Suc (Suc (Suc 0)))))))))))))))) =
      [255, 255, 255, 255, 255, 255, 255, 255, 255, 255, 255, - 64, 0, 0, 0, 0]"
    by simp
  then show ?thesis by (simp add: numeral_eq_Suc)
qed

text \<open>
  A range that is written as an IPv4-mapped IPv6 prefix shorter than 96 bits is accepted and then
  indexed as if it were an IPv4 address.
\<close>

lemma resolveGuestNet_mapped: "resolveGuestNet ''::ffff:10.0.0.0/90'' 1 = NetPanic"
proof -
  have "cut ''::ffff:10.0.0.0/90'' ''/'' = Some (''::ffff:10.0.0.0'', ''90'')" by (simp add: cut_single)
  moreover have "dtoi_all ''90'' = Some 90"
    by (simp add: dtoi_all_def is_dec_digit_iff dec_digit_def value_of_def)
  moreover have "parse_addr ''::ffff:10.0.0.0'' = Some mapped_ip" by (simp add: parse_addr_def parse_v6_mapped)
  moreover have "length mapped_ip = 16" "as16 mapped_ip = mapped_ip" "to4 mapped_ip = Some [10, 0, 0, 0]"
    by (simp_all add: mapped_ip_def as16_def to4_def replicate_10)
  moreover have "ip_mask mapped_ip (cidr_mask 90 16) = [0, 0, 0, 0, 0, 0, 0, 0, 0, 0, 255, 192, 0, 0, 0, 0]"
    by (simp add: ip_mask_def mapped_ip_def cidr_mask_90)
  moreover have "to4 ([0, 0, 0, 0, 0, 0, 0, 0, 0, 0, 255, 192, 0, 0, 0, 0]) = None"
    by (simp add: to4_def replicate_10)
  ultimately show ?thesis
    by (simp add: resolveGuestNet_def ParseCIDR_def avail_30s_def)
qed

end
