(* ===== verification/Boot.thy ===== *)
theory Boot
  imports Effects Guest_Report Guest_Net Messages
begin

text \<open>
  One microVM from \<open>boot_linux.go\<close>: its tap device, its echo server, its scratch disk and
  configuration, the run of Firecracker and what its console says (\<open>bootOne\<close>). Every early
  return is a branch, and what a \<open>defer\<close> releases is released on each of them.
\<close>

section \<open>The console\<close>

definition guestReportPrefix :: string where "guestReportPrefix = ''FCPF-REPORT ''"
definition guestLogPrefix :: string where "guestLogPrefix = ''FCPF-LOG ''"
definition consoleTailLines :: nat where "consoleTailLines = 120"
definition defaultBootArgs :: string where
  "defaultBootArgs = ''console=ttyS0 reboot=k panic=1 pci=off''"

definition diagnoseConsole :: "string list \<Rightarrow> string" where
  "diagnoseConsole ls =
    (let joined = join [newline] ls in
     if contains joined ''Failed to execute /init (error -2)'' then diag_exec
     else if contains joined ''Initramfs unpacking failed'' then diag_unpack
     else if contains joined ''No working init found'' then diag_no_init
     else if contains joined ''Kernel panic'' then diag_panic
     else [])"

text \<open>The outcome of a microVM. A nil slice and an empty one are not told apart: both are left out.\<close>

record vm_outcome =
  vo_Index :: nat
  vo_BootMS :: f64
  vo_TotalMS :: f64
  vo_Guest :: "guest_report option"
  vo_Err :: string
  vo_Console :: "string list"
  vo_ExitCode :: int

definition new_outcome :: "nat \<Rightarrow> vm_outcome" where
  "new_outcome i = \<lparr>vo_Index = i, vo_BootMS = f_zero, vo_TotalMS = f_zero, vo_Guest = None,
     vo_Err = [], vo_Console = [], vo_ExitCode = 0\<rparr>"

text \<open>The last lines of the console, and what a line with the report's prefix does.\<close>

definition push_tail :: "string list \<Rightarrow> string \<Rightarrow> string list" where
  "push_tail tail line =
    (if consoleTailLines \<le> length tail then tl tail else tail) @ [line]"

definition take_report :: "env \<Rightarrow> string \<Rightarrow> vm_outcome \<Rightarrow> vm_outcome" where
  "take_report E line out =
    (case cut line guestReportPrefix of None \<Rightarrow> out
     | Some (before, payload) \<Rightarrow>
        (let text = trim_space payload in
         case unmarshal_report text of
           None \<Rightarrow> out\<lparr>vo_Err := ''parse guest report: '' @ json_error E text\<rparr>
         | Some gr \<Rightarrow> out\<lparr>vo_Guest := Some gr, vo_BootMS := f_mul (gr_UptimeAtStart gr) (f_of_int 1000)\<rparr>))"

definition read_console :: "env \<Rightarrow> nat \<Rightarrow> string list \<Rightarrow> vm_outcome \<Rightarrow> (string list \<times> vm_outcome) go" where
  "read_console E i ls out = for_acc ls ([], out) (\<lambda>line (tail, out). do {
     (if fl_verbose E then emit (EvStderr (''  vm'' @ dec i @ ''| '' @ line @ [newline])) else return ());
     return (push_tail tail line, take_report E line out) })"

section \<open>The network of a microVM\<close>

definition run_command :: "env \<Rightarrow> string list \<Rightarrow> os_error option go" where
  "run_command E argv = do {
     (out, err) \<leftarrow> go_output E argv;
     return (case err of None \<Rightarrow> None
       | Some e \<Rightarrow> Some (errorf (hd argv @ '' '' @ join '' '' (tl argv) @ '': '' @ err_text e @ '': '' @
           trim_space out))) }"

definition del_tap :: "string \<Rightarrow> string list" where
  "del_tap tap = [''ip'', ''link'', ''del'', tap]"

definition add_tap :: "string \<Rightarrow> string list" where
  "add_tap tap = [''ip'', ''tuntap'', ''add'', ''dev'', tap, ''mode'', ''tap'']"

definition setupTap :: "env \<Rightarrow> 32 word \<Rightarrow> nat \<Rightarrow> os_error option go" where
  "setupTap E net i = do {
     run_command E (del_tap (vmTap i));
     unless_error (run_command E (add_tap (vmTap i))) (\<lambda>e. return (Some e))
       (unless_error (run_command E [''ip'', ''addr'', ''add'', vmHostIP net i @ ''/30'', ''dev'', vmTap i])
         (\<lambda>e. return (Some e))
         (run_command E [''ip'', ''link'', ''set'', ''dev'', vmTap i, ''up''])) }"

definition teardownTap :: "env \<Rightarrow> string \<Rightarrow> unit go" where
  "teardownTap E tap = do { run_command E (del_tap tap); return () }"

text \<open>The listener; its connections are served until the context of the microVM is cancelled.\<close>

definition echoServer :: "env \<Rightarrow> string \<Rightarrow> os_error option go" where
  "echoServer E addr = effect (EvListen addr) (\<lambda>h. os_listen E h addr)"

text \<open>\<open>net.JoinHostPort\<close>: a host with a colon is put in brackets.\<close>

definition join_host_port :: "string \<Rightarrow> string \<Rightarrow> string" where
  "join_host_port host port = (if CHR '':'' \<in> set host then ''['' @ host @ '']:'' @ port else host @ '':'' @ port)"

definition echo_address :: "32 word \<Rightarrow> nat \<Rightarrow> string" where
  "echo_address net i = join_host_port (vmHostIP net i) (dec echoPort)"

section \<open>The configuration\<close>

definition boot_args :: "env \<Rightarrow> 32 word \<Rightarrow> nat \<Rightarrow> string" where
  "boot_args E net i = fl_boot_args E @ '' fcpf.ip='' @ vmGuestIP net i @ '' fcpf.mask='' @ guestNetmask @
     '' fcpf.host='' @ vmHostIP net i @ '' fcpf.port='' @ dec echoPort @ '' fcpf.disk='' @ ''/dev/vda''"

definition vm_config :: "env \<Rightarrow> 32 word \<Rightarrow> nat \<Rightarrow> string \<Rightarrow> string \<Rightarrow> string \<Rightarrow> any" where
  "vm_config E net i kern initramfs scratch = AMap
     [(''boot-source'', AMap
        [(''boot_args'', AStr (boot_args E net i)), (''initrd_path'', AStr initramfs),
         (''kernel_image_path'', AStr kern)]),
      (''drives'', AList [AMap
        [(''drive_id'', AStr ''scratch''), (''is_read_only'', ABool False),
         (''is_root_device'', ABool False), (''path_on_host'', AStr scratch)]]),
      (''machine-config'', AMap
        [(''mem_size_mib'', AInt (fl_mem E)), (''smt'', ABool False), (''vcpu_count'', AInt (fl_vcpus E))]),
      (''network-interfaces'', AList [AMap
        [(''guest_mac'', AStr (vmMAC net i)), (''host_dev_name'', AStr (vmTap i)),
         (''iface_id'', AStr ''eth0'')]])]"

definition config_text :: "any \<Rightarrow> bytes" where
  "config_text cfg = (case encode indented 0 cfg of Some s \<Rightarrow> s | None \<Rightarrow> [])"

section \<open>One microVM\<close>

definition go_truncate :: "env \<Rightarrow> string \<Rightarrow> nat \<Rightarrow> os_error option go" where
  "go_truncate E p n = effect (EvTruncate p n) (\<lambda>h. os_truncate E h p n)"

definition failed_with :: "vm_outcome \<Rightarrow> string \<Rightarrow> os_error \<Rightarrow> vm_outcome go" where
  "failed_with out what e = return (out\<lparr>vo_Err := what @ '': '' @ err_text e\<rparr>)"

definition no_report :: "env \<Rightarrow> vm_run \<Rightarrow> string" where
  "no_report E run = (if vr_deadline run
     then ''timed out after '' @ dec_int (fl_boot_timeout E) @ ''s with no report from the guest''
     else ''guest produced no report'')"

definition finish_run :: "env \<Rightarrow> vm_run \<Rightarrow> string list \<Rightarrow> vm_outcome \<Rightarrow> vm_outcome" where
  "finish_run E run tail out =
    (let out = out\<lparr>vo_TotalMS := f_div (f_of_int (vr_micros run)) (f_of_int 1000),
                   vo_Console := tail,
                   vo_ExitCode := (case vr_exit run of Some c \<Rightarrow> c | None \<Rightarrow> vo_ExitCode out)\<rparr>
     in if vo_Guest out = None \<and> vo_Err out = [] then out\<lparr>vo_Err := no_report E run\<rparr> else out)"

text \<open>Start Firecracker, read its console to the end and wait for it.\<close>

definition run_vm :: "env \<Rightarrow> nat \<Rightarrow> string list \<Rightarrow> vm_outcome \<Rightarrow> vm_outcome go" where
  "run_vm E i argv out = do {
     pipe \<leftarrow> ask (os_pipe E);
     case pipe of Some e \<Rightarrow> failed_with out ''stdout pipe'' e
     | None \<Rightarrow> do {
         started \<leftarrow> effect (EvStart argv) (\<lambda>h. os_vm E h argv);
         case started of Inl e \<Rightarrow> failed_with out ''start firecracker'' e
         | Inr run \<Rightarrow> do {
             (tail, out) \<leftarrow> read_console E i (fst (scan_lines big_token_max (vr_output run))) out;
             emit (EvWait argv);
             return (finish_run E run tail out) } } }"

definition bootOne ::
    "env \<Rightarrow> 32 word \<Rightarrow> nat \<Rightarrow> string \<Rightarrow> string \<Rightarrow> string \<Rightarrow> string \<Rightarrow> vm_outcome go" where
  "bootOne E net i fcBin kern initramfs workDir =
    (let out = new_outcome i;
         scratch = path_join workDir (''scratch'' @ dec i @ ''.img'');
         cfgPath = path_join workDir (''config'' @ dec i @ ''.json'') in
     unless_error (setupTap E net i) (failed_with out ''tap setup'')
      (deferring (teardownTap E (vmTap i))
        (unless_error (echoServer E (echo_address net i)) (failed_with out ''echo server'')
          (deferring (emit (EvUnlisten (echo_address net i)))
            (unless_error (go_create E scratch) (failed_with out ''scratch disk'')
              (unless_error (go_truncate E scratch (push_bit 20 64)) (failed_with out ''scratch disk truncate'')
                (deferring (go_remove scratch)
                  (unless_error
                    (go_write E cfgPath (config_text (vm_config E net i kern initramfs scratch)))
                    (failed_with out ''write config'')
                    (run_vm E i [fcBin, ''--no-api'', ''--config-file'', cfgPath] out)))))))))"

section \<open>The console of a microVM\<close>

text \<open>What is kept of the console is its last 120 lines.\<close>

lemma console_loop_tail:
  "fst (result_of (for_acc ls (take_last consoleTailLines seen, out) (\<lambda>line (tail, out). do {
     (if fl_verbose E then emit (EvStderr (''  vm'' @ dec i @ ''| '' @ line @ [newline])) else return ());
     return (push_tail tail line, take_report E line out) })) w) = take_last consoleTailLines (seen @ ls)"
proof (induction ls arbitrary: seen out w)
  case (Cons l ls)
  have "push_tail (take_last consoleTailLines seen) l = take_last consoleTailLines (seen @ [l])"
    unfolding push_tail_def by (subst take_last_snoc) (simp_all add: consoleTailLines_def)
  then show ?case using Cons [of "seen @ [l]"] by simp
qed simp

lemma read_console_tail:
  "fst (result_of (read_console E i ls out) w) = take_last consoleTailLines ls"
  using console_loop_tail [of ls "[]" out E i w] by (simp add: read_console_def take_last_def)

text \<open>What it says is the effect of its lines, one after the other, on the outcome.\<close>

lemma read_console_outcome:
  "snd (result_of (read_console E i ls out) w) = fold (take_report E) ls out"
proof -
  have "snd (result_of (for_acc ls (tail, out) (\<lambda>line (tail, out). do {
     (if fl_verbose E then emit (EvStderr (''  vm'' @ dec i @ ''| '' @ line @ [newline])) else return ());
     return (push_tail tail line, take_report E line out) })) w) = fold (take_report E) ls out" for tail
    by (induction ls arbitrary: tail out w) simp_all
  then show ?thesis by (simp add: read_console_def)
qed

text \<open>A line without the prefix says nothing; one with a report that is read sets it.\<close>

lemma take_report_other: "\<not> contains line guestReportPrefix \<Longrightarrow> take_report E line out = out"
  by (simp add: take_report_def cut_None_iff [symmetric])

lemma fold_take_report_other:
  "\<forall>l \<in> set ls. \<not> contains l guestReportPrefix \<Longrightarrow> fold (take_report E) ls out = out"
  by (induction ls arbitrary: out) (simp_all add: take_report_other)

section \<open>Outcomes\<close>

text \<open>An outcome names its microVM, keeps a bounded console and says why it has no report.\<close>

definition outcome_ok :: "nat \<Rightarrow> vm_outcome \<Rightarrow> bool" where
  "outcome_ok i out \<longleftrightarrow> vo_Index out = i \<and> length (vo_Console out) \<le> consoleTailLines \<and>
     (vo_Guest out = None \<longrightarrow> vo_Err out \<noteq> [])"

lemma take_report_index [simp]: "vo_Index (take_report E line out) = vo_Index out"
  by (simp add: take_report_def Let_def split: option.split)

lemma fold_take_report_index [simp]: "vo_Index (fold (take_report E) ls out) = vo_Index out"
  by (induction ls arbitrary: out) simp_all

lemma failed_with_ok:
  "vo_Index out = i \<Longrightarrow> vo_Console out = [] \<Longrightarrow> outcome_ok i (result_of (failed_with out what e) w)"
  by (simp add: failed_with_def outcome_ok_def)

lemma finish_run_ok:
  "vo_Index out = i \<Longrightarrow> length tail \<le> consoleTailLines \<Longrightarrow> outcome_ok i (finish_run E run tail out)"
  by (auto simp: finish_run_def outcome_ok_def no_report_def Let_def)

lemma new_outcome_sel [simp]: "vo_Index (new_outcome i) = i" "vo_Console (new_outcome i) = []"
  by (simp_all add: new_outcome_def)

lemma run_vm_ok: "outcome_ok i (result_of (run_vm E i argv (new_outcome i)) w)"
proof -
  have "outcome_ok i (finish_run E run (fst r) (snd r))"
    if "r = result_of (read_console E i ls (new_outcome i)) w'" for r run ls w'
    unfolding that by (intro finish_run_ok) (simp_all add: read_console_tail read_console_outcome)
  then show ?thesis
    by (auto simp: run_vm_def failed_with_ok case_prod_beta split: option.splits sum.splits)
qed

lemma bootOne_ok: "outcome_ok i (result_of (bootOne E net i fcBin kern initramfs workDir) w)"
  by (simp add: bootOne_def Let_def exec_unless_error failed_with_ok run_vm_ok split: option.splits)

section \<open>What is left behind\<close>

text \<open>Once the tap exists, its deletion is the last thing that happens.\<close>

lemma exec_run_command [simp]:
  "w_trace (exec (run_command E argv) w) = w_trace w @ [EvExec argv]"
  by (simp add: run_command_def go_output_def case_prod_beta)

lemma bootOne_releases_tap:
  assumes "result_of (setupTap E net i) w = None"
  shows "last (w_trace (exec (bootOne E net i fcBin kern initramfs workDir) w)) = EvExec (del_tap (vmTap i))"
  using assms by (simp add: bootOne_def Let_def exec_unless_error teardownTap_def)

lemma bootOne_releases_listener:
  assumes "result_of (setupTap E net i) w = None"
    and "os_listen E (w_trace (exec (setupTap E net i) w)) (echo_address net i) = None"
  shows "\<exists>h. w_trace (exec (bootOne E net i fcBin kern initramfs workDir) w) =
    h @ [EvUnlisten (echo_address net i), EvExec (del_tap (vmTap i))]"
  using assms by (simp add: bootOne_def Let_def exec_unless_error teardownTap_def echoServer_def)

text \<open>
  The set-up itself has no such guarantee: when the tap was created but cannot be addressed, it
  is not deleted.
\<close>

lemma setupTap_leaves_tap:
  assumes "result_of (run_command E (add_tap (vmTap i))) (exec (run_command E (del_tap (vmTap i))) w) = None"
    and "result_of (run_command E [''ip'', ''addr'', ''add'', vmHostIP net i @ ''/30'', ''dev'', vmTap i])
      (exec (run_command E (add_tap (vmTap i))) (exec (run_command E (del_tap (vmTap i))) w)) = Some e"
  shows "w_trace (exec (bootOne E net i fcBin kern initramfs workDir) w) = w_trace w @
    [EvExec (del_tap (vmTap i)), EvExec (add_tap (vmTap i)),
     EvExec [''ip'', ''addr'', ''add'', vmHostIP net i @ ''/30'', ''dev'', vmTap i]]"
  using assms by (simp add: bootOne_def setupTap_def Let_def exec_unless_error failed_with_def)

section \<open>The configuration file\<close>

lemma config_text_read:
  assumes "any_utf8 (vm_config E net i kern initramfs scratch)"
  shows "json_parse (config_text (vm_config E net i kern initramfs scratch)) =
    Some (json_of (vm_config E net i kern initramfs scratch))"
proof -
  let ?c = "vm_config E net i kern initramfs scratch"
  have "any_floats ?c = []" by (simp add: vm_config_def)
  then obtain s where s: "encode indented 0 ?c = Some s"
    using encode_total(1) [of ?c indented 0] by auto
  have "config_text ?c = s" unfolding config_text_def s by simp
  with json_parse_encode [OF s assms indented_ok] show ?thesis by simp
qed

end
