(* ===== verification/Judge.thy ===== *)
theory Judge
  imports Boot Tags
begin

text \<open>
  \<open>judgeOutcomes\<close> of \<open>boot_linux.go\<close>: what the microVMs said, turned into results. The code
  indexes the first outcome, so with no outcome it panics; a panic is a value here.
\<close>

datatype flow = Returned | Panicked string

section \<open>Failed microVMs\<close>

definition vm_failed :: "vm_outcome \<Rightarrow> bool" where
  "vm_failed o1 \<longleftrightarrow> vo_Err o1 \<noteq> [] \<or> vo_Guest o1 = None"

definition failure_text :: "vm_outcome \<Rightarrow> string" where
  "failure_text o1 =
    (if vo_Err o1 = [] then []
     else ''vm'' @ dec (vo_Index o1) @ '': '' @ vo_Err o1 @ [newline] @
       (if vo_Console o1 = [] then []
        else ''  last console lines:'' @ [newline] @
          concat (map (\<lambda>l. ''    '' @ l @ [newline]) (vo_Console o1))))"

fun first_diagnosis :: "vm_outcome list \<Rightarrow> string" where
  "first_diagnosis [] = rem_boot_launch"
| "first_diagnosis (o1 # os) =
    (let d = diagnoseConsole (vo_Console o1) in if d \<noteq> [] then d else first_diagnosis os)"

definition report_failures :: "env \<Rightarrow> vm_outcome list \<Rightarrow> unit go" where
  "report_failures E os =
    report_Fail E ''boot.launch'' ''Firecracker microVM boots''
      (dec (length (filter vm_failed os)) @ '' of '' @ dec (length os) @ '' microVMs failed:'' @ [newline] @
        concat (map failure_text os))
      (first_diagnosis os)"

section \<open>Statistics\<close>

text \<open>The report of a microVM that did not fail; the pointer is not nil where this is used.\<close>

definition guest_of :: "vm_outcome \<Rightarrow> guest_report" where
  "guest_of o1 = (case vo_Guest o1 of Some g \<Rightarrow> g | None \<Rightarrow> empty_report)"

definition stat_step :: "(guest_report \<Rightarrow> f64) \<Rightarrow> vm_outcome \<Rightarrow> f64 \<times> f64 \<times> f64 \<Rightarrow> f64 \<times> f64 \<times> f64" where
  "stat_step pick o1 = (\<lambda>(acc, lo, hi). let v = pick (guest_of o1) in
     (f_add acc v, f_min lo v, f_max hi v))"

definition stat :: "(guest_report \<Rightarrow> f64) \<Rightarrow> vm_outcome list \<Rightarrow> f64 \<times> f64 \<times> f64" where
  "stat pick os =
    (case fold (stat_step pick) os (f_zero, Inf False, Inf True) of
       (acc, lo, hi) \<Rightarrow> (f_div acc (f_of_int (int (length os))), lo, hi))"

definition spread :: "nat \<Rightarrow> string \<Rightarrow> f64 \<times> f64 \<times> f64 \<Rightarrow> string" where
  "spread n unit_name = (\<lambda>(mean, lo, hi).
     if n = 1 then fmt_f 0 mean @ '' '' @ unit_name
     else ''mean '' @ fmt_f 0 mean @ '' '' @ unit_name @ '' ('' @ fmt_f 0 lo @ ''..'' @ fmt_f 0 hi @
       '' over '' @ dec n @ '' VMs)'')"

definition net_errors :: "vm_outcome list \<Rightarrow> string list" where
  "net_errors os = map (\<lambda>o1. ''vm'' @ dec (vo_Index o1) @ '': '' @ gr_NetError (guest_of o1))
     (filter (\<lambda>o1. gr_NetError (guest_of o1) \<noteq> []) os)"

section \<open>The results\<close>

definition info_result :: "string \<Rightarrow> string \<Rightarrow> string \<Rightarrow> (string, any) go_map \<Rightarrow> result" where
  "info_result i t d kvs = with_data kvs (mk_result i t Info d [])"

definition kernel_result :: "guest_report \<Rightarrow> result" where
  "kernel_result g = with_data [(''available_clocksource'', AStr (gr_AvailClock g)), (''cmdline'', AStr (gr_Cmdline g))]
     (mk_result ''boot.guest_kernel'' ''Guest kernel came up'' Pass
       (gr_KernelVersion g @ '', '' @ dec_int (gr_CPUs g) @ '' vCPU, '' @
        fmt_f 0 (f_div (f_of_int (gr_MemTotalKB g)) (f_of_int 1024)) @ '' MiB, clocksource '' @ gr_Clocksource g) [])"

definition drivers :: "guest_report \<Rightarrow> string list" where
  "drivers g = (case gr_VirtioDevices g of None \<Rightarrow> [] | Some m \<Rightarrow> map snd m)"

definition show_bool :: "bool \<Rightarrow> string" where
  "show_bool b = (if b then ''true'' else ''false'')"

definition report_virtio :: "env \<Rightarrow> guest_report \<Rightarrow> unit go" where
  "report_virtio E g =
    (let haveBlk = ''virtio_blk'' \<in> set (drivers g); haveNet = ''virtio_net'' \<in> set (drivers g) in
     if \<not> haveBlk \<or> \<not> haveNet then
       report_Fail E ''boot.virtio'' ''Guest bound virtio drivers''
         (''devices found: '' @ show_map (gr_VirtioDevices g) @ '' (virtio_blk='' @ show_bool haveBlk @
          '', virtio_net='' @ show_bool haveNet @ '')'')
         rem_virtio
     else Addf E ''boot.virtio'' ''Guest bound virtio drivers'' Pass (show_map (gr_VirtioDevices g)))"

definition report_network :: "env \<Rightarrow> vm_outcome list \<Rightarrow> unit go" where
  "report_network E os =
    (if net_errors os \<noteq> [] then
       report_Fail E ''boot.network'' ''Guest networking'' (join ''; '' (net_errors os))
         (rem_network_1 @ fl_guest_net E @ rem_network_2 @ tapPrefix @ rem_network_3)
     else (let rtt = stat gr_NetEchoRTTus os; tp = stat gr_NetThroughput os in
       Add E (with_data [(''rtt_us_mean'', AFloat (fst rtt)), (''throughput_mbps_mean'', AFloat (fst tp))]
         (mk_result ''boot.network'' ''Guest networking'' Pass
           (''echo RTT '' @ spread (length os) ''us'' rtt @ ''; throughput '' @ spread (length os) ''Mb/s'' tp) []))))"

definition timing_result :: "vm_outcome list \<Rightarrow> result" where
  "timing_result os =
    (let (mean, lo, hi) = stat (\<lambda>g. f_mul (gr_UptimeAtStart g) (f_of_int 1000)) os;
         wall = fold (\<lambda>o1 w. f_max w (vo_TotalMS o1)) os f_zero in
     info_result ''boot.timing'' ''Boot time''
       (''guest reached init at '' @ spread (length os) ''ms'' (mean, lo, hi) @ ''; slowest VM took '' @
        fmt_f 0 wall @ '' ms wall clock end to end'')
       [(''boot_ms_max'', AFloat hi), (''boot_ms_mean'', AFloat mean), (''boot_ms_min'', AFloat lo),
        (''wall_ms_max'', AFloat wall)])"

definition clock_result :: "vm_outcome list \<Rightarrow> result" where
  "clock_result os =
    (let (mean, lo, hi) = stat gr_ClockReadNS os in
     info_result ''boot.perf.clock'' ''Guest clock_gettime cost''
       (spread (length os) ''ns'' (mean, lo, hi) @ '' per read'')
       [(''ns_per_read_max'', AFloat hi), (''ns_per_read_mean'', AFloat mean)])"

definition cpu_result :: "vm_outcome list \<Rightarrow> guest_report \<Rightarrow> result" where
  "cpu_result os g =
     info_result ''boot.perf.cpu'' ''Guest CPU''
       (''sha256 single core '' @ spread (length os) ''MB/s'' (stat gr_CPUHashMBps os) @ ''; across '' @
        dec_int (gr_CPUs g) @ '' vCPUs mean '' @ fmt_f 0 (fst (stat gr_CPUHashMBpsN os)) @ '' MB/s'') []"

definition mem_result :: "vm_outcome list \<Rightarrow> result" where
  "mem_result os =
     info_result ''boot.perf.mem'' ''Guest memory''
       (''write '' @ spread (length os) ''MB/s'' (stat gr_MemWriteMBps os)) []"

definition disk_result :: "vm_outcome list \<Rightarrow> result" where
  "disk_result os =
     info_result ''boot.perf.disk'' ''Guest disk (virtio-blk)''
       (''write '' @ spread (length os) ''MB/s'' (stat gr_DiskWriteMBps os) @ ''; read '' @
        spread (length os) ''MB/s'' (stat gr_DiskReadMBps os)) []"

text \<open>The JSON of an outcome, as the raw results carry it.\<close>

definition outcome_any :: "vm_outcome \<Rightarrow> any" where
  "outcome_any o1 = AObj
    ([(''index'', AInt (int (vo_Index o1))), (''boot_ms'', AFloat (vo_BootMS o1)),
      (''total_ms'', AFloat (vo_TotalMS o1))] @
     (case vo_Guest o1 of None \<Rightarrow> [] | Some g \<Rightarrow> [(''guest'', AObj (guest_fields g))]) @
     omit_string ''error'' (vo_Err o1) @
     omit_strings ''console_tail'' (vo_Console o1) @
     [(''exit_code'', AInt (vo_ExitCode o1))])"

definition raw_result :: "vm_outcome list \<Rightarrow> result" where
  "raw_result os =
     info_result ''boot.raw'' ''Raw guest reports''
       (dec (length os) @ '' microVM report(s) recorded in the JSON output'')
       [(''vms'', AList (map outcome_any os))]"

definition judgeOutcomes :: "env \<Rightarrow> vm_outcome list \<Rightarrow> flow go" where
  "judgeOutcomes E os =
    (if filter vm_failed os \<noteq> [] then do { report_failures E os; return Returned }
     else do {
       Addf E ''boot.launch'' ''Firecracker microVM boots'' Pass
         (dec (length os) @ '' of '' @ dec (length os) @ '' microVMs booted, ran the workload and shut down cleanly'');
       case os of [] \<Rightarrow> return (Panicked ''index out of range [0] with length 0'')
       | first # _ \<Rightarrow> (let g = guest_of first in do {
           Add E (kernel_result g);
           report_virtio E g;
           report_network E os;
           Add E (timing_result os);
           Add E (clock_result os);
           Add E (cpu_result os g);
           Add E (mem_result os);
           (if f_less f_zero (gr_DiskWriteMBps g) then Add E (disk_result os) else return ());
           Add E (raw_result os);
           return Returned }) })"

section \<open>The verdict of the boot stage\<close>

text \<open>What is decided, as a function of the outcomes alone.\<close>

definition judge_spec :: "vm_outcome list \<Rightarrow> (string \<times> status) list" where
  "judge_spec os =
    (if \<exists>o1 \<in> set os. vo_Err o1 \<noteq> [] \<or> vo_Guest o1 = None then [(''boot.launch'', Fail)]
     else (''boot.launch'', Pass) #
       (case os of [] \<Rightarrow> []
        | first # _ \<Rightarrow>
           [(''boot.guest_kernel'', Pass),
            (''boot.virtio'', if {''virtio_blk'', ''virtio_net''} \<subseteq> set (drivers (guest_of first)) then Pass else Fail),
            (''boot.network'', if \<forall>o1 \<in> set os. gr_NetError (guest_of o1) = [] then Pass else Fail),
            (''boot.timing'', Info), (''boot.perf.clock'', Info), (''boot.perf.cpu'', Info), (''boot.perf.mem'', Info)] @
           (if f_less f_zero (gr_DiskWriteMBps (guest_of first)) then [(''boot.perf.disk'', Info)] else []) @
           [(''boot.raw'', Info)]))"

lemma info_result_sel [simp]:
  "res_ID (info_result i t d kvs) = i" "res_Status (info_result i t d kvs) = Info"
  by (simp_all add: info_result_def)

lemma tags_results [tag_simps]:
  "res_ID (kernel_result g) = ''boot.guest_kernel''" "res_Status (kernel_result g) = Pass"
  "res_ID (timing_result os) = ''boot.timing''" "res_Status (timing_result os) = Info"
  "res_ID (clock_result os) = ''boot.perf.clock''" "res_Status (clock_result os) = Info"
  "res_ID (cpu_result os g) = ''boot.perf.cpu''" "res_Status (cpu_result os g) = Info"
  "res_ID (mem_result os) = ''boot.perf.mem''" "res_Status (mem_result os) = Info"
  "res_ID (disk_result os) = ''boot.perf.disk''" "res_Status (disk_result os) = Info"
  "res_ID (raw_result os) = ''boot.raw''" "res_Status (raw_result os) = Info"
  by (simp_all add: kernel_result_def timing_result_def clock_result_def cpu_result_def mem_result_def
      disk_result_def raw_result_def Let_def split: prod.splits)

lemma tags_virtio [tag_simps]:
  "tags (exec (report_virtio E g) w) = tags w @
    [(''boot.virtio'', if {''virtio_blk'', ''virtio_net''} \<subseteq> set (drivers g) then Pass else Fail)]"
  by (simp add: report_virtio_def tag_simps)

lemma tags_network [tag_simps]:
  "tags (exec (report_network E os) w) = tags w @
    [(''boot.network'', if \<forall>o1 \<in> set os. gr_NetError (guest_of o1) = [] then Pass else Fail)]"
  by (auto simp: report_network_def net_errors_def tag_simps Let_def filter_eq_Nil_iff)

lemma judge_refines: "tags (exec (judgeOutcomes E os) w) = tags w @ judge_spec os"
proof (cases "\<exists>o1 \<in> set os. vm_failed o1")
  case True
  then show ?thesis
    by (auto simp: judgeOutcomes_def judge_spec_def report_failures_def tag_simps filter_eq_Nil_iff vm_failed_def)
next
  case False
  then have "filter vm_failed os = []" by (simp add: filter_eq_Nil_iff)
  with False show ?thesis
    by (cases os) (simp_all add: judgeOutcomes_def judge_spec_def tag_simps Let_def vm_failed_def)
qed

text \<open>Only a run with no microVM panics.\<close>

lemma judge_flow:
  "result_of (judgeOutcomes E os) w = (if os = [] then Panicked ''index out of range [0] with length 0'' else Returned)"
  by (cases os) (simp_all add: judgeOutcomes_def Let_def)

text \<open>The pointer behind \<open>guest_of\<close> is never nil where the results are computed.\<close>

lemma guest_of_passed: "filter vm_failed os = [] \<Longrightarrow> o1 \<in> set os \<Longrightarrow> vo_Guest o1 = Some (guest_of o1)"
  by (auto simp: filter_eq_Nil_iff vm_failed_def guest_of_def split: option.splits)

section \<open>Remedies\<close>

lemma first_diagnosis_nonempty [simp]: "first_diagnosis os \<noteq> []"
  by (induction os) (simp_all add: Let_def)

lemma first_diagnosis_cases:
  "first_diagnosis os = rem_boot_launch \<and> (\<forall>o1 \<in> set os. diagnoseConsole (vo_Console o1) = []) \<or>
   (\<exists>o1 \<in> set os. diagnoseConsole (vo_Console o1) \<noteq> [] \<and> first_diagnosis os = diagnoseConsole (vo_Console o1))"
  by (induction os) (auto simp: Let_def)

section \<open>Bounds\<close>

lemma f_min_bound: "x \<noteq> NaN \<Longrightarrow> y \<noteq> NaN \<Longrightarrow>
    f_min x y \<noteq> NaN \<and> \<not> f_less x (f_min x y) \<and> \<not> f_less y (f_min x y)"
  by (cases x; cases y) (auto simp: f_min_def is_zero_def is_neg_def Go_Float.signed_def)

lemma f_max_bound: "x \<noteq> NaN \<Longrightarrow> y \<noteq> NaN \<Longrightarrow>
    f_max x y \<noteq> NaN \<and> \<not> f_less (f_max x y) x \<and> \<not> f_less (f_max x y) y"
  by (cases x; cases y) (auto simp: f_max_def is_zero_def is_neg_def Go_Float.signed_def)

lemma f_less_between: "f_less z x \<Longrightarrow> y \<noteq> NaN \<Longrightarrow> f_less z y \<or> f_less y x"
  by (cases x; cases y; cases z) (auto simp: Go_Float.signed_def split: if_splits)

lemma stat_step_apply: "stat_step pick o1 (acc, lo, hi) =
    (f_add acc (pick (guest_of o1)), f_min lo (pick (guest_of o1)), f_max hi (pick (guest_of o1)))"
  by (simp add: stat_step_def Let_def)

text \<open>No microVM lies outside the range that is printed, as long as every figure is a number.\<close>

lemma stat_fold_bounds:
  assumes "\<forall>o1 \<in> set os. pick (guest_of o1) \<noteq> NaN" and "lo \<noteq> NaN" and "hi \<noteq> NaN"
    and "fold (stat_step pick) os (acc, lo, hi) = (acc', lo', hi')"
  shows "\<not> f_less lo lo' \<and> \<not> f_less hi' hi \<and>
    (\<forall>o1 \<in> set os. \<not> f_less (pick (guest_of o1)) lo' \<and> \<not> f_less hi' (pick (guest_of o1)))"
  using assms
proof (induction os arbitrary: acc lo hi)
  case (Cons o1 os)
  let ?v = "pick (guest_of o1)"
  have v: "?v \<noteq> NaN" using Cons.prems(1) by simp
  note lo = f_min_bound [OF Cons.prems(2) v] and hi = f_max_bound [OF Cons.prems(3) v]
  have "fold (stat_step pick) os (f_add acc ?v, f_min lo ?v, f_max hi ?v) = (acc', lo', hi')"
    using Cons.prems(4) by (simp add: stat_step_apply)
  from Cons.IH [OF _ _ _ this] Cons.prems(1) lo hi
  have "\<not> f_less (f_min lo ?v) lo'" "\<not> f_less hi' (f_max hi ?v)"
    and "\<forall>o1 \<in> set os. \<not> f_less (pick (guest_of o1)) lo' \<and> \<not> f_less hi' (pick (guest_of o1))"
    by simp_all
  with lo hi show ?case using f_less_between by (metis set_ConsD)
qed simp

lemma stat_bounds:
  assumes "\<forall>o1 \<in> set os. pick (guest_of o1) \<noteq> NaN" and "stat pick os = (mean, lo, hi)" and "o1 \<in> set os"
  shows "\<not> f_less (pick (guest_of o1)) lo \<and> \<not> f_less hi (pick (guest_of o1))"
proof -
  obtain acc where "fold (stat_step pick) os (f_zero, Inf False, Inf True) = (acc, lo, hi)"
    using assms(2) by (auto simp: stat_def split: prod.splits)
  with stat_fold_bounds [OF assms(1) _ _ this] assms(3) show ?thesis by simp
qed

end
