(* ===== verification/Boot_Stage.thy ===== *)
theory Boot_Stage
  imports Judge Cpio
begin

text \<open>
  \<open>runBootStage\<close> of \<open>boot_linux.go\<close>: the artifacts, the initramfs made of the program itself,
  the microVMs and the judgement. Several microVMs run as goroutines whose outcomes arrive in
  any order; see \<open>vm_mix\<close> and \<open>vm_order\<close>.
\<close>

section \<open>The artifacts\<close>

definition boot_firecracker :: "env \<Rightarrow> artifact \<Rightarrow> string option go" where
  "boot_firecracker E art =
    (if fl_firecracker E \<noteq> [] then do {
       Addf E ''boot.firecracker'' ''Firecracker binary'' Info
         (fl_firecracker E @ '' (supplied, not checksum-verified)'');
       return (Some (fl_firecracker E)) }
     else do {
       r \<leftarrow> resolveArtifact E (fl_cache E) (''firecracker-'' @ firecrackerVersion) art;
       case r of Inl e \<Rightarrow> do {
         report_Fail E ''boot.firecracker'' ''Firecracker binary'' (err_text e) rem_firecracker;
         return None }
       | Inr fcBin \<Rightarrow> do {
         Addf E ''boot.firecracker'' ''Firecracker binary'' Pass
           (fcBin @ '' (pinned '' @ firecrackerVersion @ '', checksum verified)'');
         return (Some fcBin) } })"

definition boot_kernel :: "env \<Rightarrow> string option go" where
  "boot_kernel E =
    (if fl_kernel E \<noteq> [] then do {
       Addf E ''boot.kernel'' ''Guest kernel'' Pass (fl_kernel E @ '' (supplied)'');
       return (Some (fl_kernel E)) }
     else do {
       r \<leftarrow> resolveArtifact E (fl_cache E) ''vmlinux-6.1.141'' (guestKernelArtifacts (goarch E));
       case r of Inl e \<Rightarrow> do {
         report_Fail E ''boot.kernel'' ''Guest kernel'' (err_text e) rem_guest_kernel;
         return None }
       | Inr kern \<Rightarrow> do {
         report_Warn E ''boot.kernel'' ''Guest kernel''
           (''using Firecracker's CI kernel ('' @ path_base kern @ ''), not Fly's'') rem_ci_kernel;
         return (Some kern) } })"

section \<open>The program as the init of the guest\<close>

text \<open>The first program header of type \<open>PT_INTERP\<close>: its contents, empty when they cannot be read.\<close>

definition PT_INTERP :: nat where "PT_INTERP = 3"

definition elfInterpreter :: "env \<Rightarrow> string \<Rightarrow> (os_error + string option) go" where
  "elfInterpreter E path = do {
     f \<leftarrow> ask (\<lambda>h. os_elf E h path);
     return (case f of Inl e \<Rightarrow> Inl e
       | Inr progs \<Rightarrow>
          (case find (\<lambda>p. fst p = PT_INTERP) progs of None \<Rightarrow> Inr None
           | Some (ty, buf) \<Rightarrow> Inr (Some (case buf of Inl e \<Rightarrow> [] | Inr b \<Rightarrow> trim_right_char nul b)))) }"

text \<open>The linkage check, which tells whether the stage goes on.\<close>

definition check_linkage :: "env \<Rightarrow> string \<Rightarrow> bool go" where
  "check_linkage E self = do {
     r \<leftarrow> elfInterpreter E self;
     case r of
       Inl e \<Rightarrow> do {
         report_Warn E ''boot.initramfs.linkage'' ''Statically linked''
           (''could not parse own ELF headers: '' @ err_text e) rem_elf;
         return True }
     | Inr (Some interp) \<Rightarrow> do {
         report_Fail E ''boot.initramfs.linkage'' ''Statically linked''
           (''this binary is dynamically linked (interpreter '' @ interp @ '')'') rem_static;
         return False }
     | Inr None \<Rightarrow> do {
         Addf E ''boot.initramfs.linkage'' ''Statically linked'' Pass
           ''no interpreter; the guest can exec this as init'';
         return True } }"

text \<open>The bytes of the own binary, or what was reported instead.\<close>

definition read_self :: "env \<Rightarrow> bytes option go" where
  "read_self E = (case os_executable E of
     Inl e \<Rightarrow> do {
       report_Fail E ''boot.initramfs'' ''Build initramfs'' (''locate own binary: '' @ err_text e) [];
       return None }
   | Inr self \<Rightarrow> do {
       goon \<leftarrow> check_linkage E self;
       if \<not> goon then return None
       else do {
         b \<leftarrow> ReadFile E self;
         case b of Inl e \<Rightarrow> do {
           report_Fail E ''boot.initramfs'' ''Build initramfs'' (''read own binary: '' @ err_text e) [];
           return None }
         | Inr selfBytes \<Rightarrow> return (Some selfBytes) } })"

section \<open>Several microVMs\<close>

text \<open>
  A goroutine: from the common state, with a mark of its own, it makes an outcome and events.
\<close>

definition alone :: "world \<Rightarrow> (nat \<Rightarrow> vm_outcome go) \<Rightarrow> nat \<Rightarrow> vm_outcome \<times> hist" where
  "alone w body i =
    (let (out, w') = run_state (do { emit (EvSpawn i); body i }) w
     in (out, drop (length (w_trace w)) (w_trace w')))"

text \<open>Receiving from the channel: each outcome goes to the place its index names.\<close>

definition collect :: "nat \<Rightarrow> vm_outcome list \<Rightarrow> vm_outcome list" where
  "collect n received = fold (\<lambda>o1 os. os[vo_Index o1 := o1]) received (replicate n (new_outcome 0))"

definition boot_all :: "env \<Rightarrow> nat \<Rightarrow> (nat \<Rightarrow> vm_outcome go) \<Rightarrow> vm_outcome list go" where
  "boot_all E n body = State (\<lambda>w.
     (collect n (map (\<lambda>i. fst (alone w body i)) (vm_order E (w_trace w) n)),
      w\<lparr>w_trace := w_trace w @ vm_mix E (map (\<lambda>i. snd (alone w body i)) [0..<n])\<rparr>))"

definition run_vms :: "env \<Rightarrow> (nat \<Rightarrow> vm_outcome go) \<Rightarrow> flow go" where
  "run_vms E body =
    (if fl_vms E < 0 then return (Panicked ''makeslice: len out of range'')
     else if fl_vms E = 1 then do {
       out \<leftarrow> body 0;
       judgeOutcomes E [out] }
     else do {
       outcomes \<leftarrow> boot_all E (nat (fl_vms E)) body;
       judgeOutcomes E outcomes })"

section \<open>The stage\<close>

definition go_mkdir_temp :: "env \<Rightarrow> (os_error + string) go" where
  "go_mkdir_temp E = do {
     r \<leftarrow> ask (\<lambda>h. os_mkdir_temp E h);
     case r of Inl e \<Rightarrow> return (Inl e)
     | Inr d \<Rightarrow> do { emit (EvMkdirTemp d); return (Inr d) } }"

definition boot_in :: "env \<Rightarrow> 32 word \<Rightarrow> string \<Rightarrow> string \<Rightarrow> bytes \<Rightarrow> string \<Rightarrow> flow go" where
  "boot_in E net fcBin kern selfBytes workDir =
    (let initramfs = path_join workDir ''initramfs.cpio'' in
     unless_error (go_write E initramfs (buildInitramfs selfBytes))
       (\<lambda>e. do { report_Fail E ''boot.initramfs'' ''Build initramfs'' (err_text e) []; return Returned })
       (do {
          Addf E ''boot.initramfs'' ''Build initramfs'' Pass
            (''packed this binary as /init ('' @ dec (length selfBytes div 2 ^ 20) @ '' MiB)'');
          run_vms E (\<lambda>i. bootOne E net i fcBin kern initramfs workDir) }))"

text \<open>Everything after the Firecracker binary.\<close>

definition boot_with :: "env \<Rightarrow> 32 word \<Rightarrow> string \<Rightarrow> flow go" where
  "boot_with E net fcBin = do {
     k \<leftarrow> boot_kernel E;
     case k of None \<Rightarrow> return Returned
     | Some kern \<Rightarrow> do {
         self \<leftarrow> read_self E;
         case self of None \<Rightarrow> return Returned
         | Some selfBytes \<Rightarrow>
             with_defer (go_mkdir_temp E) (\<lambda>d. emit (EvRemoveAll d))
               (\<lambda>e. do { report_Fail E ''boot.workdir'' ''Working directory'' (err_text e) []; return Returned })
               (boot_in E net fcBin kern selfBytes) } }"

definition runBootStage :: "env \<Rightarrow> 32 word \<Rightarrow> flow go" where
  "runBootStage E net =
    (if geteuid E \<noteq> 0 then do {
       report_Blocked E ''boot.privileges'' ''Root for the boot stage''
         (''running as uid '' @ dec_int (geteuid E)) rem_boot_privileges;
       return Returned }
     else case firecrackerArtifacts (goarch E) of
       None \<Rightarrow> do {
         Addf E ''boot.arch'' ''Boot stage architecture'' Skip (''no pinned artifacts for '' @ goarch E);
         return Returned }
     | Some fcArt \<Rightarrow> do {
         fc \<leftarrow> boot_firecracker E fcArt;
         case fc of None \<Rightarrow> return Returned | Some fcBin \<Rightarrow> boot_with E net fcBin })"

end
