(* ===== verification/Boot_Safety.thy ===== *)
theory Boot_Safety
  imports Boot_Stage
begin

text \<open>
  What the boot stage may do: the outcomes do not depend on the order in which the microVMs
  finish, the events stay within a fixed class, every result is one of its own, and the working
  directory is removed.
\<close>

section \<open>Interleavings\<close>

fun interleaves :: "'a list list \<Rightarrow> 'a list \<Rightarrow> bool" where
  "interleaves hs [] = list_all (\<lambda>h. h = []) hs"
| "interleaves hs (x # xs) =
    list_ex (\<lambda>i. hs ! i \<noteq> [] \<and> hd (hs ! i) = x \<and> interleaves (hs[i := tl (hs ! i)]) xs) [0..<length hs]"

text \<open>What is assumed of the goroutines: events are interleaved, and each of them finishes once.\<close>

definition schedule_ok :: "env \<Rightarrow> bool" where
  "schedule_ok E \<longleftrightarrow> (\<forall>hs. interleaves hs (vm_mix E hs)) \<and>
     (\<forall>h n. mset (vm_order E h n) = mset [0..<n])"

lemma interleaves_elem: "interleaves hs xs \<Longrightarrow> x \<in> set xs \<Longrightarrow> \<exists>h \<in> set hs. x \<in> set h"
proof (induction xs arbitrary: hs)
  case (Cons y xs)
  then obtain i where i: "i < length hs" "hs ! i \<noteq> []" "hd (hs ! i) = y"
      "interleaves (hs[i := tl (hs ! i)]) xs"
    by (auto simp: list_ex_iff)
  show ?case
  proof (cases "x = y")
    case True
    with i show ?thesis by (metis hd_in_set nth_mem)
  next
    case False
    with Cons.prems have "x \<in> set xs" by simp
    from Cons.IH [OF i(4) this] obtain h where h: "h \<in> set (hs[i := tl (hs ! i)])" "x \<in> set h" by blast
    then have "h \<in> set hs \<or> h = tl (hs ! i)" by (metis insert_iff set_update_subset_insert subsetD)
    with h i show ?thesis by (metis list.set_sel(2) nth_mem)
  qed
qed simp

lemma interleaves_concat: "interleaves hs (concat hs)"
proof (induction "concat hs" arbitrary: hs)
  case Nil
  then have "concat hs = []" by simp
  moreover from this have "list_all (\<lambda>h. h = []) hs" by (simp add: list_all_iff)
  ultimately show ?case by (simp only: interleaves.simps)
next
  case (Cons x xs)
  obtain us h vs where hs: "hs = us @ h # vs" "h \<noteq> []" "concat us = []"
  proof -
    have "\<exists>h \<in> set hs. h \<noteq> []" using Cons.hyps(2) by (metis concat_eq_Nil_conv list.distinct(1))
    from split_list_first_prop [OF this] obtain us h vs where "hs = us @ h # vs" "h \<noteq> []" "\<forall>u \<in> set us. u = []"
      by blast
    then show thesis using that by auto
  qed
  let ?i = "length us"
  have "x # xs = h @ concat vs" using Cons.hyps(2) hs by simp
  then have hx: "hd h = x" "xs = tl h @ concat vs" using hs(2) by (cases h; simp)+
  have upd: "hs[?i := tl (hs ! ?i)] = us @ tl h # vs" using hs by simp
  have "xs = concat (us @ tl h # vs)" using hx hs by simp
  with Cons.hyps(1) [of "us @ tl h # vs"] have "interleaves (us @ tl h # vs) xs" by simp
  then have "interleaves hs (x # xs)"
    using hs hx upd by (auto simp: list_ex_iff intro!: bexI [of _ ?i])
  with Cons.hyps(2) show ?case by simp
qed

section \<open>The outcomes\<close>

lemma length_collect [simp]: "length (collect n os) = n"
proof -
  have "length (fold (\<lambda>o1 os. os[vo_Index o1 := o1]) xs os) = length os" for xs os :: "vm_outcome list"
    by (induction xs arbitrary: os) simp_all
  then show ?thesis by (simp add: collect_def)
qed

lemma fold_collect_nth:
  assumes "distinct order" and "\<forall>i \<in> set order. vo_Index (f i) = i" and "j < length os"
  shows "fold (\<lambda>o1 os. os[vo_Index o1 := o1]) (map f order) os ! j = (if j \<in> set order then f j else os ! j)"
  using assms by (induction order arbitrary: os) auto

text \<open>Whatever the order, the outcome of microVM \<open>i\<close> is at place \<open>i\<close>.\<close>

lemma collect_order:
  assumes "mset order = mset [0..<n]" and "\<forall>i < n. vo_Index (f i) = i"
  shows "collect n (map f order) = map f [0..<n]"
proof (rule nth_equalityI)
  have "set order = {0..<n}" using mset_eq_setD [OF assms(1)] by simp
  moreover have "distinct order" using assms(1) mset_eq_imp_distinct_iff by fastforce
  moreover fix j assume "j < length (collect n (map f order))"
  then have "j < n" by simp
  ultimately show "collect n (map f order) ! j = map f [0..<n] ! j"
    using assms(2) by (simp add: collect_def fold_collect_nth)
qed simp

text \<open>The outcomes of the stage, without the channel.\<close>

definition vm_outcomes :: "env \<Rightarrow> world \<Rightarrow> (nat \<Rightarrow> vm_outcome go) \<Rightarrow> vm_outcome list" where
  "vm_outcomes E w body =
    (if fl_vms E = 1 then [result_of (body 0) w]
     else map (\<lambda>i. fst (alone w body i)) [0..<nat (fl_vms E)])"

lemma fst_alone: "fst (alone w body i) = result_of (body i) (exec (emit (EvSpawn i)) w)"
proof -
  have "fst (alone w body i) = fst (run_state (do { emit (EvSpawn i); body i }) w)"
    by (simp add: alone_def split: prod.splits)
  then show ?thesis by (simp add: result_of_def exec_def)
qed

lemma boot_all_outcomes:
  assumes "schedule_ok E" and "\<And>i w. vo_Index (result_of (body i) w) = i"
  shows "result_of (boot_all E n body) w = map (\<lambda>i. fst (alone w body i)) [0..<n]"
  using assms by (simp add: boot_all_def result_of_def collect_order schedule_ok_def fst_alone [unfolded result_of_def])

lemma boot_all_report [simp]: "w_report (exec (boot_all E n body) w) = w_report w"
  by (simp add: boot_all_def exec_def)

lemma tags_boot_all [tag_simps]: "tags (exec (boot_all E n body) w) = tags w"
  by (simp add: tags_def)

text \<open>The verdict of the microVMs is the judgement of their outcomes, in their own order.\<close>

lemma run_vms_tags:
  assumes "schedule_ok E" and "0 \<le> fl_vms E" and "\<And>i w. vo_Index (result_of (body i) w) = i"
    and "\<And>i w. w_report (exec (body i) w) = w_report w"
  shows "tags (exec (run_vms E body) w) = tags w @ judge_spec (vm_outcomes E w body)"
proof (cases "fl_vms E = 1")
  case True
  have "tags (exec (body 0) w) = tags w" using assms(4) by (simp add: tags_def)
  with True show ?thesis by (simp add: run_vms_def vm_outcomes_def judge_refines)
next
  case False
  with assms(2) show ?thesis
    by (simp add: run_vms_def vm_outcomes_def judge_refines boot_all_outcomes [OF assms(1,3)] tags_boot_all)
qed

text \<open>Panics: a negative or an empty number of microVMs, and nothing else.\<close>

lemma run_vms_flow:
  "result_of (run_vms E body) w =
    (if fl_vms E < 0 then Panicked ''makeslice: len out of range''
     else if fl_vms E = 0 then Panicked ''index out of range [0] with length 0'' else Returned)"
proof -
  have "result_of (boot_all E (nat (fl_vms E)) body) w = [] \<longleftrightarrow> nat (fl_vms E) = 0"
    using length_collect by (auto simp: boot_all_def result_of_def simp flip: length_0_conv)
  then show ?thesis by (auto simp: run_vms_def judge_flow)
qed

section \<open>The events of the stage\<close>

text \<open>
  The only programs that run are \<open>ip\<close>, on the taps of the microVMs, and Firecracker on a
  configuration file; the only downloads are the pinned ones, and none when offline; the only
  listeners are on the host's address of a microVM.
\<close>

definition tap_commands :: "32 word \<Rightarrow> nat \<Rightarrow> string list list" where
  "tap_commands net i = [del_tap (vmTap i), add_tap (vmTap i),
     [''ip'', ''addr'', ''add'', vmHostIP net i @ ''/30'', ''dev'', vmTap i],
     [''ip'', ''link'', ''set'', ''dev'', vmTap i, ''up'']]"

definition fc_path :: "env \<Rightarrow> string" where
  "fc_path E = (if fl_firecracker E \<noteq> [] then fl_firecracker E
     else path_join (fl_cache E) (''firecracker-'' @ firecrackerVersion))"

definition pinned_urls :: "string \<Rightarrow> string list" where
  "pinned_urls arch = art_url (guestKernelArtifacts arch) #
     (case firecrackerArtifacts arch of None \<Rightarrow> [] | Some a \<Rightarrow> [art_url a])"

definition runs_firecracker :: "env \<Rightarrow> string list \<Rightarrow> bool" where
  "runs_firecracker E argv \<longleftrightarrow> take 3 argv = [fc_path E, ''--no-api'', ''--config-file''] \<and> length argv = 4"

fun boot_event :: "env \<Rightarrow> 32 word \<Rightarrow> nat \<Rightarrow> event \<Rightarrow> bool" where
  "boot_event E net n (EvStderr s) = True"
| "boot_event E net n (EvOpen p fd) = True"
| "boot_event E net n (EvRead fd) = True"
| "boot_event E net n (EvClose fd) = True"
| "boot_event E net n (EvMkdir p) = (p = fl_cache E)"
| "boot_event E net n (EvMkdirTemp p) = True"
| "boot_event E net n (EvCreate p) = True"
| "boot_event E net n (EvWrite p c) = True"
| "boot_event E net n (EvTruncate p k) = (k = 2 ^ 26)"
| "boot_event E net n (EvRename p q) = (p = q @ ''.partial'')"
| "boot_event E net n (EvRemove p) = True"
| "boot_event E net n (EvRemoveAll p) = True"
| "boot_event E net n (EvHttpGet url) = (\<not> fl_offline E \<and> url \<in> set (pinned_urls (goarch E)))"
| "boot_event E net n (EvExec argv) = (argv \<in> set (concat (map (tap_commands net) [0..<n])))"
| "boot_event E net n (EvListen addr) = (addr \<in> set (map (echo_address net) [0..<n]))"
| "boot_event E net n (EvUnlisten addr) = (addr \<in> set (map (echo_address net) [0..<n]))"
| "boot_event E net n (EvStart argv) = runs_firecracker E argv"
| "boot_event E net n (EvWait argv) = runs_firecracker E argv"
| "boot_event E net n (EvSpawn i) = (i < n)"
| "boot_event E net n ev = False"

lemma emits_failed_with [emits_intros]: "emits ok (failed_with out what e)"
  unfolding failed_with_def by (intro emits_intros)

lemma emits_run_command [emits_intros]: "ok (EvExec argv) \<Longrightarrow> emits ok (run_command E argv)"
  unfolding run_command_def go_output_def by (intro emits_intros)

lemma tap_commands_in:
  "i < n \<Longrightarrow> argv \<in> set (tap_commands net i) \<Longrightarrow> boot_event E net n (EvExec argv)"
  by auto

lemma emits_setupTap: "i < n \<Longrightarrow> emits (boot_event E net n) (setupTap E net i)"
  unfolding setupTap_def
  by (intro emits_intros tap_commands_in [where i = i]) (simp_all add: tap_commands_def)

lemma emits_teardownTap: "i < n \<Longrightarrow> emits (boot_event E net n) (teardownTap E (vmTap i))"
  unfolding teardownTap_def
  by (intro emits_intros tap_commands_in [where i = i]) (simp_all add: tap_commands_def)

lemma emits_read_console: "emits (boot_event E net n) (read_console E i ls out)"
  unfolding read_console_def by (intro emits_intros) simp_all

lemma emits_run_vm:
  "runs_firecracker E argv \<Longrightarrow> emits (boot_event E net n) (run_vm E i argv out)"
  unfolding run_vm_def by (intro emits_intros emits_read_console) simp_all

lemma emits_bootOne:
  assumes "i < n" and "fcBin = fc_path E"
  shows "emits (boot_event E net n) (bootOne E net i fcBin kern initramfs workDir)"
  unfolding bootOne_def Let_def echoServer_def go_create_def go_truncate_def go_write_def
  using assms
  by (intro emits_intros emits_setupTap emits_teardownTap emits_run_vm)
    (simp_all add: runs_firecracker_def)

lemma emits_alone:
  assumes "emits (boot_event E net n) (body i)" and "i < n"
  shows "list_all (boot_event E net n) (snd (alone w body i))"
proof -
  let ?m = "do { emit (EvSpawn i); body i }"
  have "emits (boot_event E net n) ?m"
    using assms by (intro emits_intros) simp_all
  then obtain evs where "list_all (boot_event E net n) evs" "w_trace (exec ?m w) = w_trace w @ evs"
    by (rule emitsD)
  then show ?thesis by (auto simp: alone_def exec_def split: prod.splits)
qed

lemma emits_boot_all:
  assumes "schedule_ok E" and "\<And>i. i < n \<Longrightarrow> emits (boot_event E net n) (body i)"
  shows "emits (boot_event E net n) (boot_all E n body)"
proof -
  have "list_all (boot_event E net n) (vm_mix E (map (\<lambda>i. snd (alone w body i)) [0..<n]))" for w
  proof -
    have "interleaves (map (\<lambda>i. snd (alone w body i)) [0..<n]) (vm_mix E (map (\<lambda>i. snd (alone w body i)) [0..<n]))"
      using assms(1) by (simp add: schedule_ok_def)
    from interleaves_elem [OF this] show ?thesis
      using emits_alone [of E net n body _ w] assms(2) by (fastforce simp: list_all_iff)
  qed
  then show ?thesis by (auto simp: state_io_rel_exec emits_rel_def boot_all_def exec_def)
qed

lemma emits_judge: "(\<And>s. ok (EvStderr s)) \<Longrightarrow> emits ok (judgeOutcomes E os)"
  unfolding judgeOutcomes_def report_failures_def report_virtio_def report_network_def
  by (intro emits_intros)

lemma emits_run_vms:
  assumes "schedule_ok E" and "\<And>i. i < nat (fl_vms E) \<Longrightarrow> emits (boot_event E net (nat (fl_vms E))) (body i)"
  shows "emits (boot_event E net (nat (fl_vms E))) (run_vms E body)"
  unfolding run_vms_def using assms
  by (intro emits_intros emits_judge emits_boot_all) simp_all

lemma emits_resolveArtifact:
  assumes ok: "\<And>p fd. ok (EvOpen p fd)" "\<And>fd. ok (EvRead fd)" "\<And>fd. ok (EvClose fd)" "\<And>s. ok (EvStderr s)"
      "\<And>p. ok (EvCreate p)" "\<And>p c. ok (EvWrite p c)" "\<And>p. ok (EvRemove p)" "ok (EvMkdir cacheDir)"
      "\<And>q. ok (EvRename (q @ ''.partial'') q)"
    and url: "\<not> fl_offline E \<Longrightarrow> ok (EvHttpGet (art_url a))"
  shows "emits ok (resolveArtifact E cacheDir name a)"
proof (cases "fl_offline E")
  case True
  then show ?thesis
    unfolding resolveArtifact_def Let_def by (simp cong: if_cong) (intro emits_intros ok)
next
  case False
  with url have "ok (EvHttpGet (art_url a))" by simp
  then show ?thesis
    unfolding resolveArtifact_def download_def install_def extractFromTarGz_def Let_def go_mkdir_def go_http_def
      go_create_def go_write_def go_rename_def
    by (intro emits_intros emits_copy_member ok)
qed

lemma emits_boot_firecracker:
  assumes "firecrackerArtifacts (goarch E) = Some art"
  shows "emits (boot_event E net n) (boot_firecracker E art)"
  unfolding boot_firecracker_def
  by (intro emits_intros emits_resolveArtifact) (simp_all add: pinned_urls_def assms)

lemma emits_boot_kernel: "emits (boot_event E net n) (boot_kernel E)"
  unfolding boot_kernel_def
  by (intro emits_intros emits_resolveArtifact) (simp_all add: pinned_urls_def)

lemma emits_read_self: "emits (boot_event E net n) (read_self E)"
  unfolding read_self_def check_linkage_def elfInterpreter_def by (intro emits_intros) simp_all

lemma emits_boot_in:
  assumes "schedule_ok E" and "fcBin = fc_path E"
  shows "emits (boot_event E net (nat (fl_vms E))) (boot_in E net fcBin kern selfBytes workDir)"
  unfolding boot_in_def Let_def go_write_def
  by (intro emits_intros emits_run_vms emits_bootOne assms) simp_all

text \<open>What is run is the supplied binary or the one that was resolved.\<close>

lemma boot_firecracker_result:
  assumes "result_of (boot_firecracker E art) w = Some p"
  shows "p = fc_path E \<and> (fl_firecracker E = [] \<longrightarrow>
    cached_at E (w_trace w) p (art_sha256 art) \<or> \<not> fl_offline E \<and> verified_download E art)"
  using assms resolveArtifact_result
  by (fastforce simp: boot_firecracker_def fc_path_def split: if_splits sum.splits)

lemma emits_bind_result:
  assumes "emits ok m" and "\<And>w. emits ok (f (result_of m w))"
  shows "emits ok (m \<bind> f)"
proof -
  have "emits_rel ok w (exec m w)" "emits_rel ok (exec m w) (exec (f (result_of m w)) (exec m w))" for w
    using assms by (simp_all add: state_io_rel_exec)
  then show ?thesis using em.trans by (fastforce simp: state_io_rel_exec)
qed

lemma emits_boot_with:
  assumes "schedule_ok E" and "fcBin = fc_path E"
  shows "emits (boot_event E net (nat (fl_vms E))) (boot_with E net fcBin)"
  unfolding boot_with_def go_mkdir_temp_def
  by (intro emits_intros emits_boot_kernel emits_read_self emits_boot_in assms) simp_all

lemma emits_runBootStage:
  assumes "schedule_ok E"
  shows "emits (boot_event E net (nat (fl_vms E))) (runBootStage E net)"
proof -
  have "emits (boot_event E net (nat (fl_vms E)))
      (case result_of (boot_firecracker E art) w of None \<Rightarrow> return Returned | Some fcBin \<Rightarrow> boot_with E net fcBin)"
    for art w
    using boot_firecracker_result [of E art w] emits_boot_with [OF assms]
    by (cases "result_of (boot_firecracker E art) w") (auto simp: em.keeps_return)
  then have "firecrackerArtifacts (goarch E) = Some art \<Longrightarrow> emits (boot_event E net (nat (fl_vms E)))
      (do { fc \<leftarrow> boot_firecracker E art; case fc of None \<Rightarrow> return Returned | Some fcBin \<Rightarrow> boot_with E net fcBin })" for art
    by (intro emits_bind_result emits_boot_firecracker)
  moreover have "emits (boot_event E net (nat (fl_vms E))) (do { Addf E i t st d; return Returned })"
    "emits (boot_event E net (nat (fl_vms E))) (do { report_Blocked E i t d r; return Returned })" for i t st d r
    by (intro emits_intros; simp)+
  ultimately show ?thesis
    unfolding runBootStage_def by (simp split: option.split)
qed

section \<open>The results of the stage\<close>

text \<open>A microVM reports nothing itself.\<close>

lemma adds_run_command [adds_intros]: "adds P (run_command E argv)"
  unfolding run_command_def go_output_def by (intro adds_intros)

lemma adds_bootOne: "adds P (bootOne E net i fcBin kern initramfs workDir)"
  unfolding bootOne_def setupTap_def teardownTap_def echoServer_def go_create_def go_truncate_def go_write_def
    run_vm_def read_console_def failed_with_def
  by (intro adds_intros)

lemma bootOne_report: "w_report (exec (bootOne E net i fcBin kern initramfs workDir) w) = w_report w"
  by (rule adds_none [OF adds_bootOne])

lemma adds_copy_member: "adds P (copy_member E archive member dest ms end)"
proof (induction ms)
  case (Cons m ms)
  obtain nm content cut_short where "m = (nm, content, cut_short)" by (metis prod_cases3)
  with Cons show ?case by (simp add: go_create_def go_write_def) (intro conjI impI adds_intros)
qed (simp, intro adds_intros)

lemma adds_resolveArtifact [adds_intros]: "adds P (resolveArtifact E cacheDir name a)"
  unfolding resolveArtifact_def fileHasDigest_def download_def install_def extractFromTarGz_def go_mkdir_def
    go_http_def go_create_def go_write_def go_rename_def
  by (intro adds_intros adds_copy_member)

text \<open>
  Every failure carries a remedy but those of building the initramfs and of the working
  directory; a blocked result is the missing privilege.
\<close>

definition boot_result_ok :: "result \<Rightarrow> bool" where
  "boot_result_ok x \<longleftrightarrow> prefix ''boot.'' (res_ID x) \<and>
    (res_Status x = Fail \<longrightarrow> res_Remedy x \<noteq> [] \<or> res_ID x \<in> {''boot.initramfs'', ''boot.workdir''}) \<and>
    (res_Status x = Warn \<longrightarrow> res_Remedy x \<noteq> []) \<and>
    (res_Status x = Blocked \<longrightarrow> res_ID x = ''boot.privileges'' \<and> res_Remedy x \<noteq> [])"

lemma adds_boot_all: "adds P (boot_all E n body)"
  unfolding state_io_rel_exec adds_rel_def by (intro allI exI [of _ "[]"]) simp

lemma adds_judge: "adds boot_result_ok (judgeOutcomes E os)"
  unfolding judgeOutcomes_def report_failures_def report_virtio_def report_network_def
  by (intro adds_intros) (simp_all add: boot_result_ok_def tag_simps)

lemma adds_boot_in: "adds boot_result_ok (boot_in E net fcBin kern selfBytes workDir)"
  unfolding boot_in_def run_vms_def go_write_def
  by (intro adds_intros adds_judge adds_boot_all adds_bootOne) (simp_all add: boot_result_ok_def)

lemma adds_boot_with: "adds boot_result_ok (boot_with E net fcBin)"
  unfolding boot_with_def boot_kernel_def read_self_def check_linkage_def elfInterpreter_def go_mkdir_temp_def
  by (intro adds_intros adds_boot_in) (simp_all add: boot_result_ok_def)

lemma adds_runBootStage: "adds boot_result_ok (runBootStage E net)"
  unfolding runBootStage_def boot_firecracker_def
  by (intro adds_intros adds_boot_with) (simp_all add: boot_result_ok_def)

lemma runBootStage_results:
  obtains rs where "list_all boot_result_ok rs"
    and "w_report (exec (runBootStage E net) w) = (w_report w)\<lparr>rep_Results := results w @ rs\<rparr>"
  using adds_runBootStage [of E net] by (auto simp: state_io_rel_exec adds_rel_def)

section \<open>The working directory\<close>

fun makes_temp :: "event \<Rightarrow> bool" where
  "makes_temp (EvMkdirTemp d) = True"
| "makes_temp _ = False"

abbreviation makes_none :: "'a go \<Rightarrow> bool" where
  "makes_none m \<equiv> emits (\<lambda>ev. \<not> makes_temp ev) m"

text \<open>Either no directory was made, or what was made first is removed last.\<close>

definition cleaned :: "hist \<Rightarrow> hist \<Rightarrow> bool" where
  "cleaned h h' \<longleftrightarrow> (\<exists>evs. h' = h @ evs \<and> (list_all (\<lambda>ev. \<not> makes_temp ev) evs \<or>
     (\<exists>d xs ys. evs = xs @ EvMkdirTemp d # ys @ [EvRemoveAll d] \<and> list_all (\<lambda>ev. \<not> makes_temp ev) xs)))"

lemma cleaned_none: "makes_none m \<Longrightarrow> cleaned (w_trace w) (w_trace (exec m w))"
  by (auto simp: state_io_rel_exec emits_rel_def cleaned_def)

lemma cleaned_option:
  assumes "\<And>w. cleaned (w_trace w) (w_trace (exec a w))" and "\<And>x w. cleaned (w_trace w) (w_trace (exec (f x) w))"
  shows "cleaned (w_trace w) (w_trace (exec (case_option a f v) w))"
  using assms by (simp split: option.split)

lemma cleaned_after:
  assumes "makes_none m" and "\<And>x w. cleaned (w_trace w) (w_trace (exec (f x) w))"
  shows "cleaned (w_trace w) (w_trace (exec (m \<bind> f) w))"
proof -
  from assms(1) obtain evs where 1: "list_all (\<lambda>ev. \<not> makes_temp ev) evs" "w_trace (exec m w) = w_trace w @ evs"
    by (auto simp: state_io_rel_exec emits_rel_def)
  from assms(2) [of "exec m w" "result_of m w"] obtain evs' where
    2: "w_trace (exec (m \<bind> f) w) = w_trace w @ evs @ evs'" "list_all (\<lambda>ev. \<not> makes_temp ev) evs' \<or>
     (\<exists>d xs ys. evs' = xs @ EvMkdirTemp d # ys @ [EvRemoveAll d] \<and> list_all (\<lambda>ev. \<not> makes_temp ev) xs)"
    by (auto simp: cleaned_def 1(2))
  from 2(2) show ?thesis
  proof
    assume "list_all (\<lambda>ev. \<not> makes_temp ev) evs'"
    with 1 2(1) show ?thesis by (simp add: cleaned_def)
  next
    assume "\<exists>d xs ys. evs' = xs @ EvMkdirTemp d # ys @ [EvRemoveAll d] \<and> list_all (\<lambda>ev. \<not> makes_temp ev) xs"
    then obtain d xs ys where "evs' = xs @ EvMkdirTemp d # ys @ [EvRemoveAll d]" "list_all (\<lambda>ev. \<not> makes_temp ev) xs"
      by blast
    with 1 2(1) show ?thesis
      unfolding cleaned_def by (intro exI [of _ "evs @ evs'"] conjI disjI2 exI [of _ d] exI [of _ "evs @ xs"] exI [of _ ys]) simp_all
  qed
qed

lemma emits_everything: "emits (\<lambda>ev. True) (boot_in E net fcBin kern selfBytes workDir)"
proof -
  have "emits (\<lambda>ev. True) (boot_all E n body)" for n body
    by (auto simp: state_io_rel_exec emits_rel_def boot_all_def exec_def list_all_iff)
  then show ?thesis
    unfolding boot_in_def run_vms_def go_write_def bootOne_def setupTap_def teardownTap_def echoServer_def
      go_create_def go_truncate_def run_vm_def read_console_def
    by (intro emits_intros emits_judge) simp_all
qed

lemma cleaned_workdir:
  "cleaned (w_trace w) (w_trace (exec (with_defer (go_mkdir_temp E) (\<lambda>d. emit (EvRemoveAll d))
     (\<lambda>e. do { report_Fail E i t (err_text e) r; return Returned }) (boot_in E net fcBin kern selfBytes)) w))"
proof (cases "os_mkdir_temp E (w_trace w)")
  case (Inl e)
  have "makes_none (do { report_Fail E i t (err_text e) r; return Returned })"
    by (intro emits_intros) simp
  from cleaned_none [OF this] Inl show ?thesis by (simp add: with_defer_def go_mkdir_temp_def)
next
  case (Inr d)
  let ?w = "w\<lparr>w_trace := w_trace w @ [EvMkdirTemp d]\<rparr>"
  obtain evs where "w_trace (exec (boot_in E net fcBin kern selfBytes d) ?w) = w_trace ?w @ evs"
    by (rule emitsD [OF emits_everything])
  with Inr show ?thesis
    unfolding cleaned_def
    by (intro exI [of _ "[] @ EvMkdirTemp d # evs @ [EvRemoveAll d]"] conjI disjI2 exI [of _ d] exI [of _ "[]"] exI [of _ evs])
      (simp_all add: with_defer_def go_mkdir_temp_def)
qed

lemma cleaned_boot_with: "cleaned (w_trace w) (w_trace (exec (boot_with E net fcBin) w))"
proof -
  have "makes_none (return Returned)" by (intro emits_intros)
  moreover have "makes_none (boot_kernel E)" "makes_none (read_self E)"
    unfolding boot_kernel_def read_self_def check_linkage_def elfInterpreter_def
    by (intro emits_intros emits_resolveArtifact; simp)+
  ultimately show ?thesis
    unfolding boot_with_def by (intro cleaned_after cleaned_option cleaned_workdir cleaned_none)
qed

lemma cleaned_runBootStage: "cleaned (w_trace w) (w_trace (exec (runBootStage E net) w))"
proof -
  have none: "makes_none (return Returned)" by (intro emits_intros)
  have "makes_none (boot_firecracker E art)" for art
    unfolding boot_firecracker_def by (intro emits_intros emits_resolveArtifact; simp)
  then have "cleaned (w_trace w) (w_trace (exec (do { fc \<leftarrow> boot_firecracker E art;
      case fc of None \<Rightarrow> return Returned | Some fcBin \<Rightarrow> boot_with E net fcBin }) w))" for art
    by (intro cleaned_after cleaned_option cleaned_boot_with cleaned_none [OF none])
  moreover have "makes_none (do { Addf E i t st d; return Returned })"
    "makes_none (do { report_Blocked E i t d r; return Returned })" for i t st d r
    by (intro emits_intros; simp)+
  ultimately show ?thesis
    unfolding runBootStage_def by (simp del: exec_bind split: option.split add: cleaned_none)
qed

section \<open>Without privileges\<close>

lemma runBootStage_unprivileged:
  assumes "geteuid E \<noteq> 0"
  shows "tags (exec (runBootStage E net) w) = tags w @ [(''boot.privileges'', Blocked)]"
    and "\<exists>evs. list_all (\<lambda>ev. \<exists>s. ev = EvStderr s) evs \<and> w_trace (exec (runBootStage E net) w) = w_trace w @ evs"
proof -
  show "tags (exec (runBootStage E net) w) = tags w @ [(''boot.privileges'', Blocked)]"
    using assms by (simp add: runBootStage_def tag_simps)
  show "\<exists>evs. list_all (\<lambda>ev. \<exists>s. ev = EvStderr s) evs \<and> w_trace (exec (runBootStage E net) w) = w_trace w @ evs"
    using assms by (simp add: runBootStage_def report_Blocked_def Add_def)
qed

end
