(* ===== verification/Guest.thy ===== *)
theory Guest
  imports Boot Host_Parse
begin

text \<open>
  \<open>guest_linux.go\<close>: the program as the init of a microVM. It reads its settings from the
  kernel command line, measures, configures its network, talks to the echo server and prints
  its report. The work between two clock readings has no effect of its own, so a measurement is
  a function of the readings.
\<close>

section \<open>Settings\<close>

record guest_settings =
  gs_Iface :: string
  gs_IP :: string
  gs_Mask :: string
  gs_Host :: string
  gs_Port :: int
  gs_Disk :: string

definition default_settings :: guest_settings where
  "default_settings = \<lparr>gs_Iface = ''eth0'', gs_IP = [], gs_Mask = ''255.255.255.252'', gs_Host = [],
     gs_Port = int echoPort, gs_Disk = []\<rparr>"

definition set_param :: "string \<Rightarrow> string \<Rightarrow> guest_settings \<Rightarrow> guest_settings" where
  "set_param k v gs =
    (if k = ''fcpf.ip'' then gs\<lparr>gs_IP := v\<rparr>
     else if k = ''fcpf.mask'' then gs\<lparr>gs_Mask := v\<rparr>
     else if k = ''fcpf.host'' then gs\<lparr>gs_Host := v\<rparr>
     else if k = ''fcpf.iface'' then gs\<lparr>gs_Iface := v\<rparr>
     else if k = ''fcpf.disk'' then gs\<lparr>gs_Disk := v\<rparr>
     else if k = ''fcpf.port'' then (case atoi v of Some n \<Rightarrow> gs\<lparr>gs_Port := n\<rparr> | None \<Rightarrow> gs)
     else gs)"

definition parse_field :: "string \<Rightarrow> guest_settings \<Rightarrow> guest_settings" where
  "parse_field field gs = (case cut field ''='' of None \<Rightarrow> gs | Some (k, v) \<Rightarrow> set_param k v gs)"

definition parseGuestCmdline :: "string \<Rightarrow> guest_settings \<Rightarrow> guest_settings" where
  "parseGuestCmdline cmdline gs = fold parse_field (str_fields cmdline) gs"

section \<open>Reading\<close>

definition readGuestFile :: "env \<Rightarrow> string \<Rightarrow> string go" where
  "readGuestFile E p = do { r \<leftarrow> ReadFile E p; return (case r of Inl e \<Rightarrow> [] | Inr b \<Rightarrow> b) }"

definition readGuestTrim :: "env \<Rightarrow> string \<Rightarrow> string go" where
  "readGuestTrim E p = do { s \<leftarrow> readGuestFile E p; return (trim_space s) }"

text \<open>
  \<open>strconv.ParseFloat\<close> with its error dropped: zero for a syntax error, an infinity beyond the
  range. Literals are decimal, or a name of infinity or not-a-number; the kernel writes no
  hexadecimal or underscored ones, and they are read as syntax errors here.
\<close>

definition mantissa :: "string \<Rightarrow> (string \<times> string \<times> string) option" where
  "mantissa s =
    (case digits_prefix s of (i, r) \<Rightarrow>
      (if r \<noteq> [] \<and> hd r = CHR ''.'' then
         (case digits_prefix (tl r) of (f, r') \<Rightarrow> if i = [] \<and> f = [] then None else Some (i, f, r'))
       else if i = [] then None else Some (i, [], r)))"

definition parse_float_lax :: "string \<Rightarrow> f64" where
  "parse_float_lax s =
    (let neg = (s \<noteq> [] \<and> hd s = CHR ''-'');
         t = (if s \<noteq> [] \<and> (hd s = CHR ''-'' \<or> hd s = CHR ''+'') then tl s else s) in
     if to_lower t \<in> {''inf'', ''infinity''} then Inf neg
     else if to_lower s = ''nan'' then NaN
     else case mantissa t of None \<Rightarrow> f_zero
     | Some (i, f, r) \<Rightarrow> (case exp_part r of None \<Rightarrow> f_zero
        | Some (e, r') \<Rightarrow> if r' \<noteq> [] then f_zero
            else round_mag neg (of_nat (digits_value (i @ f)) * exp10 (exp_value e - int (length f)))))"

definition readUptime :: "env \<Rightarrow> f64 go" where
  "readUptime E = do {
     s \<leftarrow> readGuestFile E ''/proc/uptime'';
     return (case str_fields s of [] \<Rightarrow> f_zero | f # fs \<Rightarrow> parse_float_lax f) }"

definition guestLogf :: "string \<Rightarrow> unit go" where
  "guestLogf s = emit (EvStdout (guestLogPrefix @ s @ [newline]))"

section \<open>Time\<close>

definition go_now :: "env \<Rightarrow> int go" where
  "go_now E = effect EvClock (\<lambda>h. os_clock E h)"

text \<open>Division of integers truncates.\<close>

definition quot :: "int \<Rightarrow> int \<Rightarrow> int" where
  "quot a b = sgn a * sgn b * (\<bar>a\<bar> div \<bar>b\<bar>)"

text \<open>\<open>Duration.Seconds\<close>.\<close>

definition seconds :: "int \<Rightarrow> f64" where
  "seconds d = f_add (f_of_int (quot d 1000000000))
     (f_div (f_of_int (d - 1000000000 * quot d 1000000000)) (f_of_int 1000000000))"

definition clock_reads :: nat where "clock_reads = 200000"

definition measureClockRead :: "env \<Rightarrow> f64 go" where
  "measureClockRead E = do {
     start \<leftarrow> go_now E;
     for_each [0..<clock_reads] (\<lambda>i. do { go_now E; return () });
     stop \<leftarrow> go_now E;
     return (f_div (f_of_int (stop - start)) (f_of_int (int clock_reads))) }"

definition measureHash :: "env \<Rightarrow> int \<Rightarrow> f64 go" where
  "measureHash E workers = do {
     start \<leftarrow> go_now E;
     stop \<leftarrow> go_now E;
     return (f_div (f_of_int (workers * 64)) (seconds (stop - start))) }"

definition measureMemWrite :: "env \<Rightarrow> f64 go" where
  "measureMemWrite E = do {
     start \<leftarrow> go_now E;
     stop \<leftarrow> go_now E;
     return (f_div (f_div (f_of_int (8 * 2 ^ 26)) (seconds (stop - start))) (f_of_int (2 ^ 20))) }"

section \<open>The disk\<close>

text \<open>A loop that ends at the first error.\<close>

fun until_error :: "'x list \<Rightarrow> ('x \<Rightarrow> 'e option go) \<Rightarrow> 'e option go" where
  "until_error [] body = return None"
| "until_error (x # xs) body = do {
     e \<leftarrow> body x;
     case e of Some e \<Rightarrow> return (Some e) | None \<Rightarrow> until_error xs body }"

definition disk_total :: nat where "disk_total = 2 ^ 25"
definition disk_block :: nat where "disk_block = 2 ^ 20"

definition disk_offsets :: "nat list" where
  "disk_offsets = map (\<lambda>k. k * disk_block) [0..<disk_total div disk_block]"

definition disk_rate :: "int \<Rightarrow> int \<Rightarrow> f64" where
  "disk_rate start stop =
    f_div (f_div (f_of_int (int disk_total)) (seconds (stop - start))) (f_of_int (2 ^ 20))"

definition measureDisk :: "env \<Rightarrow> string \<Rightarrow> (os_error + f64 \<times> f64) go" where
  "measureDisk E dev =
    (if dev = [] then return (Inl (errorf ''no fcpf.disk on the kernel command line''))
     else with_defer (go_open E dev True) go_close (\<lambda>e. return (Inl e)) (\<lambda>fd. do {
       start \<leftarrow> go_now E;
       unless_error (until_error disk_offsets (\<lambda>off.
           effect (EvWriteAt fd off disk_block) (\<lambda>h. os_write_at E h fd off disk_block)))
         (\<lambda>e. return (Inl e))
       (unless_error (effect (EvSync fd) (\<lambda>h. os_sync E h fd)) (\<lambda>e. return (Inl e)) (do {
          stop \<leftarrow> go_now E;
          go_write E ''/proc/sys/vm/drop_caches'' ''3'';
          start' \<leftarrow> go_now E;
          unless_error (until_error disk_offsets (\<lambda>off.
              effect (EvReadAt fd off disk_block) (\<lambda>h. os_read_at E h fd off disk_block)))
            (\<lambda>e. return (Inl e)) (do {
            stop' \<leftarrow> go_now E;
            return (Inr (disk_rate start stop, disk_rate start' stop')) }) })) }))"

section \<open>The network measurement\<close>

definition go_dial :: "env \<Rightarrow> string \<Rightarrow> (os_error + int) go" where
  "go_dial E addr = effect (EvDial addr) (\<lambda>h. os_dial E h addr)"

definition dial_timeout :: int where "dial_timeout = 10 * 1000000000"
definition dial_pause :: nat where "dial_pause = 100000000"

text \<open>
  Dial until it succeeds or the deadline has passed. The loop has no bound of its own: a round
  takes a unit of fuel, and out of fuel is \<open>None\<close>.
\<close>

fun dial_loop :: "env \<Rightarrow> nat \<Rightarrow> string \<Rightarrow> int \<Rightarrow> (os_error + int) option go" where
  "dial_loop E 0 addr deadline = return None"
| "dial_loop E (Suc n) addr deadline = do {
     r \<leftarrow> go_dial E addr;
     case r of Inr conn \<Rightarrow> return (Some (Inr conn))
     | Inl e \<Rightarrow> do {
         now \<leftarrow> go_now E;
         if deadline < now then return (Some (Inl (errorf (''dial '' @ addr @ '': '' @ err_text e))))
         else do {
           emit (EvSleep dial_pause);
           dial_loop E n addr deadline } } }"

definition dial_fuel :: nat where "dial_fuel = 102"
definition pings :: nat where "pings = 200"
definition net_block :: nat where "net_block = 2 ^ 16"
definition net_blocks :: nat where "net_blocks = 512"

definition go_send :: "env \<Rightarrow> int \<Rightarrow> nat \<Rightarrow> os_error option go" where
  "go_send E conn n = effect (EvSend conn n) (\<lambda>h. os_send E h conn n)"

definition go_receive :: "env \<Rightarrow> int \<Rightarrow> nat \<Rightarrow> os_error option go" where
  "go_receive E conn n = effect (EvReceive conn n) (\<lambda>h. os_receive E h conn n)"

definition wrapped :: "string \<Rightarrow> os_error \<Rightarrow> os_error" where
  "wrapped what e = OsErr (errno e) (what @ '': '' @ err_text e)"

definition ping :: "env \<Rightarrow> int \<Rightarrow> os_error option go" where
  "ping E conn = do {
     e \<leftarrow> go_send E conn 1;
     case e of Some e \<Rightarrow> return (Some (wrapped ''echo write'' e))
     | None \<Rightarrow> do {
         e \<leftarrow> go_receive E conn 1;
         return (map_option (wrapped ''echo read'') e) } }"

text \<open>The goroutine that empties the connection during the second half has no events here.\<close>

definition measure_conn :: "env \<Rightarrow> int \<Rightarrow> (os_error + f64 \<times> f64) go" where
  "measure_conn E conn = do {
     start \<leftarrow> go_now E;
     unless_error (until_error [0..<pings] (\<lambda>i. ping E conn)) (\<lambda>e. return (Inl e)) (do {
       stop \<leftarrow> go_now E;
       start' \<leftarrow> go_now E;
       unless_error (until_error [0..<net_blocks] (\<lambda>i. go_send E conn net_block))
         (\<lambda>e. return (Inl (wrapped ''throughput write'' e))) (do {
         stop' \<leftarrow> go_now E;
         return (Inr (f_div (f_of_int (quot (stop - start) 1000)) (f_of_int (int pings)),
           f_div (f_div (f_mul (f_of_int (int (net_blocks * net_block))) (f_of_int 8)) (seconds (stop' - start')))
             (f_of_int 1000000))) }) }) }"

definition measureNet :: "env \<Rightarrow> string \<Rightarrow> int \<Rightarrow> (os_error + f64 \<times> f64) option go" where
  "measureNet E host port = do {
     now \<leftarrow> go_now E;
     d \<leftarrow> dial_loop E dial_fuel (join_host_port host (dec_int port)) (now + dial_timeout);
     case d of None \<Rightarrow> return None
     | Some (Inl e) \<Rightarrow> return (Some (Inl e))
     | Some (Inr conn) \<Rightarrow> deferring (go_close conn) (do { r \<leftarrow> measure_conn E conn; return (Some r) }) }"

section \<open>The network configuration\<close>

definition siocSIFADDR :: nat where "siocSIFADDR = 0x8916"
definition siocSIFNETMASK :: nat where "siocSIFNETMASK = 0x891c"
definition siocGIFFLAGS :: nat where "siocGIFFLAGS = 0x8913"
definition siocSIFFLAGS :: nat where "siocSIFFLAGS = 0x8914"
definition iffUp :: "16 word" where "iffUp = 0x1"
definition iffRunning :: "16 word" where "iffRunning = 0x40"

text \<open>The two request structures, 40 bytes each, in the byte order of the machine (little endian).\<close>

definition c_name :: "string \<Rightarrow> bytes" where
  "c_name s = take 16 (s @ replicate 16 nul)"

definition le16 :: "16 word \<Rightarrow> bytes" where
  "le16 v = [char_of (unat v mod 256), char_of (unat v div 256)]"

definition ifreqAddr :: "string \<Rightarrow> octets \<Rightarrow> bytes" where
  "ifreqAddr iface ip = c_name iface @ le16 2 @ le16 0 @ map (\<lambda>b. char_of (unat b)) ip @
     replicate 8 nul @ replicate 8 nul"

definition ifreqFlags :: "string \<Rightarrow> 16 word \<Rightarrow> bytes" where
  "ifreqFlags iface flags = c_name iface @ le16 flags @ replicate 22 nul"

text \<open>The call on a request: an error, or what the flags of the request are afterwards.\<close>

definition ifreq :: "env \<Rightarrow> int \<Rightarrow> nat \<Rightarrow> bytes \<Rightarrow> (os_error + 16 word) go" where
  "ifreq E fd req b = effect (EvIfreq fd req b) (\<lambda>h. os_ifreq E h fd req b)"

definition set_ip :: "env \<Rightarrow> int \<Rightarrow> string \<Rightarrow> nat \<Rightarrow> string \<Rightarrow> os_error option go" where
  "set_ip E fd iface req ip =
    (case (case parse_addr ip of None \<Rightarrow> None | Some a \<Rightarrow> to4 a) of
       None \<Rightarrow> return (Some (errorf (''not an IPv4 address: '' @ quote ip)))
     | Some parsed \<Rightarrow> do {
         r \<leftarrow> ifreq E fd req (ifreqAddr iface parsed);
         return (case r of Inl e \<Rightarrow> Some e | Inr v \<Rightarrow> None) })"

definition set_up :: "env \<Rightarrow> int \<Rightarrow> string \<Rightarrow> os_error option go" where
  "set_up E fd iface = do {
     r \<leftarrow> ifreq E fd siocGIFFLAGS (ifreqFlags iface 0);
     case r of Inl e \<Rightarrow> return (Some (wrapped ''get flags'' e))
     | Inr flags \<Rightarrow> do {
         r \<leftarrow> ifreq E fd siocSIFFLAGS (ifreqFlags iface (or flags (or iffUp iffRunning)));
         return (case r of Inl e \<Rightarrow> Some (wrapped ''set flags up'' e) | Inr v \<Rightarrow> None) } }"

definition go_socket :: "env \<Rightarrow> (os_error + int) go" where
  "go_socket E = do {
     r \<leftarrow> effect EvSocket (\<lambda>h. os_socket E h);
     case r of Inl e \<Rightarrow> return (Inl e)
     | Inr fd \<Rightarrow> do { emit (EvOpen ''socket'' fd); return (Inr fd) } }"

definition configureGuestNet :: "env \<Rightarrow> string \<Rightarrow> string \<Rightarrow> string \<Rightarrow> os_error option go" where
  "configureGuestNet E iface addr netmask =
    with_defer (go_socket E) go_close (\<lambda>e. return (Some (wrapped ''socket'' e)))
      (\<lambda>fd. unless_error (set_ip E fd iface siocSIFADDR addr) (\<lambda>e. return (Some (wrapped ''set address'' e)))
        (unless_error (set_ip E fd iface siocSIFNETMASK netmask) (\<lambda>e. return (Some (wrapped ''set netmask'' e)))
          (set_up E fd iface)))"

section \<open>The run\<close>

definition guest_mounts :: "(string \<times> string \<times> string) list" where
  "guest_mounts = [(''proc'', ''/proc'', ''proc''), (''sysfs'', ''/sys'', ''sysfs''),
     (''devtmpfs'', ''/dev'', ''devtmpfs''), (''tmpfs'', ''/tmp'', ''tmpfs'')]"

definition mount_all :: "env \<Rightarrow> guest_report \<Rightarrow> guest_report go" where
  "mount_all E rep = for_acc guest_mounts rep (\<lambda>(src, dst, fs) rep. do {
     e \<leftarrow> effect (EvMount src dst fs) (\<lambda>h. os_mount E h src dst fs);
     return (case e of None \<Rightarrow> rep
       | Some e \<Rightarrow> rep\<lparr>gr_Errors := gr_Errors rep @ [''mount '' @ fs @ '' on '' @ dst @ '': '' @ err_text e]\<rparr>) })"

definition identify :: "env \<Rightarrow> guest_report \<Rightarrow> guest_report go" where
  "identify E rep = do {
     up \<leftarrow> readUptime E;
     rel \<leftarrow> readGuestTrim E ''/proc/sys/kernel/osrelease'';
     cmd \<leftarrow> readGuestTrim E ''/proc/cmdline'';
     mem \<leftarrow> memTotalKB E;
     cs \<leftarrow> readGuestTrim E ''/sys/devices/system/clocksource/clocksource0/current_clocksource'';
     av \<leftarrow> readGuestTrim E ''/sys/devices/system/clocksource/clocksource0/available_clocksource'';
     return (rep\<lparr>gr_UptimeAtStart := up, gr_KernelVersion := rel, gr_Cmdline := cmd, gr_CPUs := num_cpu E,
       gr_MemTotalKB := mem, gr_Clocksource := cs, gr_AvailClock := av\<rparr>) }"

definition virtio_dir :: string where "virtio_dir = ''/sys/bus/virtio/devices''"

definition driver_of :: "env \<Rightarrow> string \<Rightarrow> string go" where
  "driver_of E name = do {
     let p = virtio_dir @ ''/'' @ name @ ''/driver'';
     l \<leftarrow> effect (EvReadLink p) (\<lambda>h. os_readlink E h p);
     return (case l of Inl e \<Rightarrow> ''(unbound)''
       | Inr l \<Rightarrow> last (split_on CHR ''/'' (trim_right_char CHR ''/'' l))) }"

definition find_virtio :: "env \<Rightarrow> guest_report \<Rightarrow> guest_report go" where
  "find_virtio E rep = do {
     ents \<leftarrow> effect (EvReadDir virtio_dir) (\<lambda>h. os_readdir E h virtio_dir);
     case ents of Inl e \<Rightarrow> return rep
     | Inr names \<Rightarrow> for_acc names rep (\<lambda>name rep. do {
         drv \<leftarrow> driver_of E name;
         return (rep\<lparr>gr_VirtioDevices := Some (gm_put name drv
           (case gr_VirtioDevices rep of None \<Rightarrow> [] | Some m \<Rightarrow> m))\<rparr>) }) }"

definition measure_cpu :: "env \<Rightarrow> guest_report \<Rightarrow> guest_report go" where
  "measure_cpu E rep = do {
     guestLogf (''virtio devices: '' @ show_map (gr_VirtioDevices rep));
     ns \<leftarrow> measureClockRead E;
     guestLogf (''clock_gettime: '' @ fmt_f 1 ns @ '' ns/read'');
     one \<leftarrow> measureHash E 1;
     many \<leftarrow> measureHash E (num_cpu E);
     guestLogf (''sha256: '' @ fmt_f 0 one @ '' MB/s single core, '' @ fmt_f 0 many @ '' MB/s across '' @ dec_int (num_cpu E));
     mw \<leftarrow> measureMemWrite E;
     guestLogf (''memory write: '' @ fmt_f 0 mw @ '' MB/s'');
     return (rep\<lparr>gr_ClockReadNS := ns, gr_CPUHashMBps := one, gr_CPUHashMBpsN := many, gr_MemWriteMBps := mw\<rparr>) }"

definition measure_disk :: "env \<Rightarrow> guest_settings \<Rightarrow> guest_report \<Rightarrow> guest_report go" where
  "measure_disk E gs rep = do {
     d \<leftarrow> measureDisk E (gs_Disk gs);
     case d of
       Inr (w, rd) \<Rightarrow> do {
         guestLogf (''disk /dev/vdb: '' @ fmt_f 0 w @ '' MB/s write, '' @ fmt_f 0 rd @ '' MB/s read'');
         return (rep\<lparr>gr_DiskWriteMBps := w, gr_DiskReadMBps := rd\<rparr>) }
     | Inl e \<Rightarrow> do {
         guestLogf (''disk: skipped ('' @ err_text e @ '')'');
         return rep } }"

text \<open>The network part: \<open>None\<close> when the dial loop is out of fuel.\<close>

definition measure_network :: "env \<Rightarrow> guest_settings \<Rightarrow> guest_report \<Rightarrow> guest_report option go" where
  "measure_network E gs rep =
    (if gs_IP gs = [] \<or> gs_Host gs = [] then
       return (Some (rep\<lparr>gr_NetError := ''no fcpf.ip/fcpf.host on the kernel command line''\<rparr>))
     else do {
       e \<leftarrow> configureGuestNet E (gs_Iface gs) (gs_IP gs) (gs_Mask gs);
       case e of
         Some e \<Rightarrow> return (Some (rep\<lparr>gr_NetError := ''configure '' @ gs_Iface gs @ '': '' @ err_text e\<rparr>))
       | None \<Rightarrow> do {
           m \<leftarrow> measureNet E (gs_Host gs) (gs_Port gs);
           case m of None \<Rightarrow> return None
           | Some (Inl e) \<Rightarrow> return (Some (rep\<lparr>gr_NetError := err_text e\<rparr>))
           | Some (Inr (rtt, tput)) \<Rightarrow> do {
               guestLogf (''network: '' @ fmt_f 0 rtt @ '' us echo RTT, '' @ fmt_f 0 tput @ '' Mb/s'');
               return (Some (rep\<lparr>gr_NetEchoRTTus := rtt, gr_NetThroughput := tput\<rparr>)) } } })"

text \<open>The report line, the pause and the reset that tells Firecracker the run is over.\<close>

definition finish_guest :: "env \<Rightarrow> guest_report \<Rightarrow> guest_report go" where
  "finish_guest E rep = do {
     (if gr_NetError rep \<noteq> [] then guestLogf (''network: FAILED: '' @ gr_NetError rep) else return ());
     let rep = rep\<lparr>gr_OK := gr_Errors rep = []\<rparr>;
     emit (EvStdout (guestReportPrefix @ marshal_report rep @ [newline]));
     emit (EvSync 1);
     emit (EvSleep 200000000);
     emit EvReboot;
     return rep }"

text \<open>The report that is printed, or \<open>None\<close> when the run never gets there.\<close>

definition runGuest :: "env \<Rightarrow> guest_report option go" where
  "runGuest E = do {
     rep \<leftarrow> mount_all E (empty_report\<lparr>gr_VirtioDevices := Some []\<rparr>);
     guestLogf (''guest init running, pid '' @ dec_int (getpid E));
     rep \<leftarrow> identify E rep;
     rep \<leftarrow> find_virtio E rep;
     rep \<leftarrow> measure_cpu E rep;
     let gs = parseGuestCmdline (gr_Cmdline rep) default_settings;
     rep \<leftarrow> measure_disk E gs rep;
     net \<leftarrow> measure_network E gs rep;
     case net of None \<Rightarrow> return None
     | Some rep \<Rightarrow> do { rep \<leftarrow> finish_guest E rep; return (Some rep) } }"

end
