(* ===== verification/Flags.thy ===== *)
theory Flags
  imports Boot
begin

text \<open>
  The command line of \<open>main.go\<close>: the table of the flags, what \<open>flag.Parse\<close> makes of the arguments
  and the usage text. The values of the flags are the first fields of \<open>env\<close>.
\<close>

section \<open>The flags\<close>

datatype flag_value = FStr string | FInt int | FBool bool

record flag_def =
  fd_name :: string
  fd_default :: flag_value
  fd_usage :: string

definition flag_table :: "flag_def list" where
  "flag_table =
   [\<lparr>fd_name = ''stage'', fd_default = FStr ''preflight'',
     fd_usage = ''which stage to run: preflight, boot, or all''\<rparr>,
    \<lparr>fd_name = ''json'', fd_default = FStr [],
     fd_usage = ''also write the report as JSON to this path (- for stdout)''\<rparr>,
    \<lparr>fd_name = ''v'', fd_default = FBool False,
     fd_usage = ''stream results and guest console output as they happen''\<rparr>,
    \<lparr>fd_name = ''offline'', fd_default = FBool False,
     fd_usage = ''never use the network; requires -firecracker and -kernel''\<rparr>,
    \<lparr>fd_name = ''firecracker'', fd_default = FStr [],
     fd_usage = ''path to a Firecracker binary (default: fetch the pinned release)''\<rparr>,
    \<lparr>fd_name = ''kernel'', fd_default = FStr [],
     fd_usage = ''path to an uncompressed guest kernel (default: fetch Firecracker's pinned CI kernel)''\<rparr>,
    \<lparr>fd_name = ''cache'', fd_default = FStr ''/var/cache/fc-preflight'',
     fd_usage = ''where to keep downloaded artifacts''\<rparr>,
    \<lparr>fd_name = ''vms'', fd_default = FInt 1,
     fd_usage = ''how many microVMs to boot concurrently in the boot stage''\<rparr>,
    \<lparr>fd_name = ''vcpus'', fd_default = FInt 2,
     fd_usage = ''vCPUs per microVM''\<rparr>,
    \<lparr>fd_name = ''mem'', fd_default = FInt 512,
     fd_usage = ''memory per microVM, in MiB''\<rparr>,
    \<lparr>fd_name = ''boot-timeout'', fd_default = FInt 90,
     fd_usage = ''seconds to wait for a microVM to report and exit''\<rparr>,
    \<lparr>fd_name = ''boot-args'', fd_default = FStr defaultBootArgs,
     fd_usage = ''guest kernel command line''\<rparr>,
    \<lparr>fd_name = ''guest-net'', fd_default = FStr ''172.31.240.0/22'',
     fd_usage = ''IPv4 range to carve per-microVM /30s from''\<rparr>,
    \<lparr>fd_name = ''guest'', fd_default = FBool False,
     fd_usage = ''internal: run as the microVM's init''\<rparr>]"

definition find_flag :: "string \<Rightarrow> flag_def option" where
  "find_flag name = find (\<lambda>f. fd_name f = name) flag_table"

type_synonym flag_values = "(string, flag_value) go_map"

definition default_flags :: flag_values where
  "default_flags = foldl (\<lambda>m f. gm_put (fd_name f) (fd_default f) m) [] flag_table"

lemma default_flags_foldl:
  "default_flags = foldl (\<lambda>m (k, v). gm_put k v m) [] (map (\<lambda>f. (fd_name f, fd_default f)) flag_table)"
  by (simp add: default_flags_def foldl_map)

lemma default_flags_ok: "gm_ok default_flags"
  unfolding default_flags_foldl by (intro gm.invar_put_all gm.invar_empty)

lemma default_flags_lookup:
  "gm_get default_flags k = map_of (rev (map (\<lambda>f. (fd_name f, fd_default f)) flag_table)) k"
  unfolding default_flags_foldl by (rule gm.lookup_put_all_empty)

section \<open>Values\<close>

definition parse_bool :: "string \<Rightarrow> bool option" where
  "parse_bool s =
    (if s \<in> {''1'', ''t'', ''T'', ''TRUE'', ''true'', ''True''} then Some True
     else if s \<in> {''0'', ''f'', ''F'', ''FALSE'', ''false'', ''False''} then Some False else None)"

text \<open>
  \<open>strconv.ParseInt\<close> with base zero: a prefix gives the base, and underscores may separate digits.
  The error is \<open>parse error\<close> or \<open>value out of range\<close>, whichever the scan meets first.
\<close>

definition base_prefix :: "string \<Rightarrow> nat \<times> string" where
  "base_prefix s =
    (if s = [] \<or> hd s \<noteq> CHR ''0'' then (10, s)
     else if 3 \<le> length s \<and> lower_char (s ! 1) = CHR ''b'' then (2, drop 2 s)
     else if 3 \<le> length s \<and> lower_char (s ! 1) = CHR ''o'' then (8, drop 2 s)
     else if 3 \<le> length s \<and> lower_char (s ! 1) = CHR ''x'' then (16, drop 2 s)
     else (8, drop 1 s))"

definition letter_digit :: "char \<Rightarrow> nat option" where
  "letter_digit c =
    (if is_dec_digit c then Some (dec_digit c)
     else if CHR ''a'' \<le> lower_char c \<and> lower_char c \<le> CHR ''z'' then Some (of_char (lower_char c) - 87)
     else None)"

fun scan_uint :: "nat \<Rightarrow> string \<Rightarrow> nat \<Rightarrow> string + nat" where
  "scan_uint b [] n = Inr n"
| "scan_uint b (c # cs) n =
    (if c = CHR ''_'' then scan_uint b cs n
     else case letter_digit c of None \<Rightarrow> Inl ''parse error''
     | Some d \<Rightarrow>
        if b \<le> d then Inl ''parse error''
        else if 2 ^ 64 \<le> n * b + d then Inl ''value out of range''
        else scan_uint b cs (n * b + d))"

text \<open>The state is the class of the character before: a digit, an underscore or anything else.\<close>

fun underscores_from :: "bool \<Rightarrow> char \<Rightarrow> string \<Rightarrow> bool" where
  "underscores_from hexa i [] = (i \<noteq> CHR ''_'')"
| "underscores_from hexa i (c # cs) =
    (if is_dec_digit c \<or> hexa \<and> CHR ''a'' \<le> lower_char c \<and> lower_char c \<le> CHR ''f'' then underscores_from hexa CHR ''0'' cs
     else if c = CHR ''_'' then i = CHR ''0'' \<and> underscores_from hexa CHR ''_'' cs
     else i \<noteq> CHR ''_'' \<and> underscores_from hexa CHR ''!'' cs)"

definition underscore_ok :: "string \<Rightarrow> bool" where
  "underscore_ok s =
    (if 2 \<le> length s \<and> hd s = CHR ''0'' \<and> lower_char (s ! 1) \<in> set ''box''
     then underscores_from (lower_char (s ! 1) = CHR ''x'') CHR ''0'' (drop 2 s)
     else underscores_from False CHR ''^'' s)"

definition parse_uint0 :: "string \<Rightarrow> string + nat" where
  "parse_uint0 s =
    (if s = [] then Inl ''parse error''
     else case base_prefix s of (b, ds) \<Rightarrow>
       (case scan_uint b ds 0 of Inl e \<Rightarrow> Inl e
        | Inr n \<Rightarrow> if CHR ''_'' \<in> set s \<and> \<not> underscore_ok s then Inl ''parse error'' else Inr n))"

definition parse_int0 :: "string \<Rightarrow> string + int" where
  "parse_int0 s =
    (let neg = (s \<noteq> [] \<and> hd s = CHR ''-'');
         t = (if s \<noteq> [] \<and> (hd s = CHR ''-'' \<or> hd s = CHR ''+'') then tl s else s) in
     case parse_uint0 t of Inl e \<Rightarrow> Inl e
     | Inr n \<Rightarrow>
        if \<not> neg \<and> 2 ^ 63 \<le> n \<or> neg \<and> 2 ^ 63 < n then Inl ''value out of range''
        else Inr (if neg then - int n else int n))"

text \<open>Setting a flag from a text: the new value, or the error.\<close>

definition set_value :: "flag_value \<Rightarrow> string \<Rightarrow> string + flag_value" where
  "set_value old s = (case old of
      FStr _ \<Rightarrow> Inr (FStr s)
    | FInt _ \<Rightarrow> map_sum id FInt (parse_int0 s)
    | FBool _ \<Rightarrow> (case parse_bool s of None \<Rightarrow> Inl ''parse error'' | Some b \<Rightarrow> Inr (FBool b)))"

section \<open>Parsing\<close>

text \<open>What an argument is: the end of the flags, an error, or a flag with perhaps a value.\<close>

datatype flag_arg = NoFlag | BadSyntax | FlagArg string "string option"

definition split_flag :: "string \<Rightarrow> string \<times> string option" where
  "split_flag name = (case cut (tl name) ''='' of None \<Rightarrow> (name, None) | Some (a, v) \<Rightarrow> (hd name # a, Some v))"

definition flag_arg :: "string \<Rightarrow> flag_arg" where
  "flag_arg s =
    (if length s < 2 \<or> hd s \<noteq> CHR ''-'' \<or> s = ''--'' then NoFlag
     else let name = (if s ! 1 = CHR ''-'' then drop 2 s else drop 1 s) in
       if name = [] \<or> hd name = CHR ''-'' \<or> hd name = CHR ''='' then BadSyntax
       else (case split_flag name of (n, v) \<Rightarrow> FlagArg n v))"

datatype parsed = Parsed flag_values | Help | BadFlags string

text \<open>One flag: the new values and the arguments that are left, or why not.\<close>

definition set_flag :: "flag_def \<Rightarrow> string option \<Rightarrow> string list \<Rightarrow> flag_values \<Rightarrow> string + flag_values \<times> string list" where
  "set_flag f v args vals =
    (case (fd_default f, v, args) of
       (FBool _, None, _) \<Rightarrow> Inr (gm_put (fd_name f) (FBool True) vals, args)
     | (FBool _, Some t, _) \<Rightarrow>
        (case set_value (fd_default f) t of
           Inl e \<Rightarrow> Inl (''invalid boolean value '' @ quote t @ '' for -'' @ fd_name f @ '': '' @ e)
         | Inr x \<Rightarrow> Inr (gm_put (fd_name f) x vals, args))
     | (_, None, []) \<Rightarrow> Inl (''flag needs an argument: -'' @ fd_name f)
     | _ \<Rightarrow>
        (let t = (case v of Some t \<Rightarrow> t | None \<Rightarrow> hd args);
             rest = (case v of Some t \<Rightarrow> args | None \<Rightarrow> tl args) in
         (case set_value (fd_default f) t of
            Inl e \<Rightarrow> Inl (''invalid value '' @ quote t @ '' for flag -'' @ fd_name f @ '': '' @ e)
          | Inr x \<Rightarrow> Inr (gm_put (fd_name f) x vals, rest))))"

lemma set_flag_shorter: "set_flag f v args vals = Inr (vals', rest) \<Longrightarrow> length rest \<le> length args"
  by (auto simp: set_flag_def Let_def split: flag_value.splits option.splits list.splits sum.splits)

function parse_flags :: "string list \<Rightarrow> flag_values \<Rightarrow> parsed" where
  "parse_flags [] vals = Parsed vals"
| "parse_flags (s # args) vals =
    (case flag_arg s of
       NoFlag \<Rightarrow> Parsed vals
     | BadSyntax \<Rightarrow> BadFlags (''bad flag syntax: '' @ s)
     | FlagArg name v \<Rightarrow>
        (case find_flag name of
           None \<Rightarrow> if name = ''help'' \<or> name = ''h'' then Help
             else BadFlags (''flag provided but not defined: -'' @ name)
         | Some f \<Rightarrow>
            (case set_flag f v args vals of
               Inl e \<Rightarrow> BadFlags e
             | Inr (vals', rest) \<Rightarrow> parse_flags rest vals')))"
  by pat_completeness auto
termination
  by (relation "measure (\<lambda>(args, vals). length args)") (auto dest: set_flag_shorter simp: less_Suc_eq_le)

section \<open>The environment of the parsed command line\<close>

definition flag_str :: "flag_values \<Rightarrow> string \<Rightarrow> string" where
  "flag_str vals n = (case gm_get vals n of Some (FStr s) \<Rightarrow> s | _ \<Rightarrow> [])"

definition flag_int :: "flag_values \<Rightarrow> string \<Rightarrow> int" where
  "flag_int vals n = (case gm_get vals n of Some (FInt i) \<Rightarrow> i | _ \<Rightarrow> 0)"

definition flag_bool :: "flag_values \<Rightarrow> string \<Rightarrow> bool" where
  "flag_bool vals n = (case gm_get vals n of Some (FBool b) \<Rightarrow> b | _ \<Rightarrow> False)"

definition with_flags :: "flag_values \<Rightarrow> env \<Rightarrow> env" where
  "with_flags vals E = E\<lparr>fl_stage := flag_str vals ''stage'', fl_json := flag_str vals ''json'',
     fl_verbose := flag_bool vals ''v'', fl_offline := flag_bool vals ''offline'',
     fl_firecracker := flag_str vals ''firecracker'', fl_kernel := flag_str vals ''kernel'',
     fl_cache := flag_str vals ''cache'', fl_vms := flag_int vals ''vms'', fl_vcpus := flag_int vals ''vcpus'',
     fl_mem := flag_int vals ''mem'', fl_boot_timeout := flag_int vals ''boot-timeout'',
     fl_boot_args := flag_str vals ''boot-args'', fl_guest_net := flag_str vals ''guest-net''\<rparr>"

section \<open>The usage text\<close>

text \<open>\<open>PrintDefaults\<close>: the flags in the order of their names; none of the texts names its value.\<close>

definition print_default :: "flag_def \<Rightarrow> string" where
  "print_default f =
    (let kind = (case fd_default f of FStr _ \<Rightarrow> '' string'' | FInt _ \<Rightarrow> '' int'' | FBool _ \<Rightarrow> []);
         line = ''  -'' @ fd_name f @ kind;
         deflt = (case fd_default f of
             FStr s \<Rightarrow> if s = [] then [] else '' (default '' @ quote s @ '')''
           | FInt i \<Rightarrow> if i = 0 then [] else '' (default '' @ dec_int i @ '')''
           | FBool b \<Rightarrow> if b then '' (default true)'' else [])
     in line @ (if length line \<le> 4 then [CHR 0x09] else newline # ''    '' @ [CHR 0x09]) @ fd_usage f @ deflt @ [newline])"

definition usage_head :: "string list" where
  "usage_head =
   (''fc-preflight '' @ version @ '' -- can this host run Fly's Firecracker microVMs?'') #
   [[],
    ''USAGE'',
    ''  fc-preflight [flags]'',
    [],
    ''STAGES'',
    ''  -stage preflight   inspect the host only. No root needed for most checks,'',
    ''                     no network, nothing is launched. Start here.'',
    ''  -stage boot        launch real Firecracker microVMs and run a workload in'',
    ''                     them. Needs root (it creates a tap device) and, unless'',
    ''                     -firecracker and -kernel are given, network access to'',
    ''                     fetch two pinned, checksum-verified artifacts.'',
    ''  -stage all         both.'',
    [],
    ''EXAMPLES'',
    ''  # What most people want first, on a candidate host. sudo is not optional:'',
    ''  # without it the checks that decide the answer cannot run.'',
    ''  sudo fc-preflight -stage all -json report.json'',
    [],
    ''  # Air-gapped host, artifacts staged by hand:'',
    ''  sudo fc-preflight -stage all -offline '' @ [backslash],
    ''      -firecracker ./firecracker -kernel ./vmlinux'',
    [],
    ''  # Density check: eight microVMs at once.'',
    ''  sudo fc-preflight -stage boot -vms 8 -v'',
    [],
    ''  # Against Fly's real guest kernel, once you have it:'',
    ''  sudo fc-preflight -stage boot -kernel ./vmlinux-fly'',
    [],
    ''EXIT STATUS'',
    ''  0  no blocking failures (warnings may still be present)'',
    ''  1  the host is unsuitable: at least one blocking failure'',
    ''  2  bad usage'',
    ''  3  incomplete: nothing disqualifying found, but a check could not be run'',
    ''     (almost always missing root -- re-run with sudo)'',
    [],
    ''FLAGS'']"

definition usage :: string where
  "usage = concat (map (\<lambda>l. l @ [newline]) usage_head) @ concat (map print_default (sort_key fd_name flag_table))"

end
