(* ===== verification/Main_Program.thy ===== *)
theory Main_Program
  imports Preflight Boot_Safety Guest Flags
begin

text \<open>
  \<open>main.go\<close> and the JSON half of \<open>report.go\<close>: the dispatch over the stages, the output and the
  exit code. The command line is parsed first, into the fields of \<open>env\<close> that hold the flags.
\<close>

section \<open>The JSON report\<close>

definition result_any :: "result \<Rightarrow> any" where
  "result_any x = AObj
    ([(''id'', AStr (res_ID x)), (''title'', AStr (res_Title x)), (''status'', AStr (status_text (res_Status x)))] @
     omit_string ''detail'' (res_Detail x) @
     (if res_Data x = [] then [] else [(''data'', AMap (res_Data x))]) @
     omit_string ''remedy'' (res_Remedy x))"

definition report_any :: "report \<Rightarrow> any" where
  "report_any r = AObj
    [(''schema'', AStr (rep_Schema r)), (''tool'', AStr (rep_Tool r)),
     (''started_at'', AStr (tm_nano (rep_StartedAt r))), (''duration'', AStr (rep_Duration r)),
     (''hostname'', AStr (rep_Hostname r)),
     (''verdict'', AStr (case rep_Verdict r of None \<Rightarrow> [] | Some st \<Rightarrow> status_text st)),
     (''summary'', AMap (map (\<lambda>(st, n). (status_text st, AInt (int n))) (rep_Summary r))),
     (''results'', if rep_Results r = [] then ANull else AList (map result_any (rep_Results r)))]"

text \<open>The encoder stops at the first float that is not finite.\<close>

definition unsupported :: "any \<Rightarrow> os_error" where
  "unsupported a = errorf (''json: unsupported value: '' @
     (case find (\<lambda>x. json_float x = None) (any_floats a) of None \<Rightarrow> [] | Some x \<Rightarrow> fmt_f 0 x))"

definition json_text :: "report \<Rightarrow> os_error + string" where
  "json_text r = (case encode indented 0 (report_any r) of
     None \<Rightarrow> Inl (unsupported (report_any r)) | Some s \<Rightarrow> Inr (s @ [newline]))"

text \<open>\<open>WriteJSON\<close> to a destination.\<close>

definition WriteJSON :: "(string \<Rightarrow> os_error option go) \<Rightarrow> report \<Rightarrow> os_error option go" where
  "WriteJSON out r = (case json_text r of Inl e \<Rightarrow> return (Some e) | Inr s \<Rightarrow> out s)"

section \<open>The decisions\<close>

definition hasArg :: "env \<Rightarrow> string \<Rightarrow> bool" where
  "hasArg E want \<longleftrightarrow> list_ex (\<lambda>a. a = want \<or> a = want @ ''=true'') (tl (os_args E))"

definition blocking_ids :: "string list" where
  "blocking_ids = [''kvm.device'', ''kvm.open'', ''kvm.api_version'', ''kvm.caps.required'',
     ''kvm.create_vm'', ''kvm.create_vcpu'', ''host.cpu_virt'']"

fun hasBlockingKVMFailure :: "result list \<Rightarrow> bool" where
  "hasBlockingKVMFailure [] = False"
| "hasBlockingKVMFailure (x # xs) =
    (if res_Status x \<noteq> Fail \<and> res_Status x \<noteq> Blocked then hasBlockingKVMFailure xs
     else if res_ID x \<in> set blocking_ids then True else hasBlockingKVMFailure xs)"

definition exit_code :: "report \<Rightarrow> nat" where
  "exit_code r = (case rep_Verdict r of Some Fail \<Rightarrow> 1 | Some Blocked \<Rightarrow> 3 | _ \<Rightarrow> 0)"

section \<open>The program\<close>

definition stderr_out :: "string \<Rightarrow> unit go" where
  "stderr_out s = emit (EvStderr s)"

definition get_report :: "report go" where
  "get_report = State (\<lambda>w. (w_report w, w))"

definition set_report :: "report \<Rightarrow> unit go" where
  "set_report r = State (\<lambda>w. ((), w\<lparr>w_report := r\<rparr>))"

definition root_warning :: "env \<Rightarrow> string" where
  "root_warning E = ''warning: not running as root (uid '' @ dec_int (geteuid E) @ '').'' @ [newline] @
     ''         The boot stage needs root to create a tap device, and /dev/kvm needs'' @ [newline] @
     ''         either root or membership of its group. Re-run with sudo for a report'' @ [newline] @
     ''         that can answer the question.'' @ [newline, newline]"

text \<open>The stages: what the run came to, or the exit code of bad usage.\<close>

definition run_stage :: "env \<Rightarrow> 32 word \<Rightarrow> (nat + flow) go" where
  "run_stage E net =
    (if fl_stage E = ''preflight'' then do { runPreflight E; return (Inr Returned) }
     else if fl_stage E = ''boot'' then do { f \<leftarrow> runBootStage E net; return (Inr f) }
     else if fl_stage E = ''all'' then do {
       runPreflight E;
       r \<leftarrow> get_report;
       if hasBlockingKVMFailure (rep_Results r) then do {
         Addf E ''boot.skipped'' ''Boot stage'' Skip det_boot_skipped;
         return (Inr Returned) }
       else do { f \<leftarrow> runBootStage E net; return (Inr f) } }
     else do {
       stderr_out (''unknown -stage '' @ quote (fl_stage E) @ ''; want preflight, boot or all'' @ [newline]);
       return (Inl 2) })"

text \<open>The JSON report, and the exit code when it cannot be written.\<close>

definition write_json :: "env \<Rightarrow> report \<Rightarrow> nat option go" where
  "write_json E r =
    (let failed = (\<lambda>e. do { stderr_out (''write JSON report: '' @ err_text e @ [newline]); return (Some 1) }) in
     if fl_json E = [] then return None
     else if fl_json E = ''-'' then
       unless_error (WriteJSON (\<lambda>s. do { emit (EvStdout s); return None }) r) failed (return None)
     else unless_error (go_create E (fl_json E)) failed
       (unless_error (WriteJSON (go_write E (fl_json E)) r) failed (do {
          stderr_out (''JSON report written to '' @ fl_json E @ [newline]);
          return None })))"

definition finish_main :: "env \<Rightarrow> int \<Rightarrow> nat go" where
  "finish_main E start = do {
     now \<leftarrow> go_now E;
     r \<leftarrow> get_report;
     let r = Finish (nat (now - start)) r;
     set_report r;
     emit (EvStdout (Render r));
     j \<leftarrow> write_json E r;
     return (case j of Some c \<Rightarrow> c | None \<Rightarrow> exit_code r) }"

definition host_main :: "env \<Rightarrow> 32 word \<Rightarrow> nat go" where
  "host_main E net = do {
     (if geteuid E \<noteq> 0 then stderr_out (root_warning E) else return ());
     started \<leftarrow> ask (\<lambda>h. os_now E h);
     start \<leftarrow> go_now E;
     set_report (NewReport (os_hostname E) started);
     s \<leftarrow> run_stage E net;
     case s of Inl c \<Rightarrow> return c
     | Inr (Panicked m) \<Rightarrow> do { stderr_out (''panic: runtime error: '' @ m @ [newline]); return 2 }
     | Inr Returned \<Rightarrow> finish_main E start }"

text \<open>The program on a host, once the flags are known.\<close>

definition flagged_main :: "env \<Rightarrow> nat go" where
  "flagged_main E =
    (if goos E \<noteq> ''linux'' then do {
       stderr_out (''fc-preflight runs on Linux; this is '' @ goos E @ [newline]);
       return 2 }
     else case resolveGuestNet (fl_guest_net E) (fl_vms E) of
       NetErr m \<Rightarrow> do { stderr_out (m @ [newline]); return 2 }
     | NetPanic \<Rightarrow> do {
         stderr_out (''panic: runtime error: index out of range [0] with length 0'' @ [newline]);
         return 2 }
     | NetOK net \<Rightarrow> host_main E net)"

text \<open>The exit code, or \<open>None\<close> when the program does not return: a guest resets its machine.\<close>

definition main :: "env \<Rightarrow> nat option go" where
  "main E =
    (if getpid E = 1 \<or> hasArg E ''-guest'' then do { runGuest E; return None }
     else case parse_flags (tl (os_args E)) default_flags of
       Help \<Rightarrow> do { stderr_out usage; return (Some 0) }
     | BadFlags m \<Rightarrow> do { stderr_out (m @ [newline]); stderr_out usage; return (Some 2) }
     | Parsed vals \<Rightarrow> do { c \<leftarrow> flagged_main (with_flags vals E); return (Some c) })"

end
