(* ===== verification/Guest_Spec.thy ===== *)
theory Guest_Spec
  imports Guest
begin

text \<open>
  What the guest side guarantees: it reads back the settings that the host wrote on the kernel
  command line, configures the address the host planned, always gets to its report when time
  passes, and its report line is read back by the host.
\<close>

section \<open>The kernel command line\<close>

lemma plain_ipString [simp]: "plain_word (ipString v)"
  by (simp add: ipString_def ascii_def ascii_space_def)

lemma parse_field_param:
  assumes "CHR ''='' \<notin> set k"
  shows "parse_field (k @ CHR ''='' # v) gs = set_param k v gs"
proof -
  have "takeWhile (\<lambda>c. c \<noteq> CHR ''='') (k @ CHR ''='' # v) = k"
    using assms by (induction k) auto
  moreover have "dropWhile (\<lambda>c. c \<noteq> CHR ''='') (k @ CHR ''='' # v) = CHR ''='' # v"
    using assms by (induction k) auto
  ultimately show ?thesis by (simp add: parse_field_def cut_single)
qed

definition fcpf_params :: "32 word \<Rightarrow> nat \<Rightarrow> (string \<times> string) list" where
  "fcpf_params net i = [(''fcpf.ip'', vmGuestIP net i), (''fcpf.mask'', guestNetmask),
     (''fcpf.host'', vmHostIP net i), (''fcpf.port'', dec echoPort), (''fcpf.disk'', ''/dev/vda'')]"

lemma boot_args_fields:
  "str_fields (boot_args E net i) = str_fields (fl_boot_args E) @
    map (\<lambda>(k, v). k @ CHR ''='' # v) (fcpf_params net i)"
proof -
  have split: "boot_args E net i = fl_boot_args E @ CHR '' '' # (''fcpf.ip='' @ vmGuestIP net i) @ CHR '' '' #
      (''fcpf.mask='' @ guestNetmask) @ CHR '' '' # (''fcpf.host='' @ vmHostIP net i) @ CHR '' '' #
      (''fcpf.port='' @ dec echoPort) @ CHR '' '' # ''fcpf.disk=/dev/vda''"
    by (simp add: boot_args_def)
  have "plain_word guestNetmask"
    by (simp add: ascii_def ascii_space_def guestNetmask_def)
  then show ?thesis
    unfolding split str_fields_blank
    by (simp add: str_fields_plain vmGuestIP_def vmHostIP_def fcpf_params_def ascii_def ascii_space_def)
qed

text \<open>The parameters that the host appends come last, so they win over anything before them.\<close>

lemma guest_reads_boot_args:
  "parseGuestCmdline (boot_args E net i) gs =
    (parseGuestCmdline (fl_boot_args E) gs)\<lparr>gs_IP := vmGuestIP net i, gs_Mask := guestNetmask,
      gs_Host := vmHostIP net i, gs_Port := int echoPort, gs_Disk := ''/dev/vda''\<rparr>"
proof -
  have port: "atoi (dec echoPort) = Some (int echoPort)"
    by (rule atoi_dec) (simp add: echoPort_def max_int64_def)
  show ?thesis
    unfolding parseGuestCmdline_def boot_args_fields fold_append fcpf_params_def
    by (simp add: parse_field_param [of "''fcpf.ip''", simplified] parse_field_param [of "''fcpf.mask''", simplified]
        parse_field_param [of "''fcpf.host''", simplified] parse_field_param [of "''fcpf.port''", simplified]
        parse_field_param [of "''fcpf.disk''", simplified] set_param_def port)
qed

section \<open>The address\<close>

definition octets_of :: "32 word \<Rightarrow> octets" where
  "octets_of v = [byte_at 24 v, byte_at 16 v, byte_at 8 v, byte_at 0 v]"

lemma find_first: "\<forall>x \<in> set xs. \<not> P x \<Longrightarrow> P y \<Longrightarrow> find P (xs @ y # s) = Some y"
  by (induction xs) auto

lemma find_dot: "find (\<lambda>c. c = CHR ''.'' \<or> c = CHR '':'' \<or> c = CHR ''%'') (dec n @ CHR ''.'' # s) = Some CHR ''.''"
proof (rule find_first)
  show "\<forall>c \<in> set (dec n). \<not> (c = CHR ''.'' \<or> c = CHR '':'' \<or> c = CHR ''%'')"
  proof
    fix c assume "c \<in> set (dec n)"
    then have "is_dec_digit c" by (rule dec_digits_mem)
    then show "\<not> (c = CHR ''.'' \<or> c = CHR '':'' \<or> c = CHR ''%'')" by (auto simp: is_dec_digit_iff)
  qed
qed simp

lemma parse_addr_ipString: "parse_addr (ipString v) = Some (octets_of v)"
proof -
  have "find (\<lambda>c. c = CHR ''.'' \<or> c = CHR '':'' \<or> c = CHR ''%'') (ipString v) = Some CHR ''.''"
    unfolding ipString_def by (simp add: find_dot)
  then show ?thesis by (simp add: parse_addr_def parse_v4_ipString octets_of_def)
qed

lemma to4_octets_of [simp]: "to4 (octets_of v) = Some (octets_of v)"
  by (simp add: octets_of_def)

lemma length_ifreqAddr: "length ip = 4 \<Longrightarrow> length (ifreqAddr iface ip) = 40"
  by (simp add: ifreqAddr_def c_name_def le16_def)

lemma length_ifreqFlags: "length (ifreqFlags iface flags) = 40"
  by (simp add: ifreqFlags_def c_name_def le16_def)

lemma guestNetmask_octets: "parse_addr guestNetmask = Some (octets_of 0xFFFFFFFC)"
proof -
  have "guestNetmask = ipString 0xFFFFFFFC"
  proof -
    have b: "byte_at 24 0xFFFFFFFC = 255" "byte_at 16 0xFFFFFFFC = 255" "byte_at 8 0xFFFFFFFC = 255"
      "byte_at 0 0xFFFFFFFC = 252"
      by (simp_all add: byte_at_def drop_bit_eq_div)
    have "dec 255 = ''255''" "dec 252 = ''252''"
      by (simp_all add: dec_def digits_of.simps lower_digit_def char_of_def bit_Suc_0_iff)
    then show ?thesis by (simp add: ipString_def b guestNetmask_def)
  qed
  with parse_addr_ipString [of "0xFFFFFFFC"] show ?thesis by (simp only:)
qed

text \<open>When every request is granted, these are the requests, in this order.\<close>

lemma configure_requests:
  assumes "\<And>h. os_socket E h = Inr fd" and "\<And>h req b. os_ifreq E h fd req b = Inr flags"
  shows "w_trace (exec (configureGuestNet E iface (vmGuestIP net i) guestNetmask) w) = w_trace w @
    [EvSocket, EvOpen ''socket'' fd,
     EvIfreq fd siocSIFADDR (ifreqAddr iface (octets_of (vmBase net i + 2))),
     EvIfreq fd siocSIFNETMASK (ifreqAddr iface (octets_of 0xFFFFFFFC)),
     EvIfreq fd siocGIFFLAGS (ifreqFlags iface 0),
     EvIfreq fd siocSIFFLAGS (ifreqFlags iface (or flags 0x41)),
     EvClose fd]"
    and "result_of (configureGuestNet E iface (vmGuestIP net i) guestNetmask) w = None"
  by (simp_all add: configureGuestNet_def with_defer_def go_socket_def set_ip_def set_up_def ifreq_def
      parse_addr_ipString guestNetmask_octets vmGuestIP_def exec_unless_error go_close_def assms
      iffUp_def iffRunning_def)

section \<open>Time\<close>

text \<open>A clock that never goes back and does not run slow while the program sleeps.\<close>

definition slept :: "event \<Rightarrow> int" where
  "slept ev = (case ev of EvSleep n \<Rightarrow> int n | _ \<Rightarrow> 0)"

definition clock_ok :: "env \<Rightarrow> bool" where
  "clock_ok E \<longleftrightarrow> (\<forall>h ev. os_clock E h + slept ev \<le> os_clock E (h @ [ev]))"

lemma clock_step: "clock_ok E \<Longrightarrow> os_clock E h + slept ev \<le> os_clock E (h @ [ev])"
  by (simp add: clock_ok_def)

text \<open>Each failed round takes a tenth of a second, so the deadline ends the loop.\<close>

lemma dial_loop_ends:
  assumes "clock_ok E" and "deadline - os_clock E (w_trace w) < int n * int dial_pause"
  shows "result_of (dial_loop E (Suc n) addr deadline) w \<noteq> None"
  using assms(2)
proof (induction n arbitrary: w)
  case 0
  have a: "os_clock E (w_trace w) + slept (EvDial addr) \<le> os_clock E (w_trace w @ [EvDial addr])"
    by (rule clock_step [OF assms(1)])
  with 0 show ?case by (auto simp: go_dial_def go_now_def slept_def split: sum.split)
next
  case (Suc n)
  let ?h = "w_trace w @ [EvDial addr, EvClock, EvSleep dial_pause]"
  have "os_clock E (w_trace w) + slept (EvDial addr) \<le> os_clock E (w_trace w @ [EvDial addr])"
    "os_clock E (w_trace w @ [EvDial addr]) + slept EvClock \<le> os_clock E ((w_trace w @ [EvDial addr]) @ [EvClock])"
    "os_clock E ((w_trace w @ [EvDial addr]) @ [EvClock]) + slept (EvSleep dial_pause) \<le>
      os_clock E (((w_trace w @ [EvDial addr]) @ [EvClock]) @ [EvSleep dial_pause])"
    by (rule clock_step [OF assms(1)])+
  then have "deadline - os_clock E ?h < int n * int dial_pause"
    using Suc.prems by (simp add: slept_def algebra_simps)
  then have "result_of (dial_loop E (Suc n) addr deadline) (w\<lparr>w_trace := ?h\<rparr>) \<noteq> None"
    by (intro Suc.IH) simp
  then show ?case by (subst dial_loop.simps) (simp add: go_dial_def go_now_def split: sum.split del: dial_loop.simps)
qed

lemma measureNet_ends:
  assumes "clock_ok E"
  shows "result_of (measureNet E host port) w \<noteq> None"
proof -
  let ?w = "w\<lparr>w_trace := w_trace w @ [EvClock]\<rparr>"
  have "os_clock E (w_trace w) + slept EvClock \<le> os_clock E (w_trace w @ [EvClock])"
    by (rule clock_step [OF assms])
  then have "os_clock E (w_trace w) + dial_timeout - os_clock E (w_trace ?w) < int 101 * int dial_pause"
    by (simp add: slept_def dial_timeout_def dial_pause_def)
  from dial_loop_ends [OF assms this]
  have "result_of (dial_loop E dial_fuel addr (os_clock E (w_trace w) + dial_timeout)) ?w \<noteq> None" for addr
    unfolding dial_fuel_def by simp
  then show ?thesis
    by (auto simp: measureNet_def go_now_def split: option.split sum.split simp del: dial_loop.simps)
qed

lemma measure_network_ends: "clock_ok E \<Longrightarrow> result_of (measure_network E gs rep) w \<noteq> None"
proof -
  assume "clock_ok E"
  then have "result_of (measureNet E (gs_Host gs) (gs_Port gs)) w' = None \<Longrightarrow> False" for w'
    using measureNet_ends by blast
  then show ?thesis by (auto simp: measure_network_def split: option.split sum.split)
qed

text \<open>The guest gets to its report, which is the last thing it says before it resets the microVM.\<close>

lemma runGuest_ends: "clock_ok E \<Longrightarrow> result_of (runGuest E) w \<noteq> None"
  using measure_network_ends by (auto simp: runGuest_def Let_def split: option.split)

lemma runGuest_reports:
  assumes "result_of (runGuest E) w = Some rep"
  shows "(\<exists>h. w_trace (exec (runGuest E) w) = h @ [EvStdout (guestReportPrefix @ marshal_report rep @ [newline]),
      EvSync 1, EvSleep 200000000, EvReboot]) \<and> (gr_OK rep \<longleftrightarrow> gr_Errors rep = [])"
  using assms by (auto simp: runGuest_def finish_guest_def Let_def split: option.splits)

section \<open>The report line\<close>

lemma trim_left_in_ascii:
  "s \<noteq> [] \<Longrightarrow> ascii (hd s) \<Longrightarrow> \<not> ascii_space (hd s) \<Longrightarrow> trim_left_in us s = s"
  by (cases s) (subst trim_left_in.simps, simp add: space_len_in_def)+

lemma trim_space_braces: "trim_space (CHR ''{'' # s @ [CHR ''}'']) = CHR ''{'' # s @ [CHR ''}'']"
proof -
  have "trim_left_in utf8_spaces (CHR ''{'' # s @ [CHR ''}'']) = CHR ''{'' # s @ [CHR ''}'']"
    by (rule trim_left_in_ascii) (simp_all add: ascii_def ascii_space_def)
  moreover have "trim_left_in us (CHR ''}'' # rev s @ [CHR ''{'']) = CHR ''}'' # rev s @ [CHR ''{'']" for us
    by (rule trim_left_in_ascii) (simp_all add: ascii_def ascii_space_def)
  ultimately show ?thesis by (simp add: trim_space_def)
qed

lemma encode_object_braces: "encode compact 0 (AObj kvs) = Some s \<Longrightarrow> \<exists>t. s = CHR ''{'' # t @ [CHR ''}'']"
  by (auto simp: bracketed_def compact_def split: if_splits)

lemma cut_prefix: "cut (p @ s) p = Some ([], s)"
  by (subst cut.simps) simp

text \<open>The line of a guest whose figures are finite gives the host the report that was written.\<close>

lemma report_line_read:
  assumes "encode compact 0 (AObj (guest_fields g)) = Some s" and "report_ok g"
  shows "take_report E (guestReportPrefix @ marshal_report g) out =
    out\<lparr>vo_Guest := Some g, vo_BootMS := f_mul (gr_UptimeAtStart g) (f_of_int 1000)\<rparr>"
proof -
  have "trim_space s = s" using encode_object_braces [OF assms(1)] trim_space_braces by auto
  moreover have "marshal_report g = s" unfolding marshal_report_def assms(1) by simp
  ultimately show ?thesis
    using unmarshal_marshal [OF assms] by (simp add: take_report_def cut_prefix Let_def)
qed

text \<open>Otherwise there is nothing behind the prefix, and the host records that it cannot read it.\<close>

lemma report_line_lost:
  assumes "encode compact 0 (AObj (guest_fields g)) = None"
  shows "take_report E (guestReportPrefix @ marshal_report g) out =
    out\<lparr>vo_Err := ''parse guest report: '' @ json_error E []\<rparr>"
proof -
  have "trim_left_in us [] = []" for us by (subst trim_left_in.simps) simp
  moreover have "json_parse [] = None" by (simp add: json_parse_def skip_ws_def)
  ultimately have "trim_space [] = []" "unmarshal_report [] = None"
    by (simp_all add: trim_space_def unmarshal_report_def)
  moreover have "marshal_report g = []" unfolding marshal_report_def assms by simp
  moreover have "cut guestReportPrefix guestReportPrefix = Some ([], [])"
    using cut_prefix [of guestReportPrefix "[]"] by simp
  ultimately show ?thesis by (simp add: take_report_def Let_def)
qed

text \<open>The figures of a report are finite when each of them has a text in JSON.\<close>

definition finite_report :: "guest_report \<Rightarrow> bool" where
  "finite_report g \<longleftrightarrow> list_all (\<lambda>x. json_float x \<noteq> None) (any_floats (AObj (guest_fields g)))"

lemma finite_report_encode:
  assumes "finite_report g"
  obtains s where "encode compact 0 (AObj (guest_fields g)) = Some s"
  using encode_total(1) [of "AObj (guest_fields g)" compact 0] assms
  by (auto simp: finite_report_def list_all_iff simp del: encode.simps any_floats.simps)

text \<open>A whole console: any lines without the prefix, and one report among them.\<close>

lemma console_read:
  assumes "finite_report g" and "report_ok g"
    and "\<forall>l \<in> set (before @ after). \<not> contains l guestReportPrefix"
  shows "snd (result_of (read_console E i (before @ (guestReportPrefix @ marshal_report g) # after) (new_outcome i)) w) =
    (new_outcome i)\<lparr>vo_Guest := Some g, vo_BootMS := f_mul (gr_UptimeAtStart g) (f_of_int 1000)\<rparr>"
proof -
  obtain s where s: "encode compact 0 (AObj (guest_fields g)) = Some s"
    by (rule finite_report_encode [OF assms(1)])
  have "fold (take_report E) before out = out" "fold (take_report E) after out = out" for out
    using assms(3) by (auto intro: fold_take_report_other)
  then show ?thesis by (simp add: read_console_outcome report_line_read [OF s assms(2)])
qed

text \<open>
  A measurement that takes no time is infinite, and then the report cannot be written: a clock
  that stands still loses it.
\<close>

lemma encode_infinite: "(k, AFloat (Inf neg)) \<in> set kvs \<Longrightarrow> encode compact 0 (AObj kvs) = None"
proof -
  assume "(k, AFloat (Inf neg)) \<in> set kvs"
  then have "None \<in> set (map (\<lambda>(k, v). map_option (\<lambda>s. json_quote k @ lay_colon compact @ s) (encode compact (Suc 0) v)) kvs)"
    by (force simp: json_float_def)
  then have "those (map (\<lambda>(k, v). map_option (\<lambda>s. json_quote k @ lay_colon compact @ s) (encode compact (Suc 0) v)) kvs) = None"
    by (metis not_None_eq those_Some_all)
  then show ?thesis by simp
qed

lemma bit_len_numeral:
  "bit_len 0 = 0" "bit_len (numeral k) = Suc (bit_len (numeral k div 2))" "bit_len (Suc 0) = 1"
  by (subst bit_len.simps, simp)+

lemma quotient_of_numerals: "quotient_of 64 = (64, 1)" "quotient_of 1000000000 = (1000000000, 1)"
  using quotient_of_int [of 64] quotient_of_int [of 1000000000] by simp_all

lemma ulp_exp_numerals: "ulp_exp 64 = - 46" "ulp_exp 1000000000 = - 23"
  by (simp_all add: ulp_exp_def quotient_of_numerals bit_len_numeral pow2_def Let_def)

lemma f_of_int_numerals: "f_of_int 64 = Fin False 64" "f_of_int 1000000000 = Fin False 1000000000" "f_of_int 0 = f_zero"
  using half_even_int [of "64 * 2 ^ 46"] half_even_int [of "1000000000 * 2 ^ 23"]
  by (simp_all add: f_of_int_def round_rat_def round_mag_def ulp_exp_numerals Let_def pow2_def)

lemma measureHash_instant:
  assumes "\<And>h. os_clock E h = t"
  shows "result_of (measureHash E 1) w = Inf False"
proof -
  have "seconds 0 = f_zero"
    by (simp add: seconds_def quot_def f_of_int_numerals round_mag_def Go_Float.signed_def)
  then show ?thesis using assms by (simp add: measureHash_def go_now_def f_of_int_numerals)
qed

lemma infinite_report_lost:
  assumes "gr_CPUHashMBps g = Inf neg"
  shows "take_report E (guestReportPrefix @ marshal_report g) out =
    out\<lparr>vo_Err := ''parse guest report: '' @ json_error E []\<rparr>"
  by (rule report_line_lost, rule encode_infinite [of "''cpu_sha256_mbps_1core''" neg])
    (simp add: guest_fields_def assms)

section \<open>A run that succeeds\<close>

text \<open>A host that grants what booting a microVM asks of it.\<close>

definition host_grants :: "env \<Rightarrow> vm_run \<Rightarrow> bool" where
  "host_grants E run \<longleftrightarrow> (\<forall>h argv. snd (os_output E h argv) = None) \<and> (\<forall>h a. os_listen E h a = None) \<and>
     (\<forall>h p. os_create E h p = None) \<and> (\<forall>h p n. os_truncate E h p n = None) \<and>
     (\<forall>h p c. os_write E h p c = None) \<and> (\<forall>h. os_pipe E h = None) \<and> (\<forall>h argv. os_vm E h argv = Inr run)"

lemma run_command_granted: "host_grants E run \<Longrightarrow> result_of (run_command E argv) w = None"
  by (simp add: host_grants_def run_command_def go_output_def case_prod_beta)

lemma setupTap_granted: "host_grants E run \<Longrightarrow> result_of (setupTap E net i) w = None"
  by (simp add: setupTap_def exec_unless_error run_command_granted)

lemma bootOne_succeeds:
  assumes "host_grants E run" and "finite_report g" and "report_ok g"
    and "fst (scan_lines big_token_max (vr_output run)) = before @ (guestReportPrefix @ marshal_report g) # after"
    and "\<forall>l \<in> set (before @ after). \<not> contains l guestReportPrefix"
  shows "result_of (bootOne E net i fcBin kern initramfs workDir) w =
    \<lparr>vo_Index = i, vo_BootMS = f_mul (gr_UptimeAtStart g) (f_of_int 1000),
     vo_TotalMS = f_div (f_of_int (vr_micros run)) (f_of_int 1000), vo_Guest = Some g, vo_Err = [],
     vo_Console = take_last consoleTailLines (before @ (guestReportPrefix @ marshal_report g) # after),
     vo_ExitCode = (case vr_exit run of Some c \<Rightarrow> c | None \<Rightarrow> 0)\<rparr>"
proof -
  have "result_of (run_vm E i argv (new_outcome i)) w' =
      finish_run E run (take_last consoleTailLines (before @ (guestReportPrefix @ marshal_report g) # after))
        ((new_outcome i)\<lparr>vo_Guest := Some g, vo_BootMS := f_mul (gr_UptimeAtStart g) (f_of_int 1000)\<rparr>)" for argv w'
    using assms(1) console_read [OF assms(2,3,5)]
    by (simp add: run_vm_def host_grants_def assms(4) case_prod_beta read_console_tail)
  then show ?thesis
    using assms(1) setupTap_granted [OF assms(1)]
    by (simp add: bootOne_def Let_def exec_unless_error echoServer_def go_create_def go_truncate_def go_write_def
        host_grants_def finish_run_def new_outcome_def split: option.split)
qed

end
