(* ===== verification/Flags_Spec.thy ===== *)
theory Flags_Spec
  imports Flags
begin

text \<open>
  What the parser of the command line guarantees: the arguments that set flags are read back as
  the settings, the last one of a flag wins, and a flag that is not set has its default.
\<close>

section \<open>Printing a setting\<close>

definition flag_text :: "flag_value \<Rightarrow> string" where
  "flag_text v = (case v of FStr s \<Rightarrow> s | FInt i \<Rightarrow> dec_int i | FBool b \<Rightarrow> if b then ''true'' else ''false'')"

definition setting_arg :: "string \<times> flag_value \<Rightarrow> string" where
  "setting_arg nv = ''-'' @ fst nv @ ''='' @ flag_text (snd nv)"

text \<open>A setting of a flag that exists, of its type and in the range of an \<open>int\<close>.\<close>

fun of_type :: "flag_value \<Rightarrow> flag_value \<Rightarrow> bool" where
  "of_type (FStr d) v = (case v of FStr s \<Rightarrow> True | _ \<Rightarrow> False)"
| "of_type (FInt d) v = (case v of FInt i \<Rightarrow> min_int64 \<le> i \<and> i \<le> max_int64 | _ \<Rightarrow> False)"
| "of_type (FBool d) v = (case v of FBool b \<Rightarrow> True | _ \<Rightarrow> False)"

definition setting_ok :: "string \<times> flag_value \<Rightarrow> bool" where
  "setting_ok nv = (case find_flag (fst nv) of None \<Rightarrow> False | Some f \<Rightarrow> of_type (fd_default f) (snd nv))"

section \<open>Numbers\<close>

lemma scan_digits:
  "list_all is_dec_digit ds \<Longrightarrow> n * 10 ^ length ds + value_of 10 (map dec_digit ds) < 2 ^ 64 \<Longrightarrow>
    scan_uint 10 ds n = Inr (n * 10 ^ length ds + value_of 10 (map dec_digit ds))"
proof (induction ds arbitrary: n)
  case Nil
  then show ?case by simp
next
  case (Cons c cs)
  let ?m = "n * 10 + dec_digit c"
  have c: "is_dec_digit c" "list_all is_dec_digit cs" using Cons.prems(1) by simp_all
  then have d: "dec_digit c < 10" "c \<noteq> CHR ''_''" by (auto simp: is_dec_digit_iff dec_digit_def)
  have eq: "n * 10 ^ length (c # cs) + value_of 10 (map dec_digit (c # cs)) =
      ?m * 10 ^ length cs + value_of 10 (map dec_digit cs)"
    by (simp add: value_of_Cons algebra_simps)
  have "?m \<le> ?m * 10 ^ length cs" by simp
  then have "?m < 2 ^ 64" using Cons.prems(2) unfolding eq by linarith
  moreover have "scan_uint 10 cs ?m = Inr (?m * 10 ^ length cs + value_of 10 (map dec_digit cs))"
    using Cons.IH [OF c(2)] Cons.prems(2) unfolding eq by simp
  ultimately show ?case unfolding eq using c d by (simp add: letter_digit_def)
qed

lemma base_prefix_dec: "base_prefix (dec n) = (if n = 0 then (8, []) else (10, dec n))"
proof (cases "n = 0")
  case True
  then show ?thesis by (simp add: base_prefix_def dec_def digits_of.simps lower_digit_def char_of_eq_iff)
next
  case False
  let ?d = "hd (digits_of 10 n)"
  have "?d \<noteq> 0" using False by (intro digits_of_head_nonzero) simp_all
  moreover have "?d < 10" by (rule digits_of_less [of 10 _ n]) simp_all
  ultimately have "hd (dec n) \<noteq> CHR ''0''"
    using lower_digit_inj [of ?d 0] by (simp add: dec_def hd_map lower_digit_def char_of_eq_iff)
  with False show ?thesis by (simp add: base_prefix_def)
qed

lemma parse_uint0_dec: "n < 2 ^ 64 \<Longrightarrow> parse_uint0 (dec n) = Inr n"
proof -
  have "CHR ''_'' \<notin> set (dec m)" for m using dec_digits_mem [of "CHR ''_''" m] by (auto simp: is_dec_digit_iff)
  then show "n < 2 ^ 64 \<Longrightarrow> parse_uint0 (dec n) = Inr n"
    using scan_digits [of "dec n" 0] by (simp add: parse_uint0_def base_prefix_dec)
qed

lemma parse_int0_dec:
  assumes "min_int64 \<le> i" and "i \<le> max_int64"
  shows "parse_int0 (dec_int i) = Inr i"
proof -
  have "hd (dec (nat i)) \<noteq> CHR ''-''" "hd (dec (nat i)) \<noteq> CHR ''+''"
    using hd_dec_digit [of "nat i"] by (auto simp: is_dec_digit_iff)
  then show ?thesis
    using assms by (auto simp: parse_int0_def dec_int_def Let_def parse_uint0_dec min_int64_def max_int64_def)
qed

section \<open>Arguments\<close>

lemma set_value_text: "of_type d v \<Longrightarrow> set_value d (flag_text v) = Inr v"
  by (cases d; cases v) (auto simp: set_value_def flag_text_def parse_int0_dec parse_bool_def)

text \<open>The names of the flags are plain words, which an argument can carry.\<close>

lemma find_flag_name:
  assumes "find_flag n = Some f"
  shows "fd_name f = n" and "n \<noteq> []" and "hd n \<noteq> CHR ''-''" and "CHR ''='' \<notin> set n"
proof -
  have "fd_name f = n" "f \<in> set flag_table"
    using assms by (auto simp: find_flag_def find_Some_iff)
  then show "fd_name f = n" "n \<noteq> []" "hd n \<noteq> CHR ''-''" "CHR ''='' \<notin> set n"
    by (auto simp: flag_table_def)
qed

lemma cut_first: "x \<notin> set a \<Longrightarrow> cut (a @ x # b) [x] = Some (a, b)"
  by (induction a) (auto simp: cut_single)

lemma flag_arg_setting:
  assumes "find_flag (fst nv) = Some f"
  shows "flag_arg (setting_arg nv) = FlagArg (fst nv) (Some (flag_text (snd nv)))"
proof -
  obtain c n where n: "fst nv = c # n" using find_flag_name(2) [OF assms] by (cases "fst nv") auto
  then have "c \<noteq> CHR ''-''" "c \<noteq> CHR ''=''" "CHR ''='' \<notin> set n" using find_flag_name(3,4) [OF assms] by auto
  then show ?thesis
    by (simp add: flag_arg_def setting_arg_def n split_flag_def cut_first Let_def)
qed

lemma set_flag_text:
  "of_type (fd_default f) v \<Longrightarrow>
    set_flag f (Some (flag_text v)) args vals = Inr (gm_put (fd_name f) v vals, args)"
  using set_value_text [of "fd_default f" v]
  by (cases "fd_default f"; cases args) (simp_all add: set_flag_def Let_def)

lemma parse_flags_settings:
  "list_all setting_ok nvs \<Longrightarrow>
    parse_flags (map setting_arg nvs @ args) vals = parse_flags args (foldl (\<lambda>m (n, v). gm_put n v m) vals nvs)"
proof (induction nvs arbitrary: vals)
  case Nil
  then show ?case by simp
next
  case (Cons nv nvs)
  from Cons.prems obtain f where f: "find_flag (fst nv) = Some f" "of_type (fd_default f) (snd nv)"
    by (auto simp: setting_ok_def split: option.splits)
  then show ?case
    using Cons by (simp add: flag_arg_setting set_flag_text find_flag_name split: prod.split)
qed

text \<open>The defaults are those of the table.\<close>

lemma default_flags_find: "gm_get default_flags n = map_option fd_default (find_flag n)"
  by (simp add: default_flags_lookup find_flag_def flag_table_def)

lemma parse_settings:
  assumes "list_all setting_ok nvs"
  shows "\<exists>vals. parse_flags (map setting_arg nvs) default_flags = Parsed vals \<and>
    (\<forall>n. gm_get vals n =
      (case map_of (rev nvs) n of Some v \<Rightarrow> Some v | None \<Rightarrow> map_option fd_default (find_flag n)))"
  using parse_flags_settings [OF assms, of "[]" default_flags] gm.lookup_put_all [OF default_flags_ok, of nvs]
  by (simp add: default_flags_find cong: option.case_cong)

section \<open>Types\<close>

text \<open>
  What holds of the values while the arguments are parsed: every flag of the table has a value of
  its type, an integer in the range of \<open>int\<close>, and there is nothing else. The readers
  \<open>flag_str\<close>, \<open>flag_int\<close> and \<open>flag_bool\<close> never meet their other cases.
\<close>

definition flags_typed :: "flag_values \<Rightarrow> bool" where
  "flags_typed vals \<longleftrightarrow> (\<forall>n. case find_flag n of None \<Rightarrow> gm_get vals n = None
     | Some f \<Rightarrow> (\<exists>v. gm_get vals n = Some v \<and> of_type (fd_default f) v))"

lemma parse_int0_range: "parse_int0 s = Inr i \<Longrightarrow> min_int64 \<le> i \<and> i \<le> max_int64"
  by (auto simp: parse_int0_def Let_def min_int64_def max_int64_def split: sum.splits if_splits)

lemma set_value_type: "set_value d s = Inr v \<Longrightarrow> of_type d v"
  by (cases d) (auto simp: set_value_def map_sum_def parse_int0_range split: sum.splits option.splits)

lemma set_flag_type:
  assumes "set_flag f v args vals = Inr (vals', rest)"
  shows "\<exists>x. vals' = gm_put (fd_name f) x vals \<and> of_type (fd_default f) x"
  using assms
  by (cases "fd_default f"; cases v; cases args)
    (auto simp: set_flag_def Let_def dest!: set_value_type split: sum.splits)

lemma of_type_default: "find_flag n = Some f \<Longrightarrow> of_type (fd_default f) (fd_default f)"
proof -
  assume "find_flag n = Some f"
  then have "f \<in> set flag_table" by (auto simp: find_flag_def find_Some_iff)
  then show ?thesis by (auto simp: flag_table_def min_int64_def max_int64_def)
qed

lemma default_flags_typed: "flags_typed default_flags"
  by (simp add: flags_typed_def default_flags_find of_type_default split: option.split)

lemma put_typed:
  assumes "flags_typed vals" and "gm_ok vals" and "find_flag n = Some f" and "of_type (fd_default f) v"
  shows "flags_typed (gm_put n v vals)"
  unfolding flags_typed_def
proof
  fix m
  have "case find_flag m of None \<Rightarrow> gm_get vals m = None
     | Some f \<Rightarrow> (\<exists>v. gm_get vals m = Some v \<and> of_type (fd_default f) v)"
    using assms(1) unfolding flags_typed_def ..
  then show "case find_flag m of None \<Rightarrow> gm_get (gm_put n v vals) m = None
     | Some f \<Rightarrow> (\<exists>w. gm_get (gm_put n v vals) m = Some w \<and> of_type (fd_default f) w)"
    using assms(3,4) unfolding gm.lookup_put [OF assms(2)] by (cases "m = n") simp_all
qed

lemma parse_flags_typed:
  "parse_flags args vals = Parsed vals' \<Longrightarrow> gm_ok vals \<Longrightarrow> flags_typed vals \<Longrightarrow> gm_ok vals' \<and> flags_typed vals'"
proof (induction args vals rule: parse_flags.induct)
  case (1 vals)
  then show ?case by simp
next
  case (2 s args vals)
  show ?case
  proof (cases "flag_arg s")
    case (FlagArg n v)
    with 2 obtain f vals1 rest where f: "find_flag n = Some f" "set_flag f v args vals = Inr (vals1, rest)"
      "parse_flags rest vals1 = Parsed vals'"
      by (auto split: option.splits sum.splits if_splits)
    obtain x where x: "vals1 = gm_put n x vals" "of_type (fd_default f) x"
      using set_flag_type [OF f(2)] find_flag_name(1) [OF f(1)] by auto
    have "gm_ok vals1" "flags_typed vals1"
      unfolding x(1) using gm.invar_put put_typed [OF _ _ f(1) x(2)] "2.prems" by auto
    with "2.IH" [OF FlagArg f(1,2) refl] f(3) show ?thesis by blast
  next
    case NoFlag
    with "2.prems" show ?thesis by simp
  next
    case BadSyntax
    with "2.prems" show ?thesis by simp
  qed
qed

lemma parsed_typed: "parse_flags args default_flags = Parsed vals \<Longrightarrow> flags_typed vals"
  using parse_flags_typed [OF _ default_flags_ok default_flags_typed] by blast

text \<open>What the program reads of typed values.\<close>

lemma typed_int:
  assumes "flags_typed vals" and f: "find_flag n = Some f" and "fd_default f = FInt d"
  shows "min_int64 \<le> flag_int vals n \<and> flag_int vals n \<le> max_int64"
proof -
  from assms(1) have "case find_flag n of None \<Rightarrow> gm_get vals n = None
     | Some f \<Rightarrow> (\<exists>v. gm_get vals n = Some v \<and> of_type (fd_default f) v)"
    unfolding flags_typed_def ..
  then obtain v where "gm_get vals n = Some v" "of_type (FInt d) v" using assms(3) by (auto simp: f)
  then show ?thesis by (cases v) (simp_all add: flag_int_def)
qed

end
