(* ===== verification/Main_Spec.thy ===== *)
theory Main_Spec
  imports Main_Program Guest_Spec Flags_Spec
begin

text \<open>
  What the program as a whole promises: the exit code, what bad usage and the preflight leave
  alone, when the boot stage is skipped, and the JSON report.
\<close>

section \<open>The skip\<close>

lemma hasBlocking_iff:
  "hasBlockingKVMFailure xs \<longleftrightarrow> (\<exists>x \<in> set xs. res_Status x \<in> {Fail, Blocked} \<and> res_ID x \<in> set blocking_ids)"
  by (induction xs) auto

definition blocking_tags :: "(string \<times> status) list \<Rightarrow> bool" where
  "blocking_tags ts \<longleftrightarrow> (\<exists>(i, st) \<in> set ts. st \<in> {Fail, Blocked} \<and> i \<in> set blocking_ids)"

lemma hasBlocking_tags: "hasBlockingKVMFailure (results w) \<longleftrightarrow> blocking_tags (tags w)"
  by (auto simp: hasBlocking_iff blocking_tags_def tags_def)

text \<open>The verdict on KVM is in the report of the preflight, whatever surrounds it.\<close>

lemma tags_append:
  assumes "checks P m"
  obtains ts where "tags (exec m w) = tags w @ ts"
proof -
  from assms obtain rs where "w_report (exec m w) = (w_report w)\<lparr>rep_Results := results w @ rs\<rparr>"
    by (auto simp: state_io_rel_exec check_rel_def)
  then show thesis using that by (simp add: tags_def)
qed

lemma runPreflight_kvm:
  assumes "steady E d"
  obtains pre post where
    "tags (exec (runPreflight E) w) = tags w @ pre @ kvm_spec (goarch E) (geteuid E) d @ post"
proof -
  let ?before = "do { checkPlatform E; checkVirtPosture E; checkCPU E }"
  let ?after = "do { checkKVMTuning E; checkDevices E; checkSyscalls E; checkHostFirewall E; checkCgroups E;
    checkMemory E; checkHostKernelConfig E }"
  have "checks (\<lambda>x. True) ?before" "checks (\<lambda>x. True) ?after"
  proof -
    have weak: "checks P m \<Longrightarrow> checks (\<lambda>x. True) m" for P and m :: "unit go"
      by (fastforce simp: state_io_rel_exec check_rel_def list_all_iff)
    show "checks (\<lambda>x. True) ?before" "checks (\<lambda>x. True) ?after"
      by (intro chk.keeps weak [OF platform.reports] weak [OF virt_posture.reports] weak [OF cpu.reports]
          weak [OF kvm_tuning.reports] weak [OF devices.reports] weak [OF syscalls.reports]
          weak [OF firewall.reports] weak [OF cgroups.reports] weak [OF memory.reports]
          weak [OF kernel_config.reports])+
  qed
  then obtain pre post where
    "tags (exec ?before w) = tags w @ pre"
    "tags (exec ?after (exec (checkKVM E) (exec ?before w))) = tags (exec (checkKVM E) (exec ?before w)) @ post"
    by (metis tags_append)
  then have "tags (exec (runPreflight E) w) = tags w @ pre @ kvm_spec (goarch E) (geteuid E) d @ post"
    by (simp add: runPreflight_def checkKVM_refines [OF assms])
  then show thesis by (rule that)
qed

text \<open>Every failed or blocked result of the KVM check stops the boot stage, but that of an unknown architecture.\<close>

lemma kvm_spec_blocking:
  assumes "(i, st) \<in> set (kvm_spec arch uid d)" and "st \<in> {Fail, Blocked}" and "i \<noteq> ''kvm.arch''"
  shows "i \<in> set blocking_ids"
  using assms by (auto simp: kvm_spec_def caps_spec_def sizing_spec_def create_spec_def blocking_ids_def
      split: option.splits sum.splits if_splits)

lemma exec_get_report [simp]: "exec get_report w = w" "result_of get_report w = w_report w"
  by (simp_all add: get_report_def exec_def result_of_def)

lemma exec_set_report [simp]: "exec (set_report r) w = w\<lparr>w_report := r\<rparr>"
  by (simp add: set_report_def exec_def)

lemma run_stage_skips:
  assumes "steady E d" and "fl_stage E = ''all''"
    and "(i, st) \<in> set (kvm_spec (goarch E) (geteuid E) d)" and "st \<in> {Fail, Blocked}" and "i \<noteq> ''kvm.arch''"
  shows "result_of (run_stage E net) w = Inr Returned"
    and "tags (exec (run_stage E net) w) = tags (exec (runPreflight E) w) @ [(''boot.skipped'', Skip)]"
    and "\<exists>evs. list_all inspecting evs \<and> w_trace (exec (run_stage E net) w) = w_trace w @ evs"
proof -
  obtain pre post where
    "tags (exec (runPreflight E) w) = tags w @ pre @ kvm_spec (goarch E) (geteuid E) d @ post"
    by (rule runPreflight_kvm [OF assms(1)])
  then have "blocking_tags (tags (exec (runPreflight E) w))"
    using assms(3,4) kvm_spec_blocking [OF assms(3-5)] by (auto simp: blocking_tags_def)
  then have b: "hasBlockingKVMFailure (results (exec (runPreflight E) w))" by (simp add: hasBlocking_tags)
  then show "result_of (run_stage E net) w = Inr Returned"
    "tags (exec (run_stage E net) w) = tags (exec (runPreflight E) w) @ [(''boot.skipped'', Skip)]"
    using assms(2) by (simp_all add: run_stage_def tag_simps)
  have "exec (run_stage E net) w =
      exec (Addf E ''boot.skipped'' ''Boot stage'' Skip det_boot_skipped) (exec (runPreflight E) w)"
    using assms(2) b by (simp add: run_stage_def)
  moreover obtain evs where "list_all inspecting evs" "w_trace (exec (runPreflight E) w) = w_trace w @ evs"
    using preflight.only_inspects by blast
  ultimately show "\<exists>evs. list_all inspecting evs \<and> w_trace (exec (run_stage E net) w) = w_trace w @ evs"
    by (cases "fl_verbose E") (auto simp: Addf_def Add_def)
qed

section \<open>The exit code\<close>

lemma exit_code_Finish:
  "exit_code (Finish t r) =
    (if \<exists>x \<in> set (rep_Results r). res_Status x = Fail then 1
     else if \<exists>x \<in> set (rep_Results r). res_Status x = Blocked then 3 else 0)"
  by (simp add: exit_code_def Finish_Verdict)

lemma write_json_result: "result_of (write_json E r) w \<in> {None, Some 1}"
  by (auto simp: write_json_def Let_def exec_unless_error split: option.splits)

lemma finish_main_code:
  "result_of (finish_main E start) w = exit_code (Finish t (w_report w)) \<or>
    fl_json E \<noteq> [] \<and> result_of (finish_main E start) w = 1"
proof -
  let ?now = "result_of (go_now E) w"
  let ?r = "Finish (nat (?now - start)) (w_report w)"
  let ?w = "exec (go_now E) w"
  have rep: "w_report ?w = w_report w" by (simp add: go_now_def)
  let ?w' = "?w\<lparr>w_report := ?r, w_trace := w_trace ?w @ [EvStdout (Render ?r)]\<rparr>"
  have c: "result_of (finish_main E start) w =
      (case result_of (write_json E ?r) ?w' of Some c \<Rightarrow> c | None \<Rightarrow> exit_code ?r)"
    by (simp add: finish_main_def Let_def rep cong: option.case_cong)
  have "exit_code ?r = exit_code (Finish t (w_report w))" unfolding exit_code_Finish ..
  moreover have "fl_json E = [] \<Longrightarrow> result_of (write_json E ?r) ?w' = None"
    by (simp add: write_json_def Let_def)
  ultimately show ?thesis using c write_json_result [of E ?r ?w'] by auto
qed

text \<open>The values a computation can return.\<close>

definition returns :: "'a set \<Rightarrow> 'a go \<Rightarrow> bool" where
  "returns S m \<longleftrightarrow> (\<forall>w. result_of m w \<in> S)"

lemma returns_return: "x \<in> S \<Longrightarrow> returns S (return x)"
  by (simp add: returns_def)

lemma returns_bind: "returns T m \<Longrightarrow> (\<And>x. x \<in> T \<Longrightarrow> returns S (f x)) \<Longrightarrow> returns S (m \<bind> f)"
  by (simp add: returns_def)

lemma returns_then: "(\<And>x. returns S (f x)) \<Longrightarrow> returns S (m \<bind> f)"
  by (simp add: returns_def)

lemma returns_finish: "returns {0, 1, 2, 3} (finish_main E start)"
  unfolding returns_def
proof
  fix w :: world
  have "exit_code (Finish 0 (w_report w)) \<in> {0, 1, 2, 3}" by (simp add: exit_code_Finish)
  with finish_main_code [of E start w 0] show "result_of (finish_main E start) w \<in> {0, 1, 2, 3}" by auto
qed

lemma returns_run_stage: "returns (insert (Inl 2) (range Inr)) (run_stage E net)"
  unfolding run_stage_def by (auto intro!: returns_then returns_return)

lemma returns_host_main: "returns {0, 1, 2, 3} (host_main E net)"
proof -
  have "returns {0, 1, 2, 3} (case s of Inl c \<Rightarrow> return c
     | Inr (Panicked m) \<Rightarrow> do { stderr_out (''panic: runtime error: '' @ m @ [newline]); return 2 }
     | Inr Returned \<Rightarrow> finish_main E start)" if "s \<in> insert (Inl 2) (range Inr)" for s start
    using that returns_finish by (auto split: flow.split intro!: returns_then returns_return)
  then show ?thesis
    unfolding host_main_def by (intro returns_then returns_bind [OF returns_run_stage])
qed

lemma returns_flagged_main: "returns {0, 1, 2, 3} (flagged_main E)"
  using returns_host_main [of E]
  by (simp add: flagged_main_def returns_then returns_return split: net_result.split)

lemma main_codes:
  "result_of (main E) w \<in> (if getpid E = 1 \<or> hasArg E ''-guest'' then {None} else {Some 0, Some 1, Some 2, Some 3})"
  using returns_flagged_main by (auto simp: main_def returns_def split: parsed.split)

section \<open>Bad usage\<close>

text \<open>A range that is not accepted ends the program before it looks at the host, and so does a bad flag.\<close>

lemma flagged_bad_net:
  assumes "goos E = ''linux''" and "\<nexists>net. resolveGuestNet (fl_guest_net E) (fl_vms E) = NetOK net"
  shows "result_of (flagged_main E) w = 2 \<and> (\<exists>s. w_trace (exec (flagged_main E) w) = w_trace w @ [EvStderr s])"
  using assms by (auto simp: flagged_main_def stderr_out_def split: net_result.split)

lemma main_bad_flags:
  assumes "getpid E \<noteq> 1" and "\<not> hasArg E ''-guest''" and "parse_flags (tl (os_args E)) default_flags = BadFlags m"
  shows "result_of (main E) w = Some 2 \<and>
    w_trace (exec (main E) w) = w_trace w @ [EvStderr (m @ [newline]), EvStderr usage]"
  using assms by (simp add: main_def stderr_out_def)

lemma main_parsed:
  assumes "getpid E \<noteq> 1" and "\<not> hasArg E ''-guest''" and "parse_flags (tl (os_args E)) default_flags = Parsed vals"
  shows "main E = do { c \<leftarrow> flagged_main (with_flags vals E); return (Some c) }"
  using assms by (simp add: main_def)

lemma main_bad_net:
  assumes "getpid E \<noteq> 1" and "\<not> hasArg E ''-guest''" and "goos E = ''linux''"
    and "parse_flags (tl (os_args E)) default_flags = Parsed vals"
    and "\<nexists>net. resolveGuestNet (flag_str vals ''guest-net'') (flag_int vals ''vms'') = NetOK net"
  shows "result_of (main E) w = Some 2 \<and> (\<exists>s. w_trace (exec (main E) w) = w_trace w @ [EvStderr s])"
  using flagged_bad_net [of "with_flags vals E" w] assms(3,5)
  by (simp add: main_parsed [OF assms(1,2,4)] with_flags_def)

section \<open>The command line\<close>

text \<open>Settings are not mistaken for the request to be a guest.\<close>

lemma hasArg_settings:
  assumes "tl (os_args E) = map setting_arg nvs" and "list_all setting_ok nvs" and "(''guest'', FBool True) \<notin> set nvs"
  shows "\<not> hasArg E ''-guest''"
proof -
  have "setting_arg nv \<noteq> ''-guest'' \<and> setting_arg nv \<noteq> ''-guest=true''" if nv: "nv \<in> set nvs" for nv
  proof -
    obtain f where f: "find_flag (fst nv) = Some f" "of_type (fd_default f) (snd nv)"
      using nv assms(2) by (auto simp: setting_ok_def list_all_iff split: option.splits)
    have "flag_arg (setting_arg nv) \<noteq> FlagArg ''guest'' (Some ''true'')"
    proof
      assume "flag_arg (setting_arg nv) = FlagArg ''guest'' (Some ''true'')"
      then have g: "fst nv = ''guest''" "flag_text (snd nv) = ''true''" by (simp_all add: flag_arg_setting [OF f(1)])
      then have "fd_default f = FBool False" using f(1) by (auto simp: find_flag_def flag_table_def)
      then have "snd nv = FBool True" using f(2) g(2) by (cases "snd nv") (auto simp: flag_text_def split: if_splits)
      with g(1) have "nv = (''guest'', FBool True)" by (simp add: prod_eq_iff)
      with nv assms(3) show False by simp
    qed
    moreover have "flag_arg (setting_arg nv) \<noteq> FlagArg ''guest'' None" by (simp add: flag_arg_setting [OF f(1)])
    ultimately show ?thesis by (auto simp: flag_arg_def split_flag_def cut_single Let_def)
  qed
  then show ?thesis by (auto simp: hasArg_def assms(1) list_ex_iff)
qed

lemma main_settings:
  assumes "getpid E \<noteq> 1" and "tl (os_args E) = map setting_arg nvs" and "list_all setting_ok nvs"
    and "(''guest'', FBool True) \<notin> set nvs"
  shows "\<exists>vals. main E = do { c \<leftarrow> flagged_main (with_flags vals E); return (Some c) } \<and>
    (\<forall>n. gm_get vals n =
      (case map_of (rev nvs) n of Some v \<Rightarrow> Some v | None \<Rightarrow> map_option fd_default (find_flag n)))"
  using parse_settings [OF assms(3)] main_parsed [OF assms(1) hasArg_settings [OF assms(2-4)]] assms(2) by auto

text \<open>
  The request to be a guest is looked for among all arguments, values included, and in one spelling:
  the value of another flag makes the program a guest, and the second spelling does not.
\<close>

lemma put_flag_arg:
  "parse_flags [''-json'', ''-guest''] default_flags = Parsed (gm_put ''json'' (FStr ''-guest'') default_flags)"
  "parse_flags [''--guest''] default_flags = Parsed (gm_put ''guest'' (FBool True) default_flags)"
  by (simp_all add: flag_arg_def split_flag_def cut_single find_flag_def flag_table_def set_flag_def set_value_def)

lemma main_value_is_guest:
  "tl (os_args E) = [''-json'', ''-guest''] \<Longrightarrow> main E = do { runGuest E; return None }"
  by (simp add: main_def hasArg_def)

lemma main_guest_is_host:
  assumes "getpid E \<noteq> 1" and "tl (os_args E) = [''--guest'']"
  shows "main E = do { c \<leftarrow> flagged_main (with_flags (gm_put ''guest'' (FBool True) default_flags) E); return (Some c) }"
proof (rule main_parsed [OF assms(1)])
  show "\<not> hasArg E ''-guest''" using assms(2) by (simp add: hasArg_def)
  show "parse_flags (tl (os_args E)) default_flags = Parsed (gm_put ''guest'' (FBool True) default_flags)"
    using put_flag_arg(2) by (simp only: assms(2))
qed

section \<open>The preflight leaves the host alone\<close>

text \<open>What the program does besides inspecting, when it only runs the preflight and writes no file.\<close>

fun quiet :: "event \<Rightarrow> bool" where
  "quiet (EvStdout s) = True"
| "quiet EvClock = True"
| "quiet ev = inspecting ev"

lemma emits_preflight: "emits quiet (runPreflight E)"
proof -
  have "inspecting ev \<Longrightarrow> quiet ev" for ev by (cases ev) simp_all
  then show ?thesis
    using preflight.only_inspects [where E = E]
    by (fastforce simp: state_io_rel_exec emits_rel_def list_all_iff)
qed

lemma emits_get_report [emits_intros]: "emits ok get_report"
  by (simp add: state_io_rel_exec em.refl)

lemma emits_set_report [emits_intros]: "emits ok (set_report r)"
  by (auto simp: state_io_rel_exec emits_rel_def intro: exI [of _ "[]"])

lemma emits_host_main:
  assumes "fl_stage E = ''preflight''" and "fl_json E \<in> {[], ''-''}"
  shows "emits quiet (host_main E net)"
proof -
  have "run_stage E net = do { runPreflight E; return (Inr Returned) }"
    using assms(1) by (simp add: run_stage_def)
  moreover have "emits quiet (do { runPreflight E; return (Inr Returned) } :: (nat + flow) go)"
    by (intro emits_intros emits_preflight)
  ultimately have stage: "emits quiet (run_stage E net)" by simp
  have json: "emits quiet (write_json E r)" for r
    using assms(2) unfolding write_json_def Let_def WriteJSON_def stderr_out_def
    by (elim insertE emptyE; simp) (intro emits_intros; simp)+
  show ?thesis
    unfolding host_main_def finish_main_def stderr_out_def go_now_def Let_def
    by (intro emits_intros stage json) (auto split: flow.split intro!: emits_intros stage json)
qed

lemma emits_main:
  assumes "getpid E \<noteq> 1" and "\<not> hasArg E ''-guest''" and "parse_flags (tl (os_args E)) default_flags = Parsed vals"
    and "flag_str vals ''stage'' = ''preflight''" and "flag_str vals ''json'' \<in> {[], ''-''}"
  shows "emits quiet (main E)"
proof -
  have "emits quiet (do { stderr_out s; return 2 } :: nat go)" for s
    unfolding stderr_out_def by (intro emits_intros) simp
  moreover have "emits quiet (host_main (with_flags vals E) net)" for net
    by (rule emits_host_main) (simp_all add: with_flags_def assms(4,5) [simplified])
  ultimately have "emits quiet (flagged_main (with_flags vals E))"
    by (simp add: flagged_main_def split: net_result.split)
  then show ?thesis unfolding main_parsed [OF assms(1-3)] by (intro emits_intros)
qed

section \<open>The JSON report\<close>

lemma json_text_read:
  assumes "any_utf8 (report_any r)" and "list_all (\<lambda>x. json_float x \<noteq> None) (any_floats (report_any r))"
  shows "\<exists>s. json_text r = Inr s \<and> json_parse s = Some (json_of (report_any r))"
proof -
  obtain t where t: "encode indented 0 (report_any r) = Some t"
    using encode_total(1) [of "report_any r" indented 0] assms(2) by (auto simp: list_all_iff)
  with json_parse_encode_ws [OF t assms(1) indented_ok, of "[newline]"] show ?thesis
    by (simp add: json_text_def ws_text_def num_end_def is_dec_digit_iff)
qed

end
