(* ===== verification/End_To_End.thy ===== *)
theory End_To_End
  imports Main_Spec
begin

text \<open>
  The parts composed: from the report that a guest prints to the exit code of the program on a
  host where everything that the boot stage asks for is granted.
\<close>

section \<open>A host that is ready for the boot stage\<close>

text \<open>
  Root, a supplied Firecracker and kernel, and a program that can be read and names no
  interpreter.
\<close>

definition boot_ready :: "env \<Rightarrow> bool" where
  "boot_ready E \<longleftrightarrow> geteuid E = 0 \<and> firecrackerArtifacts (goarch E) \<noteq> None \<and> fl_firecracker E \<noteq> [] \<and>
     fl_kernel E \<noteq> [] \<and> 0 < fl_vms E \<and>
     (\<exists>self fd b progs. os_executable E = Inr self \<and> (\<forall>h. os_elf E h self = Inr progs) \<and>
       (\<forall>p \<in> set progs. fst p \<noteq> PT_INTERP) \<and> (\<forall>h. os_open E h self False = Inr fd) \<and>
       (\<forall>h. os_read E h self = (b, None))) \<and>
     (\<exists>d. \<forall>h. os_mkdir_temp E h = Inr d)"

definition boot_prelude :: "(string \<times> status) list" where
  "boot_prelude = [(''boot.firecracker'', Info), (''boot.kernel'', Pass), (''boot.initramfs.linkage'', Pass),
     (''boot.initramfs'', Pass)]"

lemma tags_ReadFile [tag_simps]: "tags (exec (ReadFile E p) w) = tags w"
  by (simp add: ReadFile_def tag_simps go_read_def case_prod_beta split: sum.splits)

lemma read_self_ready:
  assumes "boot_ready E"
  shows "tags (exec (read_self E) w) = tags w @ [(''boot.initramfs.linkage'', Pass)]"
    and "\<exists>b. result_of (read_self E) w = Some b"
proof -
  obtain self fd b progs where s: "os_executable E = Inr self" "\<forall>h. os_elf E h self = Inr progs"
    "\<forall>p \<in> set progs. fst p \<noteq> PT_INTERP" "\<forall>h. os_open E h self False = Inr fd" "\<forall>h. os_read E h self = (b, None)"
    using assms unfolding boot_ready_def by blast
  from s(3) have "find (\<lambda>p. fst p = PT_INTERP) progs = None" by (auto simp: find_None_iff)
  then have r: "result_of (elfInterpreter E self) w = Inr None" "exec (elfInterpreter E self) w = w" for w
    using s(2) by (simp_all add: elfInterpreter_def)
  have f: "result_of (ReadFile E self) w = Inr b" for w
    using s(4,5) by (simp add: ReadFile_def with_defer_def go_open_def go_read_def)
  show "tags (exec (read_self E) w) = tags w @ [(''boot.initramfs.linkage'', Pass)]"
    "\<exists>b. result_of (read_self E) w = Some b"
    using s(1) r f by (simp_all add: read_self_def check_linkage_def tag_simps)
qed

text \<open>The outcomes, each in the world its goroutine starts from.\<close>

lemma vm_outcomes_all:
  assumes "\<And>i w. result_of (body i) w = f i"
  shows "vm_outcomes E w body = map f [0..<nat (fl_vms E)]"
  by (simp add: vm_outcomes_def assms fst_alone)

definition good_outcome :: "guest_report \<Rightarrow> vm_outcome \<Rightarrow> bool" where
  "good_outcome g o1 \<longleftrightarrow> vo_Guest o1 = Some g \<and> vo_Err o1 = []"

lemma judge_spec_good:
  assumes "os \<noteq> []" and "\<forall>o1 \<in> set os. good_outcome g o1"
  shows "judge_spec os = (''boot.launch'', Pass) #
    [(''boot.guest_kernel'', Pass),
     (''boot.virtio'', if {''virtio_blk'', ''virtio_net''} \<subseteq> set (drivers g) then Pass else Fail),
     (''boot.network'', if gr_NetError g = [] then Pass else Fail),
     (''boot.timing'', Info), (''boot.perf.clock'', Info), (''boot.perf.cpu'', Info), (''boot.perf.mem'', Info)] @
    (if f_less f_zero (gr_DiskWriteMBps g) then [(''boot.perf.disk'', Info)] else []) @ [(''boot.raw'', Info)]"
  using assms by (cases os) (auto simp: judge_spec_def good_outcome_def guest_of_def)

section \<open>The boot stage\<close>

text \<open>The console of a run that holds the report of a guest once, among lines without the prefix.\<close>

definition reports :: "vm_run \<Rightarrow> guest_report \<Rightarrow> bool" where
  "reports run g \<longleftrightarrow> finite_report g \<and> report_ok g \<and>
     (\<exists>before after. fst (scan_lines big_token_max (vr_output run)) =
        before @ (guestReportPrefix @ marshal_report g) # after \<and>
      (\<forall>l \<in> set (before @ after). \<not> contains l guestReportPrefix))"

lemma bootOne_good:
  assumes "host_grants E run" and "reports run g"
  shows "good_outcome g (result_of (bootOne E net i fcBin kern initramfs workDir) w)"
proof -
  from assms(2) obtain before after where
    "fst (scan_lines big_token_max (vr_output run)) = before @ (guestReportPrefix @ marshal_report g) # after"
    "\<forall>l \<in> set (before @ after). \<not> contains l guestReportPrefix" "finite_report g" "report_ok g"
    unfolding reports_def by blast
  from bootOne_succeeds [OF assms(1) this(3,4,1,2)] show ?thesis by (simp add: good_outcome_def)
qed

definition boot_verdict :: "guest_report \<Rightarrow> (string \<times> status) list" where
  "boot_verdict g = boot_prelude @ (''boot.launch'', Pass) #
    [(''boot.guest_kernel'', Pass),
     (''boot.virtio'', if {''virtio_blk'', ''virtio_net''} \<subseteq> set (drivers g) then Pass else Fail),
     (''boot.network'', if gr_NetError g = [] then Pass else Fail),
     (''boot.timing'', Info), (''boot.perf.clock'', Info), (''boot.perf.cpu'', Info), (''boot.perf.mem'', Info)] @
    (if f_less f_zero (gr_DiskWriteMBps g) then [(''boot.perf.disk'', Info)] else []) @ [(''boot.raw'', Info)]"

lemma run_vms_good:
  assumes "schedule_ok E" and "0 < fl_vms E" and "host_grants E run" and "reports run g"
  shows "boot_prelude @ judge_spec (vm_outcomes E w (\<lambda>i. bootOne E net i fcBin kern initramfs workDir)) = boot_verdict g"
    (is "_ @ judge_spec ?os = _")
proof -
  have "?os \<noteq> []" using assms(2) by (simp add: vm_outcomes_def)
  moreover have "\<forall>o1 \<in> set ?os. good_outcome g o1"
    using bootOne_good [OF assms(3,4)] by (auto simp: vm_outcomes_def fst_alone)
  ultimately show ?thesis by (simp add: judge_spec_good boot_verdict_def)
qed

lemma boot_in_tags:
  assumes "schedule_ok E" and "0 \<le> fl_vms E" and "host_grants E run"
  shows "\<exists>w'. tags (exec (boot_in E net fcBin kern b d) w) = tags w @ (''boot.initramfs'', Pass) #
    judge_spec (vm_outcomes E w' (\<lambda>i. bootOne E net i fcBin kern (path_join d ''initramfs.cpio'') d))"
proof -
  let ?body = "\<lambda>i. bootOne E net i fcBin kern (path_join d ''initramfs.cpio'') d"
  have r: "tags (exec (run_vms E ?body) w) = tags w @ judge_spec (vm_outcomes E w ?body)" for w
    using bootOne_ok bootOne_report by (intro run_vms_tags [OF assms(1,2)]) (auto simp: outcome_ok_def)
  have g: "os_write E h p c = None" for h p c using assms(3) by (simp add: host_grants_def)
  show ?thesis
    by (auto simp: boot_in_def Let_def exec_unless_error go_write_def g r tag_simps)
qed

lemma runBootStage_good:
  assumes "boot_ready E" and "schedule_ok E" and "host_grants E run" and "reports run g"
  shows "result_of (runBootStage E net) w = Returned"
    and "tags (exec (runBootStage E net) w) = tags w @ boot_verdict g"
proof -
  from assms(1) obtain art d where e: "geteuid E = 0" "firecrackerArtifacts (goarch E) = Some art"
    "fl_firecracker E \<noteq> []" "fl_kernel E \<noteq> []" "0 < fl_vms E" "\<forall>h. os_mkdir_temp E h = Inr d"
    unfolding boot_ready_def by auto
  have g: "os_write E h p c = None" for h p c using assms(3) by (simp add: host_grants_def)
  have k: "result_of (boot_kernel E) w = Some (fl_kernel E)"
    "tags (exec (boot_kernel E) w) = tags w @ [(''boot.kernel'', Pass)]" for w
    using e(4) by (simp_all add: boot_kernel_def tag_simps)
  have f: "result_of (boot_firecracker E art) w = Some (fl_firecracker E)"
    "tags (exec (boot_firecracker E art) w) = tags w @ [(''boot.firecracker'', Info)]" for w
    using e(3) by (simp_all add: boot_firecracker_def tag_simps)
  have m: "result_of (go_mkdir_temp E) w = Inr d" "tags (exec (go_mkdir_temp E) w) = tags w" for w
    using e(6) by (simp_all add: go_mkdir_temp_def tag_simps)
  have i: "tags (exec (boot_in E net fcBin kern b d) w) = tags w @ drop 3 (boot_verdict g)"
    "result_of (boot_in E net fcBin kern b d) w = Returned" for fcBin kern b w
  proof -
    obtain w' where "tags (exec (boot_in E net fcBin kern b d) w) = tags w @ (''boot.initramfs'', Pass) #
        judge_spec (vm_outcomes E w' (\<lambda>i. bootOne E net i fcBin kern (path_join d ''initramfs.cpio'') d))"
      using boot_in_tags [OF assms(2) _ assms(3), of net fcBin kern b d w] e(5) by auto
    moreover have "(''boot.initramfs'', Pass) #
        judge_spec (vm_outcomes E w' (\<lambda>i. bootOne E net i fcBin kern (path_join d ''initramfs.cpio'') d)) =
        drop 3 (boot_verdict g)"
      by (subst run_vms_good [OF assms(2) e(5) assms(3,4), symmetric, where net = net and fcBin = fcBin and kern = kern
        and initramfs = "path_join d ''initramfs.cpio''" and workDir = d and w = w']) (simp add: boot_prelude_def)
    ultimately show "tags (exec (boot_in E net fcBin kern b d) w) = tags w @ drop 3 (boot_verdict g)" by simp
    show "result_of (boot_in E net fcBin kern b d) w = Returned"
      using e(5) by (simp add: boot_in_def Let_def exec_unless_error go_write_def g run_vms_flow)
  qed
  have b: "\<exists>b. result_of (read_self E) w = Some b" for w using read_self_ready(2) [OF assms(1)] .
  have w: "result_of (boot_with E net fcBin) w = Returned"
    "tags (exec (boot_with E net fcBin) w) = tags w @ [(''boot.kernel'', Pass), (''boot.initramfs.linkage'', Pass)] @
      drop 3 (boot_verdict g)" for fcBin w
    using b [of "exec (boot_kernel E) w"]
    by (auto simp: boot_with_def k with_defer_def m i read_self_ready(1) [OF assms(1)] tag_simps)
  show "result_of (runBootStage E net) w = Returned"
    using e(1,2) by (simp add: runBootStage_def f w)
  show "tags (exec (runBootStage E net) w) = tags w @ boot_verdict g"
    using e(1,2) by (simp add: runBootStage_def f w) (simp add: boot_verdict_def boot_prelude_def)
qed

section \<open>The exit code\<close>

lemma has_status: "(\<exists>x \<in> set (results w). res_Status x = st) \<longleftrightarrow> (\<exists>t \<in> set (tags w). snd t = st)"
  by (auto simp: tags_def)

lemma finish_main_tags:
  assumes "fl_json E = []"
  shows "result_of (finish_main E start) w =
    (if \<exists>t \<in> set (tags w). snd t = Fail then 1 else if \<exists>t \<in> set (tags w). snd t = Blocked then 3 else 0)"
  using finish_main_code [of E start w 0] assms
  by (simp add: exit_code_Finish has_status [symmetric])

lemma boot_run_code:
  assumes "boot_ready E" and "schedule_ok E" and "host_grants E run" and "reports run g"
    and "fl_stage E = ''boot''" and "fl_json E = []"
  shows "result_of (host_main E net) w =
    (if {''virtio_blk'', ''virtio_net''} \<subseteq> set (drivers g) \<and> gr_NetError g = [] then 0 else 1)"
proof -
  have s: "result_of (run_stage E net) w = Inr Returned" "tags (exec (run_stage E net) w) = tags w @ boot_verdict g" for w
    using runBootStage_good [OF assms(1-4)] assms(5) by (simp_all add: run_stage_def)
  have t: "tags (w\<lparr>w_report := NewReport n t\<rparr>) = []" for w n t by (simp add: tags_def NewReport_def)
  show ?thesis
    by (simp add: host_main_def s finish_main_tags [OF assms(6)] t go_now_def tag_simps)
      (auto simp: boot_verdict_def boot_prelude_def)
qed

text \<open>The whole program, from its command line to its exit code.\<close>

lemma main_boot_code:
  assumes "getpid E \<noteq> 1" and "\<not> hasArg E ''-guest''" and "goos E = ''linux''"
    and "parse_flags (tl (os_args E)) default_flags = Parsed vals"
    and "resolveGuestNet (flag_str vals ''guest-net'') (flag_int vals ''vms'') = NetOK net"
    and "boot_ready (with_flags vals E)" and "schedule_ok E" and "host_grants E run" and "reports run g"
    and "flag_str vals ''stage'' = ''boot''" and "flag_str vals ''json'' = []"
  shows "result_of (main E) w = Some
    (if {''virtio_blk'', ''virtio_net''} \<subseteq> set (drivers g) \<and> gr_NetError g = [] then 0 else 1)"
proof -
  have "schedule_ok (with_flags vals E)" "host_grants (with_flags vals E) run"
    using assms(7,8) by (simp_all add: schedule_ok_def host_grants_def with_flags_def)
  from boot_run_code [OF assms(6) this assms(9), of net w] assms(3,5,10,11)
  have "result_of (flagged_main (with_flags vals E)) w =
      (if {''virtio_blk'', ''virtio_net''} \<subseteq> set (drivers g) \<and> gr_NetError g = [] then 0 else 1)"
    by (simp add: flagged_main_def with_flags_def)
  then show ?thesis unfolding main_parsed [OF assms(1,2,4)] by simp
qed

end
