(* ===== verification/Other_Platform.thy ===== *)
theory Other_Platform
  imports Main_Spec
begin

text \<open>
  The build for other systems: \<open>main.go\<close> over the stubs of \<open>unsupported.go\<close>. A stub that exits
  gives the exit code.
\<close>

section \<open>The stubs\<close>

definition stub_defaultBootArgs :: string where
  "stub_defaultBootArgs = ''console=ttyS0 reboot=k panic=1 pci=off''"

definition stub_guestReportPrefix :: string where
  "stub_guestReportPrefix = ''FCPF-REPORT ''"

definition stub_resolveGuestNet :: "string \<Rightarrow> int \<Rightarrow> os_error option" where
  "stub_resolveGuestNet cidr n = None"

definition stub_runGuest :: "nat go" where
  "stub_runGuest = do { stderr_out (''fc-preflight guest mode is Linux-only'' @ [newline]); return 2 }"

definition stub_runPreflight :: "nat go" where
  "stub_runPreflight = do { stderr_out (''fc-preflight runs on Linux only'' @ [newline]); return 2 }"

definition stub_runBootStage :: "nat go" where
  "stub_runBootStage = do { stderr_out (''fc-preflight runs on Linux only'' @ [newline]); return 2 }"

section \<open>The program\<close>

text \<open>The stages: every stub exits, so nothing of \<open>main\<close> follows one.\<close>

definition stub_run_stage :: "env \<Rightarrow> nat go" where
  "stub_run_stage E =
    (if fl_stage E = ''preflight'' then stub_runPreflight
     else if fl_stage E = ''boot'' then stub_runBootStage
     else if fl_stage E = ''all'' then stub_runPreflight
     else do {
       stderr_out (''unknown -stage '' @ quote (fl_stage E) @ ''; want preflight, boot or all'' @ [newline]);
       return 2 })"

definition stub_host_main :: "env \<Rightarrow> nat go" where
  "stub_host_main E = do {
     (if geteuid E \<noteq> 0 then stderr_out (root_warning E) else return ());
     started \<leftarrow> ask (\<lambda>h. os_now E h);
     go_now E;
     set_report (NewReport (os_hostname E) started);
     stub_run_stage E }"

definition stub_flagged_main :: "env \<Rightarrow> nat go" where
  "stub_flagged_main E =
    (if goos E \<noteq> ''linux'' then do {
       stderr_out (''fc-preflight runs on Linux; this is '' @ goos E @ [newline]);
       return 2 }
     else unless_error (return (stub_resolveGuestNet (fl_guest_net E) (fl_vms E)))
       (\<lambda>e. do { stderr_out (err_text e @ [newline]); return 2 }) (stub_host_main E))"

definition stub_main :: "env \<Rightarrow> nat go" where
  "stub_main E =
    (if getpid E = 1 \<or> hasArg E ''-guest'' then stub_runGuest
     else case parse_flags (tl (os_args E)) default_flags of
       Help \<Rightarrow> do { stderr_out usage; return 0 }
     | BadFlags m \<Rightarrow> do { stderr_out (m @ [newline]); stderr_out usage; return 2 }
     | Parsed vals \<Rightarrow> stub_flagged_main (with_flags vals E))"

section \<open>What it does\<close>

text \<open>The constants are those of the other build, so the flag table is the same.\<close>

lemma stub_constants: "stub_defaultBootArgs = defaultBootArgs" "stub_guestReportPrefix = guestReportPrefix"
  by (simp_all add: stub_defaultBootArgs_def defaultBootArgs_def stub_guestReportPrefix_def guestReportPrefix_def)

fun is_message :: "event \<Rightarrow> bool" where
  "is_message (EvStderr s) = True"
| "is_message _ = False"

lemma with_flags_goos [simp]: "goos (with_flags vals E) = goos E"
  by (simp add: with_flags_def)

text \<open>It prints, and ends with the code for bad usage unless only the usage was asked for.\<close>

lemma stub_main_code:
  assumes "goos E \<noteq> ''linux''"
  shows "result_of (stub_main E) w =
    (if \<not> (getpid E = 1 \<or> hasArg E ''-guest'') \<and> parse_flags (tl (os_args E)) default_flags = Help then 0 else 2)"
  using assms by (auto simp: stub_main_def stub_runGuest_def stub_flagged_main_def split: parsed.split)

lemma stub_main_prints:
  assumes "goos E \<noteq> ''linux''"
  shows "\<exists>evs. evs \<noteq> [] \<and> list_all is_message evs \<and> w_trace (exec (stub_main E) w) = w_trace w @ evs"
  using assms by (auto simp: stub_main_def stub_runGuest_def stub_flagged_main_def stderr_out_def split: parsed.split)

text \<open>Outside the guest mode it does what the other build does on such a system.\<close>

lemma stub_main_same:
  assumes "goos E \<noteq> ''linux''" and "getpid E \<noteq> 1" and "\<not> hasArg E ''-guest''"
  shows "main E = do { c \<leftarrow> stub_main E; return (Some c) }"
  using assms by (simp add: main_def stub_main_def flagged_main_def stub_flagged_main_def split: parsed.split)

text \<open>A stub is reached, though: the one for the guest.\<close>

lemma stub_main_guest:
  assumes "hasArg E ''-guest''"
  shows "w_trace (exec (stub_main E) w) = w_trace w @ [EvStderr (''fc-preflight guest mode is Linux-only'' @ [newline])]"
  using assms by (simp add: stub_main_def stub_runGuest_def stderr_out_def)

end
