(* ===== verification/Echo.thy ===== *)
theory Echo
  imports Guest "HOL-Library.Sublist"
begin

text \<open>
  The echo server of \<open>boot_linux.go\<close> and the second half of \<open>measureNet\<close> in \<open>guest_linux.go\<close>, as
  step relations: the goroutines that accept and copy on the host, and the two goroutines of the
  guest that write to a connection and empty it. Between them are the buffers of the two
  sockets, which are bounded: a write to a full one waits. The sizes of the buffers and of a
  copy are parameters.
\<close>

section \<open>Systems whose runs end\<close>

text \<open>An invariant and a measure that every step decreases.\<close>

locale measured_steps =
  fixes step :: "'s \<Rightarrow> 's \<Rightarrow> bool" and measured :: "'s \<Rightarrow> nat" and inv :: "'s \<Rightarrow> bool"
  assumes inv_step: "inv s \<Longrightarrow> step s t \<Longrightarrow> inv t"
    and smaller: "inv s \<Longrightarrow> step s t \<Longrightarrow> measured t < measured s"
begin

lemma inv_reachable: "step\<^sup>*\<^sup>* s t \<Longrightarrow> inv s \<Longrightarrow> inv t"
  by (induction rule: rtranclp_induct) (auto intro: inv_step)

lemma run_length: "(step ^^ n) s t \<Longrightarrow> inv s \<Longrightarrow> n + measured t \<le> measured s"
proof (induction n arbitrary: t)
  case 0
  then show ?case by simp
next
  case (Suc n)
  then obtain u where u: "(step ^^ n) s u" "step u t" by auto
  then have "inv u" using Suc.prems(2) by (meson inv_reachable relpowp_imp_rtranclp)
  from smaller [OF this u(2)] Suc.IH [OF u(1) Suc.prems(2)] show ?case by simp
qed

lemma some_run_ends: "inv s \<Longrightarrow> \<exists>t. step\<^sup>*\<^sup>* s t \<and> \<not> Ex (step t)"
proof (induction "measured s" arbitrary: s rule: less_induct)
  case less
  show ?case
  proof (cases "Ex (step s)")
    case True
    then obtain u where u: "step s u" by blast
    then obtain t where "step\<^sup>*\<^sup>* u t" "\<not> Ex (step t)"
      using less.hyps [OF smaller inv_step] less.prems by blast
    with u show ?thesis by (meson converse_rtranclp_into_rtranclp)
  qed blast
qed

end

section \<open>A connection\<close>

text \<open>
  The two socket buffers, what the copying goroutine has read and not yet written, and whether
  the client has closed its end. What was sent and what came back are recorded.
\<close>

record limits =
  lim_in :: nat
  lim_out :: nat
  lim_copy :: nat

record echo_conn =
  ec_in :: bytes
  ec_hold :: bytes
  ec_out :: bytes
  ec_accepted :: bool
  ec_closed :: bool
  ec_eof :: bool
  ec_sent :: bytes
  ec_back :: bytes

definition new_conn :: echo_conn where
  "new_conn = \<lparr>ec_in = [], ec_hold = [], ec_out = [], ec_accepted = False, ec_closed = False,
     ec_eof = False, ec_sent = [], ec_back = []\<rparr>"

text \<open>
  The goroutine of an accepted connection, \<open>io.Copy(c, c)\<close> and then \<open>c.Close()\<close>: it reads when it
  holds nothing, writes what it holds, ends at the end of the input and ends early when the
  client is gone.
\<close>

inductive serve :: "limits \<Rightarrow> echo_conn \<Rightarrow> echo_conn \<Rightarrow> bool" for L where
  serve_read: "ec_accepted c \<Longrightarrow> \<not> ec_closed c \<Longrightarrow> ec_hold c = [] \<Longrightarrow> 0 < n \<Longrightarrow> n \<le> length (ec_in c) \<Longrightarrow>
     n \<le> lim_copy L \<Longrightarrow> serve L c (c\<lparr>ec_hold := take n (ec_in c), ec_in := drop n (ec_in c)\<rparr>)"
| serve_write: "ec_accepted c \<Longrightarrow> \<not> ec_closed c \<Longrightarrow> 0 < n \<Longrightarrow> n \<le> length (ec_hold c) \<Longrightarrow>
     length (ec_out c) + n \<le> lim_out L \<Longrightarrow>
     serve L c (c\<lparr>ec_out := ec_out c @ take n (ec_hold c), ec_hold := drop n (ec_hold c)\<rparr>)"
| serve_end: "ec_accepted c \<Longrightarrow> \<not> ec_closed c \<Longrightarrow> ec_hold c = [] \<Longrightarrow> ec_in c = [] \<Longrightarrow> ec_eof c \<Longrightarrow>
     serve L c (c\<lparr>ec_closed := True\<rparr>)"
| serve_error: "ec_accepted c \<Longrightarrow> \<not> ec_closed c \<Longrightarrow> ec_eof c \<Longrightarrow>
     serve L c (c\<lparr>ec_closed := True, ec_hold := [], ec_in := []\<rparr>)"

text \<open>What a client does with its end of the connection.\<close>

inductive client_write :: "limits \<Rightarrow> bytes \<Rightarrow> echo_conn \<Rightarrow> echo_conn \<Rightarrow> bool" for L where
  client_write: "\<not> ec_closed c \<Longrightarrow> \<not> ec_eof c \<Longrightarrow> bs \<noteq> [] \<Longrightarrow> length (ec_in c) + length bs \<le> lim_in L \<Longrightarrow>
     client_write L bs c (c\<lparr>ec_in := ec_in c @ bs, ec_sent := ec_sent c @ bs\<rparr>)"

inductive client_read :: "nat \<Rightarrow> echo_conn \<Rightarrow> echo_conn \<Rightarrow> bool" where
  client_read: "0 < n \<Longrightarrow> n \<le> length (ec_out c) \<Longrightarrow> \<not> ec_eof c \<Longrightarrow>
     client_read n c (c\<lparr>ec_back := ec_back c @ take n (ec_out c), ec_out := drop n (ec_out c)\<rparr>)"

inductive_cases serveE: "serve L c d"
inductive_cases client_writeE: "client_write L bs c d"
inductive_cases client_readE: "client_read n c d"

text \<open>Nothing is lost, reordered or made up.\<close>

definition conn_ok :: "limits \<Rightarrow> echo_conn \<Rightarrow> bool" where
  "conn_ok L c \<longleftrightarrow> prefix (ec_back c @ ec_out c) (ec_sent c) \<and>
     (\<not> ec_closed c \<longrightarrow> ec_sent c = ec_back c @ ec_out c @ ec_hold c @ ec_in c) \<and>
     length (ec_in c) \<le> lim_in L \<and> length (ec_hold c) \<le> lim_copy L \<and> length (ec_out c) \<le> lim_out L"

lemma new_conn_ok: "conn_ok L new_conn"
  by (simp add: conn_ok_def new_conn_def)

lemma prefix_take: "prefix (take n ys) (ys @ zs)"
  by (metis append.assoc append_take_drop_id prefixI)

lemma serve_ok: "serve L c d \<Longrightarrow> conn_ok L c \<Longrightarrow> conn_ok L d"
  by (erule serveE) (auto simp: conn_ok_def intro: prefix_take)

lemma client_write_ok: "client_write L bs c d \<Longrightarrow> conn_ok L c \<Longrightarrow> conn_ok L d"
  by (erule client_writeE) (auto simp: conn_ok_def)

lemma client_read_ok: "client_read n c d \<Longrightarrow> conn_ok L c \<Longrightarrow> conn_ok L d"
  by (erule client_readE) (auto simp: conn_ok_def)

section \<open>The server\<close>

text \<open>
  The listener, its cancellation and the connections made so far. A connection is made with the
  listener and accepted by the loop, which ends when the listener is closed.
\<close>

record echo_state =
  es_listening :: bool
  es_cancelled :: bool
  es_conns :: "echo_conn list"

definition echo_start :: echo_state where
  "echo_start = \<lparr>es_listening = True, es_cancelled = False, es_conns = []\<rparr>"

inductive echo_step :: "limits \<Rightarrow> echo_state \<Rightarrow> echo_state \<Rightarrow> bool" for L where
  echo_connect: "es_listening s \<Longrightarrow> echo_step L s (s\<lparr>es_conns := es_conns s @ [new_conn]\<rparr>)"
| echo_accept: "es_listening s \<Longrightarrow> i < length (es_conns s) \<Longrightarrow> \<not> ec_accepted (es_conns s ! i) \<Longrightarrow>
     echo_step L s (s\<lparr>es_conns := (es_conns s)[i := (es_conns s ! i)\<lparr>ec_accepted := True\<rparr>]\<rparr>)"
| echo_cancel: "echo_step L s (s\<lparr>es_cancelled := True\<rparr>)"
| echo_close: "es_cancelled s \<Longrightarrow> echo_step L s (s\<lparr>es_listening := False\<rparr>)"
| echo_serve: "i < length (es_conns s) \<Longrightarrow> serve L (es_conns s ! i) c \<Longrightarrow>
     echo_step L s (s\<lparr>es_conns := (es_conns s)[i := c]\<rparr>)"
| echo_client_write: "i < length (es_conns s) \<Longrightarrow> client_write L bs (es_conns s ! i) c \<Longrightarrow>
     echo_step L s (s\<lparr>es_conns := (es_conns s)[i := c]\<rparr>)"
| echo_client_read: "i < length (es_conns s) \<Longrightarrow> client_read n (es_conns s ! i) c \<Longrightarrow>
     echo_step L s (s\<lparr>es_conns := (es_conns s)[i := c]\<rparr>)"
| echo_client_close: "i < length (es_conns s) \<Longrightarrow>
     echo_step L s (s\<lparr>es_conns := (es_conns s)[i := (es_conns s ! i)\<lparr>ec_eof := True\<rparr>]\<rparr>)"

inductive_cases echo_stepE: "echo_step L s t"

abbreviation echo_reachable :: "limits \<Rightarrow> echo_state \<Rightarrow> bool" where
  "echo_reachable L s \<equiv> (echo_step L)\<^sup>*\<^sup>* echo_start s"

definition echo_ok :: "limits \<Rightarrow> echo_state \<Rightarrow> bool" where
  "echo_ok L s \<longleftrightarrow> (\<forall>c \<in> set (es_conns s). conn_ok L c) \<and> (\<not> es_listening s \<longrightarrow> es_cancelled s)"

lemma echo_ok_update:
  "echo_ok L s \<Longrightarrow> conn_ok L c \<Longrightarrow> echo_ok L (s\<lparr>es_conns := (es_conns s)[i := c]\<rparr>)"
  by (auto simp: echo_ok_def dest: set_update_subset_insert [THEN subsetD])

lemma conn_ok_flags [simp]:
  "conn_ok L (c\<lparr>ec_accepted := b\<rparr>) = conn_ok L c" "conn_ok L (c\<lparr>ec_eof := b\<rparr>) = conn_ok L c"
  by (simp_all add: conn_ok_def)

lemma echo_step_ok: "echo_step L s t \<Longrightarrow> echo_ok L s \<Longrightarrow> echo_ok L t"
proof -
  assume s: "echo_ok L s"
  then have c: "conn_ok L (es_conns s ! i)" if "i < length (es_conns s)" for i
    using that by (simp add: echo_ok_def)
  assume "echo_step L s t"
  then show "echo_ok L t"
  proof cases
    case echo_connect
    with s show ?thesis by (simp add: echo_ok_def new_conn_ok)
  next
    case echo_cancel
    with s show ?thesis by (simp add: echo_ok_def)
  next
    case echo_close
    with s show ?thesis by (simp add: echo_ok_def)
  qed (use s c in \<open>auto intro!: echo_ok_update intro: serve_ok client_write_ok client_read_ok\<close>)
qed

lemma echo_start_ok: "echo_ok L echo_start"
  by (simp add: echo_ok_def echo_start_def)

lemma echo_reachable_ok: "echo_reachable L s \<Longrightarrow> echo_ok L s"
  by (induction rule: rtranclp_induct) (auto intro: echo_start_ok echo_step_ok)

section \<open>The stream of the guest\<close>

text \<open>
  The second half of \<open>measureNet\<close>: one goroutine writes what is left of the blocks, another one,
  if it is there, empties the connection.
\<close>

record stream =
  st_left :: nat
  st_conn :: echo_conn

definition stream_start :: "nat \<Rightarrow> stream" where
  "stream_start n = \<lparr>st_left = n, st_conn = new_conn\<lparr>ec_accepted := True\<rparr>\<rparr>"

inductive stream_step :: "limits \<Rightarrow> bool \<Rightarrow> stream \<Rightarrow> stream \<Rightarrow> bool" for L drained where
  stream_write: "client_write L (replicate n nul) (st_conn s) c \<Longrightarrow> n \<le> st_left s \<Longrightarrow>
     stream_step L drained s (s\<lparr>st_left := st_left s - n, st_conn := c\<rparr>)"
| stream_serve: "serve L (st_conn s) c \<Longrightarrow> stream_step L drained s (s\<lparr>st_conn := c\<rparr>)"
| stream_drain: "drained \<Longrightarrow> client_read n (st_conn s) c \<Longrightarrow> stream_step L drained s (s\<lparr>st_conn := c\<rparr>)"

text \<open>Every byte has three moves to make after it is written.\<close>

definition stream_work :: "stream \<Rightarrow> nat" where
  "stream_work s = 4 * st_left s + 3 * length (ec_in (st_conn s)) + 2 * length (ec_hold (st_conn s)) +
     length (ec_out (st_conn s))"

definition stream_ok :: "limits \<Rightarrow> nat \<Rightarrow> stream \<Rightarrow> bool" where
  "stream_ok L m s \<longleftrightarrow> conn_ok L (st_conn s) \<and> ec_accepted (st_conn s) \<and> \<not> ec_closed (st_conn s) \<and>
     \<not> ec_eof (st_conn s) \<and> st_left s + length (ec_sent (st_conn s)) = m"

lemma stream_start_ok: "stream_ok L n (stream_start n)"
  by (simp add: stream_ok_def stream_start_def new_conn_ok) (simp add: new_conn_def)

lemma stream_step_ok: "stream_ok L m s \<Longrightarrow> stream_step L d s t \<Longrightarrow> stream_ok L m t"
proof -
  assume s: "stream_ok L m s"
  assume "stream_step L d s t"
  then show "stream_ok L m t"
  proof cases
    case (stream_write n c)
    then have "conn_ok L c" using s client_write_ok by (simp add: stream_ok_def)
    with stream_write s show ?thesis by (auto simp: stream_ok_def elim!: client_writeE)
  next
    case (stream_serve c)
    then have "conn_ok L c" using s serve_ok by (simp add: stream_ok_def)
    with stream_serve s show ?thesis by (auto simp: stream_ok_def elim!: serveE)
  next
    case (stream_drain n c)
    then have "conn_ok L c" using s client_read_ok by (simp add: stream_ok_def)
    with stream_drain s show ?thesis by (auto simp: stream_ok_def elim!: client_readE)
  qed
qed

interpretation str: measured_steps "stream_step L d" stream_work "stream_ok L m" for L d m
proof
  show "stream_ok L m t" if "stream_ok L m s" "stream_step L d s t" for s t
    using that by (rule stream_step_ok)
  show "stream_work t < stream_work s" if "stream_ok L m s" "stream_step L d s t" for s t
    using that(2,1) by cases
      (auto simp: stream_work_def stream_ok_def elim!: serveE client_writeE client_readE)
qed

text \<open>With the goroutine that empties the connection, a run only stops when everything came back.\<close>

definition open_limits :: "limits \<Rightarrow> bool" where
  "open_limits L \<longleftrightarrow> 0 < lim_in L \<and> 0 < lim_out L \<and> 0 < lim_copy L"

lemma stream_progress:
  assumes "stream_ok L m s" and "open_limits L" and "\<not> Ex (stream_step L True s)"
  shows "st_left s = 0" and "ec_in (st_conn s) = []" and "ec_hold (st_conn s) = []" and "ec_out (st_conn s) = []"
proof -
  let ?c = "st_conn s"
  have c: "ec_accepted ?c" "\<not> ec_closed ?c" "\<not> ec_eof ?c" using assms(1) by (simp_all add: stream_ok_def)
  show out: "ec_out ?c = []"
    using assms(3) stream_drain [OF _ client_read [of 1 ?c]] c by (cases "ec_out ?c") auto
  show hold: "ec_hold ?c = []"
    using assms(2,3) stream_serve [OF serve_write [of ?c 1]] c out by (cases "ec_hold ?c") (auto simp: open_limits_def Suc_le_eq)
  show inp: "ec_in ?c = []"
    using assms(2,3) stream_serve [OF serve_read [of ?c 1]] c hold by (cases "ec_in ?c") (auto simp: open_limits_def Suc_le_eq)
  show "st_left s = 0"
  proof (rule ccontr)
    assume "st_left s \<noteq> 0"
    then have "stream_step L True s (s\<lparr>st_left := st_left s - 1,
        st_conn := ?c\<lparr>ec_in := ec_in ?c @ replicate 1 nul, ec_sent := ec_sent ?c @ replicate 1 nul\<rparr>\<rparr>)"
      using c inp assms(2) by (intro stream_write client_write) (simp_all add: open_limits_def)
    with assms(3) show False by blast
  qed
qed

lemma stream_completes:
  assumes "open_limits L" and "(stream_step L True)\<^sup>*\<^sup>* (stream_start m) s" and "\<not> Ex (stream_step L True s)"
  shows "st_left s = 0 \<and> ec_back (st_conn s) = ec_sent (st_conn s) \<and> length (ec_sent (st_conn s)) = m"
proof -
  have s: "stream_ok L m s" using str.inv_reachable [OF assms(2) stream_start_ok] .
  then have "ec_sent (st_conn s) = ec_back (st_conn s) @ ec_out (st_conn s) @ ec_hold (st_conn s) @ ec_in (st_conn s)"
    "st_left s + length (ec_sent (st_conn s)) = m" by (auto simp: stream_ok_def conn_ok_def)
  with stream_progress [OF s assms(1,3)] show ?thesis by simp
qed

lemma stream_bounded: "(stream_step L True ^^ n) (stream_start m) s \<Longrightarrow> n \<le> 4 * m"
  using str.run_length [OF _ stream_start_ok, of n L True m s]
  by (simp add: stream_work_def stream_start_def new_conn_def)

text \<open>Without it, a stream that is longer than what the buffers hold stops before its end.\<close>

lemma undrained_back: "(stream_step L False)\<^sup>*\<^sup>* s t \<Longrightarrow> ec_back (st_conn t) = ec_back (st_conn s)"
proof (induction rule: rtranclp_induct)
  case (step t u)
  then show ?case by (auto elim!: stream_step.cases serveE client_writeE)
qed simp

lemma undrained_stops:
  assumes "lim_in L + lim_copy L + lim_out L < m"
  shows "\<exists>s. (stream_step L False)\<^sup>*\<^sup>* (stream_start m) s \<and> \<not> Ex (stream_step L False s) \<and> 0 < st_left s"
proof -
  obtain s where s: "(stream_step L False)\<^sup>*\<^sup>* (stream_start m) s" "\<not> Ex (stream_step L False s)"
    using str.some_run_ends [OF stream_start_ok] by blast
  have "stream_ok L m s" using str.inv_reachable [OF s(1) stream_start_ok] .
  moreover have "ec_back (st_conn s) = []"
    using undrained_back [OF s(1)] by (simp add: stream_start_def new_conn_def)
  ultimately have "st_left s + (length (ec_out (st_conn s)) + length (ec_hold (st_conn s)) + length (ec_in (st_conn s))) = m"
    "length (ec_out (st_conn s)) + length (ec_hold (st_conn s)) + length (ec_in (st_conn s)) \<le> lim_in L + lim_copy L + lim_out L"
    by (auto simp: stream_ok_def conn_ok_def)
  with assms s show ?thesis by (metis add_less_same_cancel2 leD less_nat_zero_code neq0_conv add_0)
qed

end
