(* ===== verification/Guest_Console.thy ===== *)
theory Guest_Console
  imports Guest_Spec
begin

text \<open>
  The guest and the host composed: what \<open>runGuest\<close> prints is the console that \<open>bootOne\<close> reads.
\<close>

section \<open>Lines of a longer text\<close>

lemma split_on_sublist: "l \<in> set (split_on x s) \<Longrightarrow> sublist l s"
proof (induction s arbitrary: l)
  case (Cons c s)
  obtain v vs where v: "split_on x s = v # vs"
    using split_on_nonempty [of x s] by (cases "split_on x s") auto
  then have "prefix v s" using join_split_on [of x s] by (cases vs) (auto simp: prefix_def)
  with Cons v show ?case by (auto simp: sublist_Cons_right split: if_splits)
qed simp

lemma sublist_drop_cr: "sublist (drop_cr l) l"
  by (auto simp: drop_cr_def prefixeq_butlast intro: prefix_imp_sublist)

lemma scan_raw_mem: "l \<in> set (fst (scan_raw limit ls)) \<Longrightarrow> \<exists>k \<in> set ls. l = drop_cr k"
  by (induction limit ls rule: scan_raw.induct) (auto split: if_splits prod.splits)

lemma contains_trans: "contains l p \<Longrightarrow> sublist l t \<Longrightarrow> contains t p"
  unfolding contains_def by (rule sublist_order.order_trans)

lemma scan_lines_contains:
  assumes "l \<in> set (fst (scan_lines limit s))" and "contains l p"
  shows "contains s p"
proof -
  obtain k where k: "k \<in> set (split_on newline s)" "l = drop_cr k"
    using scan_raw_mem [of l limit "split_on newline s"] assms(1) unfolding scan_lines_def by blast
  then have "sublist l s" using split_on_sublist sublist_drop_cr by (metis sublist_order.order_trans)
  with assms(2) show ?thesis by (rule contains_trans)
qed

text \<open>A text of whole lines, none of them too long, is scanned before what follows.\<close>

lemma length_split_on: "l \<in> set (split_on x s) \<Longrightarrow> length l \<le> length s"
  by (rule sublist_length_le) (rule split_on_sublist)

lemma split_on_lines: "split_on x (a @ x # b) = split_on x a @ split_on x b"
  by (induction a) (auto simp: hd_append tl_append split: list.split)

lemma scan_raw_append:
  assumes "\<forall>l \<in> set ls. length l < limit" and "ms \<noteq> []"
  shows "fst (scan_raw limit (ls @ ms)) = map drop_cr ls @ fst (scan_raw limit ms)"
  using assms
proof (induction ls)
  case (Cons l ls)
  then obtain k ks where "ls @ ms = k # ks" by (cases "ls @ ms") auto
  with Cons show ?case by (simp split: prod.split) (metis fst_conv)
qed simp

lemma scan_lines_append:
  assumes "length a < limit"
  shows "fst (scan_lines limit (a @ newline # b)) = map drop_cr (split_on newline a) @ fst (scan_lines limit b)"
proof -
  have "\<forall>l \<in> set (split_on newline a). length l < limit" using assms length_split_on by fastforce
  then show ?thesis
    unfolding scan_lines_def split_on_lines by (intro scan_raw_append) simp_all
qed

section \<open>What the guest prints\<close>

fun stdout_text :: "event \<Rightarrow> string" where
  "stdout_text (EvStdout s) = s"
| "stdout_text _ = []"

definition stdout_of :: "hist \<Rightarrow> string" where
  "stdout_of h = concat (map stdout_text h)"

lemma stdout_of_append [simp]: "stdout_of (h @ h') = stdout_of h @ stdout_of h'" "stdout_of [] = []"
  "stdout_of (ev # h) = stdout_text ev @ stdout_of h"
  by (simp_all add: stdout_of_def)

text \<open>Whole lines, every time.\<close>

definition whole_lines :: "string \<Rightarrow> bool" where
  "whole_lines s \<longleftrightarrow> s = [] \<or> last s = newline"

fun line_event :: "event \<Rightarrow> bool" where
  "line_event (EvStdout s) = whole_lines s"
| "line_event _ = True"

lemma whole_lines_append: "whole_lines a \<Longrightarrow> whole_lines b \<Longrightarrow> whole_lines (a @ b)"
  by (cases "b = []") (auto simp: whole_lines_def)

lemma stdout_whole_lines: "list_all line_event h \<Longrightarrow> whole_lines (stdout_of h)"
proof (induction h)
  case Nil
  then show ?case by (simp add: whole_lines_def)
next
  case (Cons ev h)
  then have "whole_lines (stdout_text ev)" by (cases ev) (simp_all add: whole_lines_def)
  with Cons show ?case by (simp add: whole_lines_append)
qed

lemma emits_guestLogf [emits_intros]: "emits line_event (guestLogf s)"
  unfolding guestLogf_def by (intro emits_intros) (simp add: whole_lines_def)

lemma emits_until_error [emits_intros]: "(\<And>x. emits ok (body x)) \<Longrightarrow> emits ok (until_error xs body)"
  by (induction xs) (auto intro!: emits_intros)

lemma emits_dial_loop [emits_intros]: "emits line_event (dial_loop E n addr deadline)"
  unfolding go_dial_def go_now_def
  by (induction n) (auto simp: go_dial_def go_now_def intro!: emits_intros)

lemma emits_measureNet [emits_intros]: "emits line_event (measureNet E host port)"
  unfolding measureNet_def measure_conn_def ping_def go_send_def go_receive_def go_now_def
  by (intro emits_intros) simp_all

lemma emits_configure [emits_intros]: "emits line_event (configureGuestNet E iface a m)"
  unfolding configureGuestNet_def set_ip_def set_up_def go_socket_def ifreq_def
  by (intro emits_intros) simp_all

lemma emits_readGuest [emits_intros]:
  "emits line_event (readGuestTrim E p)" "emits line_event (readUptime E)" "emits line_event (memTotalKB E)"
  unfolding readGuestTrim_def readUptime_def memTotalKB_def readGuestFile_def scan_file_def
  by (intro emits_intros; simp)+

lemma emits_parts [emits_intros]:
  "emits line_event (mount_all E rep)" "emits line_event (identify E rep)" "emits line_event (find_virtio E rep)"
  "emits line_event (measure_cpu E rep)" "emits line_event (measure_disk E gs rep)"
  "emits line_event (measure_network E gs rep)"
  unfolding mount_all_def identify_def find_virtio_def driver_of_def measure_cpu_def measureClockRead_def
    measureHash_def measureMemWrite_def measure_disk_def measureDisk_def measure_network_def go_now_def go_write_def Let_def
  by (intro emits_intros; simp)+

lemma emits_runGuest: "emits line_event (runGuest E)"
  unfolding runGuest_def finish_guest_def Let_def by (intro emits_intros) (simp_all add: whole_lines_def)

text \<open>Before its report the guest prints whole lines; after it, nothing.\<close>

lemma guest_output:
  assumes "result_of (runGuest E) w = Some rep" and "w_trace w = []"
  obtains logged where "stdout_of (w_trace (exec (runGuest E) w)) = logged @ guestReportPrefix @ marshal_report rep @ [newline]"
    and "whole_lines logged"
proof -
  obtain h where h: "w_trace (exec (runGuest E) w) = h @ [EvStdout (guestReportPrefix @ marshal_report rep @ [newline]),
      EvSync 1, EvSleep 200000000, EvReboot]"
    using runGuest_reports [OF assms(1)] by blast
  obtain evs where "list_all line_event evs" "w_trace (exec (runGuest E) w) = w_trace w @ evs"
    by (rule emitsD [OF emits_runGuest])
  then have "list_all line_event h" using h assms(2) by auto
  then have "whole_lines (stdout_of h)" by (rule stdout_whole_lines)
  with h show thesis by (intro that [of "stdout_of h"]) simp_all
qed

section \<open>The report is one line\<close>

text \<open>The compact encoding of a value has no line end in it.\<close>

lemma utf8_take_high:
  assumes "x \<in> set (take (utf8_len (c # cs)) (c # cs))" and c: "0x80 \<le> byte c"
  shows "0x80 \<le> byte x"
proof -
  define n where "n = utf8_need (byte c)"
  have "n \<noteq> 1" using c by (simp add: n_def utf8_need_def)
  have u: "utf8_len (c # cs) = (if n \<le> 1 then n else if length cs < n - 1 then 0
      else if second_ok (byte c) (byte (hd cs)) \<and> list_all is_cont (take (n - 2) (tl cs)) then n else 0)"
    by (simp add: utf8_len_def n_def Let_def)
  moreover have "utf8_len (c # cs) \<noteq> 0" using assms(1) by (metis empty_iff list.set(1) take0)
  ultimately have n: "2 \<le> n" "n - 1 \<le> length cs" "second_ok (byte c) (byte (hd cs))"
    "list_all is_cont (take (n - 2) (tl cs))" using \<open>n \<noteq> 1\<close> by (auto split: if_splits)
  then have l: "utf8_len (c # cs) = n" unfolding u by simp
  from n(1,2) obtain d ds where d: "cs = d # ds" by (cases cs) auto
  obtain k where k: "n = Suc (Suc k)" using n(1) le_Suc_ex [of 2 n] by auto
  have "x = c \<or> x = d \<or> x \<in> set (take k ds)" using assms(1) unfolding l by (simp add: k d)
  moreover have "0x80 \<le> byte d" using n(3) by (simp add: d second_ok_def split: if_splits)
  ultimately show ?thesis using c n(4) by (auto simp: k d list_all_iff is_cont_def)
qed

lemma newline_lower_digit: "newline \<noteq> lower_digit (r mod 16)"
proof
  assume "newline = lower_digit (r mod 16)"
  then have "byte newline = byte (lower_digit (r mod 16))" by simp
  then show False using of_char_lower_digit [of "r mod 16"] by (simp split: if_splits)
qed

lemma newline_unicode_escape: "newline \<notin> set (unicode_escape r)"
  by (simp add: unicode_escape_def newline_lower_digit newline_lower_digit [of "_ div _"])

lemma newline_escape_ascii: "newline \<notin> set (escape_ascii c)"
  using newline_unicode_escape by (auto simp: escape_ascii_def)

lemma newline_json_escape: "newline \<notin> set (json_escape s)"
proof (induction s rule: json_escape.induct)
  case (1 s)
  show ?case
  proof (cases s)
    case Nil
    then show ?thesis by (subst json_escape.simps) simp
  next
    case (Cons c cs)
    have "newline \<notin> set (take (utf8_len s) s)" if "\<not> byte c < 0x80"
      using utf8_take_high [of newline c cs] that Cons by auto
    with 1 Cons show ?thesis
      by (subst json_escape.simps) (auto simp: newline_escape_ascii newline_unicode_escape)
  qed
qed

lemma newline_dec [simp]: "newline \<notin> set (dec n)"
  using dec_digits_mem [of newline n] by (auto simp: is_dec_digit_iff)

lemma newline_json_float: "json_float x = Some s \<Longrightarrow> newline \<notin> set s"
proof -
  have t: "newline \<notin> set (trim_right_char c s)" if "newline \<notin> set s" for c s
    using that by (auto simp: trim_right_char_def dest: set_dropWhileD)
  have "newline \<notin> set (layout_e (trim_zeros d))" "newline \<notin> set (layout_f (trim_zeros d))" for d
    by (auto simp: layout_e_def layout_f_def trim_zeros_def pad_left_def Let_def split: prod.split
        dest!: in_set_takeD in_set_dropD dest: t [OF newline_dec, THEN notE])
  then show "json_float x = Some s \<Longrightarrow> newline \<notin> set s"
    by (auto simp: json_float_def json_mag_def Let_def split: f64.splits if_splits)
qed

lemma newline_join: "newline \<notin> set sep \<Longrightarrow> \<forall>x \<in> set xs. newline \<notin> set x \<Longrightarrow> newline \<notin> set (join sep xs)"
  by (induction sep xs rule: join.induct) auto

lemma newline_bracketed:
  "newline \<noteq> a \<Longrightarrow> newline \<noteq> b \<Longrightarrow> \<forall>x \<in> set xs. newline \<notin> set x \<Longrightarrow> newline \<notin> set (bracketed compact d a b xs)"
  using newline_join [of "'',''" xs] by (simp add: bracketed_def compact_def)

lemma those_mem: "those xs = Some ys \<Longrightarrow> y \<in> set ys \<Longrightarrow> Some y \<in> set xs"
  by (induction xs arbitrary: ys) (auto split: option.splits)

lemma newline_quote: "newline \<notin> set (json_quote s)"
  by (simp add: json_quote_def newline_json_escape)

lemma newline_encode:
  shows "encode L d a = Some s \<Longrightarrow> L = compact \<Longrightarrow> newline \<notin> set s"
    and "encode_members L d kvs = Some s \<Longrightarrow> L = compact \<Longrightarrow> newline \<notin> set s"
proof (induction L d a and L d kvs arbitrary: s and s rule: encode_encode_members.induct)
  case (6 L d xs)
  from "6.prems" obtain ys where ys: "those (map (encode compact (Suc d)) xs) = Some ys"
    "s = bracketed compact d CHR ''['' CHR '']'' ys" by auto
  have "\<forall>y \<in> set ys. newline \<notin> set y" using those_mem [OF ys(1)] 6 by fastforce
  then show ?case unfolding ys(2) by (intro newline_bracketed) simp_all
next
  case (9 L d kvs)
  let ?f = "\<lambda>(k, v). map_option (\<lambda>s. json_quote k @ lay_colon compact @ s) (encode compact (Suc d) v)"
  from "9.prems" obtain ys where ys: "those (map ?f kvs) = Some ys"
    "s = bracketed compact d CHR ''{'' CHR ''}'' ys" by auto
  have "newline \<notin> set y" if y: "y \<in> set ys" for y
  proof -
    obtain k v t where "(k, v) \<in> set kvs" "encode compact (Suc d) v = Some t" "y = json_quote k @ lay_colon compact @ t"
      using those_mem [OF ys(1) y] by (force simp: eq_commute [of "Some y"])
    moreover have "newline \<notin> set t" using calculation(1,2) 9 by blast
    ultimately show ?thesis by (simp add: newline_quote compact_def)
  qed
  then show ?case unfolding ys(2) by (intro newline_bracketed) simp_all
qed (auto simp: newline_quote newline_json_float dec_int_def)

section \<open>What the host reads\<close>

text \<open>The encoding of a report has no line end in it.\<close>

lemma scan_after_lines:
  assumes "whole_lines a" and "length a < limit"
  shows "\<exists>ls. fst (scan_lines limit (a @ b)) = ls @ fst (scan_lines limit b) \<and> (\<forall>l \<in> set ls. sublist l a)"
proof (cases "a = []")
  case False
  then obtain c where a: "a = c @ [newline]" using assms(1) by (metis append_butlast_last_id whole_lines_def)
  then have "fst (scan_lines limit (a @ b)) = map drop_cr (split_on newline c) @ fst (scan_lines limit b)"
    using scan_lines_append [of c limit b] assms(2) by simp
  moreover have "sublist (drop_cr l) a" if "l \<in> set (split_on newline c)" for l
    using split_on_sublist [OF that] sublist_drop_cr a by (metis sublist_order.order_trans sublist_append_rightI)
  ultimately show ?thesis by (intro exI [of _ "map drop_cr (split_on newline c)"]) auto
qed simp

lemma scan_report_line:
  assumes "newline \<notin> set l" and "l \<noteq> []" and "last l \<noteq> CHR 0x0D" and "length l < limit"
  shows "fst (scan_lines limit (l @ newline # b)) = l # fst (scan_lines limit b)"
  using scan_lines_append [OF assms(4)] assms(1-3) by (simp add: split_on_no_sep drop_cr_def)

lemma marshal_line:
  assumes "finite_report g"
  shows "newline \<notin> set (marshal_report g)" and "\<exists>t. marshal_report g = CHR ''{'' # t @ [CHR ''}'']"
proof -
  obtain s where s: "encode compact 0 (AObj (guest_fields g)) = Some s"
    by (rule finite_report_encode [OF assms])
  have m: "marshal_report g = s" unfolding marshal_report_def s by simp
  show "newline \<notin> set (marshal_report g)" unfolding m using newline_encode(1) [OF s] by simp
  show "\<exists>t. marshal_report g = CHR ''{'' # t @ [CHR ''}'']" unfolding m using encode_object_braces [OF s] .
qed

lemma contains_append: "contains a p \<Longrightarrow> contains (a @ b) p"
  by (erule contains_trans) simp

text \<open>
  A console of whole lines, a report and anything else: the host has that report, unless the
  other lines carry the prefix themselves.
\<close>

lemma console_of_report:
  assumes "finite_report g" and "report_ok g" and "whole_lines a" and "length a < big_token_max"
    and "length (guestReportPrefix @ marshal_report g) < big_token_max"
    and "\<not> contains a guestReportPrefix" and "\<not> contains b guestReportPrefix"
  shows "snd (result_of (read_console E i (fst (scan_lines big_token_max
      (a @ guestReportPrefix @ marshal_report g @ newline # b))) (new_outcome i)) w) =
    (new_outcome i)\<lparr>vo_Guest := Some g, vo_BootMS := f_mul (gr_UptimeAtStart g) (f_of_int 1000)\<rparr>"
proof -
  let ?l = "guestReportPrefix @ marshal_report g"
  obtain ls where ls: "fst (scan_lines big_token_max (a @ (?l @ newline # b))) = ls @ fst (scan_lines big_token_max (?l @ newline # b))"
    "\<forall>l \<in> set ls. sublist l a"
    using scan_after_lines [OF assms(3,4)] by blast
  have "newline \<notin> set guestReportPrefix" "guestReportPrefix \<noteq> []" by (simp_all add: guestReportPrefix_def)
  moreover have "last ?l \<noteq> CHR 0x0D" using marshal_line(2) [OF assms(1)] by auto
  ultimately have "fst (scan_lines big_token_max (?l @ newline # b)) = ?l # fst (scan_lines big_token_max b)"
    using marshal_line(1) [OF assms(1)] assms(5) by (intro scan_report_line) simp_all
  with ls(1) have "fst (scan_lines big_token_max (a @ guestReportPrefix @ marshal_report g @ newline # b)) =
      ls @ ?l # fst (scan_lines big_token_max b)" by simp
  moreover have "\<forall>l \<in> set (ls @ fst (scan_lines big_token_max b)). \<not> contains l guestReportPrefix"
    using ls(2) assms(6,7) contains_trans scan_lines_contains by (metis Un_iff set_append)
  ultimately show ?thesis using console_read [OF assms(1,2)] by simp
qed

text \<open>
  From the run of the guest to the outcome on the host: the kernel's own lines before and after
  stand around what the guest prints.
\<close>

lemma guest_reaches_host:
  assumes "result_of (runGuest G) w = Some rep" and "w_trace w = []"
    and "finite_report rep" and "report_ok rep"
    and "stdout_of (w_trace (exec (runGuest G) w)) = logged @ guestReportPrefix @ marshal_report rep @ [newline]"
    and "whole_lines pre" and "length (pre @ logged) < big_token_max"
    and "length (guestReportPrefix @ marshal_report rep) < big_token_max"
    and "\<not> contains (pre @ logged) guestReportPrefix" and "\<not> contains post guestReportPrefix"
  shows "snd (result_of (read_console E i (fst (scan_lines big_token_max
      (pre @ stdout_of (w_trace (exec (runGuest G) w)) @ post))) (new_outcome i)) w') =
    (new_outcome i)\<lparr>vo_Guest := Some rep, vo_BootMS := f_mul (gr_UptimeAtStart rep) (f_of_int 1000)\<rparr>"
proof -
  obtain logged' where "stdout_of (w_trace (exec (runGuest G) w)) = logged' @ guestReportPrefix @ marshal_report rep @ [newline]"
    "whole_lines logged'" by (rule guest_output [OF assms(1,2)])
  with assms(5) have "whole_lines logged" by simp
  with assms(6) have "whole_lines (pre @ logged)" by (rule whole_lines_append)
  from console_of_report [OF assms(3,4) this assms(7-10)] show ?thesis by (simp add: assms(5))
qed

end
