(* ===== verification/Sample_World.thy ===== *)
theory Sample_World
  imports End_To_End Other_Platform Echo Guest_Console
begin

text \<open>
  A concrete environment, at which the properties with hypotheses are applied: a machine with
  \<open>/dev/kvm\<close>, where every call is granted, time passes while the program sleeps and the
  goroutines run one after the other.
\<close>

definition enoent :: os_error where "enoent = OsErr ENOENT ''no such file or directory''"

definition sample_vm :: vm_run where
  "sample_vm = \<lparr>vr_output = [], vr_exit = None, vr_deadline = False, vr_micros = 1500000\<rparr>"

definition sample_device :: device where
  "sample_device = \<lparr>dev_stat = (\<lambda>p. Inr \<lparr>fi_mode = 0x4200000, fi_gid = 0\<rparr>), dev_open = (\<lambda>p b. Inr 5),
     dev_ioctl = (\<lambda>fd r a. Inr 12)\<rparr>"

definition calm :: env where
  "calm = \<lparr>fl_stage = ''preflight'', fl_json = [], fl_verbose = False, fl_offline = True,
     fl_firecracker = ''/fc'', fl_kernel = ''/vmlinux'', fl_cache = ''/cache'', fl_vms = 2, fl_vcpus = 2,
     fl_mem = 512, fl_boot_timeout = 90, fl_boot_args = defaultBootArgs, fl_guest_net = ''172.31.240.0/22'',
     goarch = ''amd64'', geteuid = 0, num_cpu = 2,
     os_getgroups = (\<lambda>h. Inr []), os_stat = (\<lambda>h. dev_stat sample_device), os_open = (\<lambda>h. dev_open sample_device),
     os_read = (\<lambda>h p. ([], None)), os_ioctl = (\<lambda>h. dev_ioctl sample_device), os_syscall = (\<lambda>h n a. Inr 7),
     os_lookpath = (\<lambda>h p. Inl enoent), os_output = (\<lambda>h argv. ([], None)), os_statfs = (\<lambda>h p. Inr 0),
     os_rlimit = (\<lambda>h. Inr (1024, 1024)), os_gunzip = (\<lambda>b. Inl enoent), os_untar = (\<lambda>b. Inl enoent),
     os_executable = Inr ''/self'', os_elf = (\<lambda>h p. Inr []), os_mkdir = (\<lambda>h p. None),
     os_mkdir_temp = (\<lambda>h. Inr ''/tmp/fc''), os_create = (\<lambda>h p. None), os_write = (\<lambda>h p c. None),
     os_truncate = (\<lambda>h p n. None), os_rename = (\<lambda>h p q. None), os_http = (\<lambda>h u. Inl enoent),
     os_listen = (\<lambda>h a. None), os_pipe = (\<lambda>h. None), os_vm = (\<lambda>h argv. Inr sample_vm),
     vm_order = (\<lambda>h n. [0..<n]), vm_mix = concat, json_error = (\<lambda>s. ''unexpected end of JSON input''),
     goos = ''linux'', getpid = 100, os_args = [''fc-preflight''], os_hostname = ''host'',
     os_now = (\<lambda>h. \<lparr>tm_rfc3339 = ''2026-01-01T00:00:00Z'', tm_nano = ''2026-01-01T00:00:00Z''\<rparr>),
     os_clock = (\<lambda>h. sum_list (map slept h)), os_mount = (\<lambda>h s d f. None), os_readdir = (\<lambda>h p. Inr []),
     os_readlink = (\<lambda>h p. Inl enoent), os_socket = (\<lambda>h. Inr 3), os_ifreq = (\<lambda>h fd r b. Inr 0),
     os_dial = (\<lambda>h a. Inr 4), os_send = (\<lambda>h c n. None), os_receive = (\<lambda>h c n. None),
     os_write_at = (\<lambda>h fd o1 n. None), os_sync = (\<lambda>h fd. None), os_read_at = (\<lambda>h fd o1 n. None)\<rparr>"

definition fresh :: world where
  "fresh = \<lparr>w_trace = [], w_report = NewReport ''host'' \<lparr>tm_rfc3339 = [], tm_nano = []\<rparr>\<rparr>"

lemma calm_steady: "steady calm sample_device"
  by (simp add: steady_def calm_def)

lemma calm_schedule: "schedule_ok calm"
  by (simp add: schedule_ok_def calm_def interleaves_concat)

lemma calm_clock: "clock_ok calm"
  by (simp add: clock_ok_def calm_def)

lemma calm_grants: "host_grants calm sample_vm"
  by (simp add: host_grants_def calm_def)

lemma fresh_sel [simp]: "w_trace fresh = []" "tags fresh = []" "results fresh = []"
  by (simp_all add: fresh_def NewReport_def tags_def)

text \<open>A report of a guest whose clock did not move: everything empty or zero.\<close>

lemma f_zero_text: "json_float f_zero = Some ''0''"
  by (simp add: json_float_def json_mag_def)

lemma sample_report: "finite_report empty_report" "report_ok empty_report"
  by (simp add: finite_report_def guest_fields_def empty_report_def f_zero_text map_any_def omit_float_def
      omit_string_def omit_strings_def is_zero_def)
    (simp add: guest_fields_def empty_report_def map_any_def omit_float_def omit_string_def omit_strings_def
      report_ok_def is_zero_def positive_zero_def valid_utf8_ascii min_int64_def max_int64_def)

text \<open>Its line, and a machine that prints that line and nothing else.\<close>

definition plain_json :: "char \<Rightarrow> bool" where
  "plain_json c \<longleftrightarrow> byte c < 0x80 \<and> escape_ascii c = [c]"

lemma json_quote_plain: "list_all plain_json s \<Longrightarrow> json_quote s = dquote # s @ [dquote]"
proof -
  have "list_all plain_json s \<Longrightarrow> json_escape s = s"
    by (induction s) (subst json_escape.simps, simp add: plain_json_def)+
  then show "list_all plain_json s \<Longrightarrow> ?thesis" by (simp add: json_quote_def)
qed

lemma dec_0: "dec 0 = ''0''"
  by (simp add: dec_def digits_of.simps lower_digit_def char_of_def bit_Suc_0_iff)

lemma sample_text:
  "newline \<notin> set (marshal_report empty_report)" "length (marshal_report empty_report) < 500"
  "marshal_report empty_report \<noteq> []" "last (marshal_report empty_report) = CHR ''}''"
  by (simp_all add: marshal_report_def guest_fields_def empty_report_def f_zero_text map_any_def omit_float_def
      omit_string_def omit_strings_def is_zero_def json_quote_plain plain_json_def escape_ascii_def dec_int_def dec_0
      bracketed_def compact_def)

lemma scan_one_line:
  assumes "newline \<notin> set l" and "l \<noteq> []" and "last l \<noteq> CHR 0x0D" and "length l < limit"
  shows "fst (scan_lines limit (l @ [newline])) = [l]"
proof -
  have "split_on newline (l @ newline # []) = [l, []]"
    by (simp only: split_on_append [OF assms(1)] split_on_Nil)
  then show ?thesis using assms(2-4) by (simp add: scan_lines_def drop_cr_def)
qed

definition talking_vm :: vm_run where
  "talking_vm = sample_vm\<lparr>vr_output := (guestReportPrefix @ marshal_report empty_report) @ [newline]\<rparr>"

definition talking :: env where
  "talking = calm\<lparr>os_vm := (\<lambda>h argv. Inr talking_vm)\<rparr>"

lemma talking_grants: "host_grants talking talking_vm"
  by (simp add: host_grants_def talking_def calm_def)

lemma talking_lines:
  "fst (scan_lines big_token_max (vr_output talking_vm)) = [] @ (guestReportPrefix @ marshal_report empty_report) # []"
  using scan_one_line [of "guestReportPrefix @ marshal_report empty_report" big_token_max] sample_text
  by (simp add: talking_vm_def guestReportPrefix_def big_token_max_def)

text \<open>The texts of a configuration are ASCII.\<close>

lemma ascii_ipString: "list_all (\<lambda>c. byte c < 0x80) (ipString v)"
  using plain_ipString [of v] by (simp add: plain_word_def list_all_iff ascii_def)

lemma ascii_dec: "list_all (\<lambda>c. byte c < 0x80) (dec n)"
  using plain_dec [of n] by (simp add: plain_word_def list_all_iff ascii_def)

lemma ascii_hex_pad: "list_all (\<lambda>c. byte c < 0x80) (hex_pad w n)"
proof -
  have "byte (upper_digit d) < 0x80" if "d < 16" for d
    using that by (simp add: of_char_upper_digit)
  moreover have "d < 16" if "d \<in> set (digits_of 16 n)" for d
    using digits_of_less [of 16 d n] that by simp
  ultimately show ?thesis by (auto simp: hex_pad_def Let_def list_all_iff)
qed

lemma sample_config: "any_utf8 (vm_config calm net i ''/vmlinux'' ''/init'' ''/scratch'')"
  by (simp add: vm_config_def boot_args_def calm_def vmGuestIP_def vmHostIP_def vmMAC_def vmTap_def tapPrefix_def
      guestNetmask_def defaultBootArgs_def Let_def valid_utf8_ascii ascii_ipString ascii_dec ascii_hex_pad)

text \<open>Two command lines: none, and one with a range that is not accepted.\<close>

lemma default_flag_values:
  "flag_str default_flags ''stage'' = ''preflight''" "flag_str default_flags ''json'' = []"
  by (simp_all add: flag_str_def default_flags_lookup flag_table_def)

definition bad_net_flags :: flag_values where
  "bad_net_flags = gm_put ''guest-net'' (FStr ''x'') default_flags"

lemma sample_bad_net:
  "parse_flags [''-guest-net=x''] default_flags = Parsed bad_net_flags"
  "resolveGuestNet (flag_str bad_net_flags ''guest-net'') v \<noteq> NetOK net"
proof -
  show "parse_flags [''-guest-net=x''] default_flags = Parsed bad_net_flags"
    by (simp add: flag_arg_def split_flag_def cut_single find_flag_def flag_table_def set_flag_def set_value_def
        bad_net_flags_def)
  have "flag_str bad_net_flags ''guest-net'' = ''x''"
    by (simp add: flag_str_def bad_net_flags_def gm.lookup_put [OF default_flags_ok])
  then show "resolveGuestNet (flag_str bad_net_flags ''guest-net'') v \<noteq> NetOK net"
    by (simp add: resolveGuestNet_def ParseCIDR_def cut_single)
qed

definition sample_settings :: "(string \<times> flag_value) list" where
  "sample_settings = [(''vms'', FInt 8), (''v'', FBool True), (''stage'', FStr ''all''), (''vms'', FInt 2)]"

lemma sample_settings: "list_all setting_ok sample_settings" "(''guest'', FBool True) \<notin> set sample_settings"
  by (simp_all add: sample_settings_def setting_ok_def find_flag_def flag_table_def min_int64_def max_int64_def)

text \<open>A guest whose drivers are bound, and a command line that boots it.\<close>

definition fine_report :: guest_report where
  "fine_report = empty_report\<lparr>gr_VirtioDevices := Some [(''virtio0'', ''virtio_blk''), (''virtio1'', ''virtio_net'')]\<rparr>"

lemma fine_report_ok: "finite_report fine_report" "report_ok fine_report"
  by (simp add: finite_report_def guest_fields_def fine_report_def empty_report_def f_zero_text map_any_def omit_float_def
      omit_string_def omit_strings_def is_zero_def)
    (simp add: guest_fields_def fine_report_def empty_report_def map_any_def omit_float_def omit_string_def omit_strings_def
      report_ok_def is_zero_def positive_zero_def valid_utf8_ascii min_int64_def max_int64_def gm_ok_def)

lemma fine_text:
  "newline \<notin> set (marshal_report fine_report)" "length (marshal_report fine_report) < 600"
  "marshal_report fine_report \<noteq> []" "last (marshal_report fine_report) = CHR ''}''"
  by (simp_all add: marshal_report_def guest_fields_def fine_report_def empty_report_def f_zero_text map_any_def omit_float_def
      omit_string_def omit_strings_def is_zero_def json_quote_plain plain_json_def escape_ascii_def dec_int_def dec_0
      bracketed_def compact_def)

definition fine_vm :: vm_run where
  "fine_vm = sample_vm\<lparr>vr_output := (guestReportPrefix @ marshal_report fine_report) @ [newline]\<rparr>"

lemma fine_vm_reports: "reports fine_vm fine_report"
proof -
  have "fst (scan_lines big_token_max (vr_output fine_vm)) = [] @ (guestReportPrefix @ marshal_report fine_report) # []"
    using scan_one_line [of "guestReportPrefix @ marshal_report fine_report" big_token_max] fine_text
    by (simp add: fine_vm_def guestReportPrefix_def big_token_max_def)
  with fine_report_ok show ?thesis unfolding reports_def by fastforce
qed

definition boot_settings :: "(string \<times> flag_value) list" where
  "boot_settings = [(''stage'', FStr ''boot''), (''firecracker'', FStr ''/fc''), (''kernel'', FStr ''/vmlinux''),
     (''vms'', FInt 2)]"

definition boot_vals :: flag_values where
  "boot_vals = foldl (\<lambda>m (n, v). gm_put n v m) default_flags boot_settings"

definition booting :: env where
  "booting = calm\<lparr>os_vm := (\<lambda>h argv. Inr fine_vm), os_args := ''fc-preflight'' # map setting_arg boot_settings\<rparr>"

lemma boot_settings_ok: "list_all setting_ok boot_settings" "(''guest'', FBool True) \<notin> set boot_settings"
  by (simp_all add: boot_settings_def setting_ok_def find_flag_def flag_table_def min_int64_def max_int64_def)

lemma boot_vals_get: "gm_get boot_vals n =
    (case map_of (rev boot_settings) n of Some v \<Rightarrow> Some v | None \<Rightarrow> map_option fd_default (find_flag n))"
  using gm.lookup_put_all [OF default_flags_ok, of boot_settings n]
  by (simp add: boot_vals_def default_flags_find cong: option.case_cong)

lemma boot_vals_sel:
  "flag_str boot_vals ''stage'' = ''boot''" "flag_str boot_vals ''firecracker'' = ''/fc''"
  "flag_str boot_vals ''kernel'' = ''/vmlinux''" "flag_int boot_vals ''vms'' = 2" "flag_str boot_vals ''json'' = []"
  "flag_str boot_vals ''guest-net'' = ''172.31.240.0/22''"
  by (simp_all add: flag_str_def flag_int_def boot_vals_get boot_settings_def find_flag_def flag_table_def)

lemma booting_args:
  "getpid booting \<noteq> 1" "\<not> hasArg booting ''-guest''" "goos booting = ''linux''"
  "parse_flags (tl (os_args booting)) default_flags = Parsed boot_vals"
proof -
  show "getpid booting \<noteq> 1" "goos booting = ''linux''" by (simp_all add: booting_def calm_def)
  show "\<not> hasArg booting ''-guest''"
    by (rule hasArg_settings [OF _ boot_settings_ok]) (simp add: booting_def)
  show "parse_flags (tl (os_args booting)) default_flags = Parsed boot_vals"
    using parse_flags_settings [OF boot_settings_ok(1), of "[]" default_flags] by (simp add: booting_def boot_vals_def)
qed

lemma booting_host: "boot_ready (with_flags boot_vals booting)" "schedule_ok booting" "host_grants booting fine_vm"
  by (auto simp: boot_ready_def with_flags_def boot_vals_sel booting_def calm_def sample_device_def
      firecrackerArtifacts_def schedule_ok_def host_grants_def interleaves_concat)

lemma fine_report_sel: "drivers fine_report = [''virtio_blk'', ''virtio_net'']" "gr_NetError fine_report = []"
  by (simp_all add: drivers_def fine_report_def empty_report_def)

text \<open>A run of the echo server with one client, whose byte has come back.\<close>

definition sample_limits :: limits where
  "sample_limits = \<lparr>lim_in = 10, lim_out = 10, lim_copy = 10\<rparr>"

definition echoed :: echo_conn where
  "echoed = \<lparr>ec_in = [], ec_hold = [], ec_out = [], ec_accepted = True, ec_closed = False, ec_eof = False,
     ec_sent = ''x'', ec_back = ''x''\<rparr>"

lemma sample_echo:
  "echo_reachable sample_limits \<lparr>es_listening = True, es_cancelled = False, es_conns = [echoed]\<rparr>"
proof -
  let ?s = "\<lambda>c. \<lparr>es_listening = True, es_cancelled = False, es_conns = [c]\<rparr>"
  let ?c = "\<lambda>i h o1 b snt. \<lparr>ec_in = i, ec_hold = h, ec_out = o1, ec_accepted = True, ec_closed = False,
     ec_eof = False, ec_sent = snt, ec_back = b\<rparr>"
  have "echo_reachable sample_limits (?s new_conn)"
    using echo_connect [of echo_start sample_limits] by (auto simp: echo_start_def)
  moreover have "echo_step sample_limits (?s new_conn) (?s (?c [] [] [] [] []))"
    using echo_accept [of "?s new_conn" 0 sample_limits] by (simp add: new_conn_def)
  moreover have "echo_step sample_limits (?s (?c [] [] [] [] [])) (?s (?c ''x'' [] [] [] ''x''))"
    using echo_client_write [of 0 "?s (?c [] [] [] [] [])" sample_limits "''x''"]
      client_write [of "?c [] [] [] [] []" "''x''" sample_limits] by (simp add: sample_limits_def)
  moreover have "echo_step sample_limits (?s (?c ''x'' [] [] [] ''x'')) (?s (?c [] ''x'' [] [] ''x''))"
    using echo_serve [of 0 "?s (?c ''x'' [] [] [] ''x'')" sample_limits]
      serve_read [of "?c ''x'' [] [] [] ''x''" 1 sample_limits] by (simp add: sample_limits_def)
  moreover have "echo_step sample_limits (?s (?c [] ''x'' [] [] ''x'')) (?s (?c [] [] ''x'' [] ''x''))"
    using echo_serve [of 0 "?s (?c [] ''x'' [] [] ''x'')" sample_limits]
      serve_write [of "?c [] ''x'' [] [] ''x''" 1 sample_limits] by (simp add: sample_limits_def)
  moreover have "echo_step sample_limits (?s (?c [] [] ''x'' [] ''x'')) (?s echoed)"
    using echo_client_read [of 0 "?s (?c [] [] ''x'' [] ''x'')" 1]
      client_read [of 1 "?c [] [] ''x'' [] ''x''"] by (simp add: echoed_def)
  ultimately show ?thesis by (meson rtranclp.rtrancl_into_rtrancl)
qed

end
