(* ===== verification/Spec2Isabelle.thy ===== *)
theory Spec2Isabelle
  imports Sample_World
begin

text \<open>
  A verification development of fc-preflight, the command that decides whether a host can run
  Firecracker microVMs: package \<open>main\<close> under \<open>src/\<close>, for Linux.

  The parts of the program. \<open>main.go\<close> dispatches: as process 1 or with \<open>-guest\<close> the program is the
  init of a microVM (\<open>guest_linux.go\<close>); otherwise it runs the preflight (\<open>host_linux.go\<close>,
  \<open>kvm_linux.go\<close>), which only inspects the host, the boot stage (\<open>boot_linux.go\<close>), which packs the
  program itself into an initramfs (\<open>initramfs.go\<close>), boots microVMs and judges what their guests
  print, or both. Every check adds results to the report (\<open>report.go\<close>), whose verdict is the exit code.

  Theories and sources.
  \<open>Fcpf_Prelude\<close> (lists, digits, collections of rules); \<open>Go_Strings\<close>, \<open>Go_Map\<close>, \<open>Go_Float\<close>, \<open>Go_Path\<close>,
  \<open>Json\<close>, \<open>Sha256\<close> (what the sources use of Go's library; a string is a list of bytes, a float an
  IEEE 754 number, an integer of the machine an \<open>int\<close> or a word where it wraps);
  \<open>Json_Roundtrip\<close> (what is encoded is parsed back).
  \<open>Report\<close>: \<open>report.go\<close>. \<open>Os_World\<close>: the effects, below. \<open>Messages\<close>: the literal texts.
  \<open>Host_Parse\<close>, \<open>Host_Cpu\<close>, \<open>Host_Checks\<close>: \<open>host_linux.go\<close>, the parsers and the checks.
  \<open>Kvm\<close>, \<open>Kvm_Spec\<close>: \<open>checkKVM\<close> and its specification. \<open>Preflight\<close>: \<open>runPreflight\<close>.
  \<open>Cpio\<close>: \<open>initramfs.go\<close>. \<open>Guest_Net\<close>: the address plan of \<open>boot_linux.go\<close>.
  \<open>Artifacts\<close>, \<open>Effects\<close>: the pinned artifacts, and relations over events and results.
  \<open>Guest_Report\<close>: both ends of the report line. \<open>Boot\<close>: \<open>bootOne\<close>. \<open>Judge\<close>: \<open>judgeOutcomes\<close> and its
  specification. \<open>Boot_Stage\<close>, \<open>Boot_Safety\<close>: \<open>runBootStage\<close> and what it may do.
  \<open>Guest\<close>, \<open>Guest_Spec\<close>: \<open>guest_linux.go\<close>; \<open>Guest_Console\<close>: from what it prints to what the host
  reads. \<open>Flags\<close>, \<open>Flags_Spec\<close>: the command line of \<open>main.go\<close> and the
  usage text. \<open>Main_Program\<close>, \<open>Main_Spec\<close>: the rest of \<open>main.go\<close> and the JSON report.
  \<open>Echo\<close>: the echo server of \<open>boot_linux.go\<close> and the guest's stream. \<open>Other_Platform\<close>: \<open>unsupported.go\<close>.
  \<open>End_To_End\<close>: the composition. \<open>Tags\<close>: identifiers and statuses. \<open>Sample_World\<close>: the environment of the applications.

  State and effects. A procedure is a computation in the state monad over a \<open>world\<close>: the events
  the program has caused, in order, and the report. The operating system, the network and
  Firecracker are not part of the program: every answer is a field of the record \<open>env\<close>, a function
  of the events so far; the flags, once parsed, are fields of it too. Errors are values; every
  early return is a branch; a deferred release is \<open>with_defer\<close> or \<open>deferring\<close>; a panic is a value of \<open>flow\<close>.

  Step relations. The echo server and the throughput stream are \<open>inductive\<close> step relations over
  bounded socket buffers whose sizes are parameters (\<open>limits\<close>); \<open>measured_steps\<close> is the locale of
  the systems whose runs end, interpreted for the stream (\<open>str\<close>). They stand beside the answers
  \<open>os_send\<close> and \<open>os_receive\<close> that the guest is given in \<open>Guest\<close>.

  Interfaces. \<open>step_relation\<close> (a relation that every construct keeps) is interpreted for the checks
  (\<open>chk\<close>), the events (\<open>em\<close>) and the results (\<open>ad\<close>); \<open>host_check\<close>, the contract of a check, for every
  check and for the preflight; the maps and the archive format have locales of their own.

  What the lemmas show. Refinement: \<open>checkKVM\<close> and \<open>judgeOutcomes\<close> report what their specifications
  say. Round trips: archive, report line, JSON report, configuration, both command
  lines, addresses. Safety: what the preflight and the boot stage do to the host, what is run, what is
  released. Termination: the dial loop of the guest and its stream. Types: the values of the flags.
  Errors: the paths that panic, leak or lose a report, each of them a theorem about the code as it is.

  Bounds and fuel. The archive is read with fuel 7: six entries and the trailer. The JSON parser takes
  fuel \<open>2 * n + 1\<close> for an input of length \<open>n\<close>, shown to be enough for everything that is encoded.
  The dial loop takes fuel 102: at least a tenth of a second passes per round, so the deadline of
  ten seconds is passed before; running out of fuel is \<open>None\<close> and is excluded for a clock that
  advances.

  Concurrency. A goroutine runs against the common state with a mark of its own in the events, so
  its answers may depend on it and on anything the others do; the events of the goroutines are
  interleaved by a parameter, and they finish in an order that is a parameter.

  Not modelled: signals (a terminal); HTTP, gzip, tar and
  ELF parsing (parameters, with the documented shape of their answers); the work between two
  clock readings, which has no effect of its own; the goroutine trace behind a panic message;
  hexadecimal floats in \<open>/proc/uptime\<close> and non-ASCII text under the verb \<open>%q\<close>;
  \<open>probeSyscall\<close> (never called).
\<close>

section \<open>The initramfs archive\<close>

text \<open>C1: the archive that \<open>buildInitramfs\<close> writes, read back by an independent reader of
  the newc format, gives exactly the six entries of the initramfs, in order, numbered from
  one, with their modes, devices and contents, as long as the binary fits a 32-bit size.\<close>

theorem initramfs_roundtrip:
  assumes "length bin < 2 ^ 32"
  shows "read_all newc_read is_trailer 7 (buildInitramfs bin) = Some (numbered 0 (initramfs_entries bin))"
proof -
  have "Suc (length (initramfs_entries bin)) = 7" by (simp add: initramfs_entries_def)
  with cpio_archive_read [OF initramfs_entries_small [OF assms] initramfs_entries_names]
  show ?thesis by (simp only: buildInitramfs_add_all)
qed

theorem initramfs_roundtrip_witness:
  "read_all newc_read is_trailer 7 (buildInitramfs ''ELF'') = Some (numbered 0 (initramfs_entries ''ELF''))"
  by (rule initramfs_roundtrip) simp

section \<open>The guest network\<close>

text \<open>C2: once \<open>resolveGuestNet\<close> accepts a range for the requested number of microVMs, the
  four addresses of every /30 lie in the range without wrapping around, and no two of them,
  in one microVM or in two, are the same.\<close>

theorem guest_addresses_disjoint:
  assumes "resolveGuestNet cidr vms = NetOK base"
    and "int i < vms" and "int j < vms" and "k < 4" and "l < 4"
  shows "(vmBase base i + of_nat k = vmBase base j + of_nat l \<longleftrightarrow> i = j \<and> k = l) \<and>
    unat (vmBase base i + of_nat k) = unat base + 4 * i + k"
  using resolveGuestNet_good [OF assms(1)] good_range_disjoint good_range_address(1) assms(2-5)
  by blast

theorem guest_addresses_disjoint_witness:
  "(vmBase 0xAC1FF000 0 + of_nat 3 = vmBase 0xAC1FF000 1 + of_nat 0 \<longleftrightarrow> (0::nat) = 1 \<and> (3::nat) = 0) \<and>
    unat (vmBase 0xAC1FF000 0 + of_nat 3) = unat (0xAC1FF000 :: 32 word) + 4 * 0 + 3"
proof -
  have "resolveGuestNet ''172.31.240.0/22'' 2 = NetOK 0xAC1FF000"
    by (rule resolveGuestNet_default) simp
  then show ?thesis by (rule guest_addresses_disjoint) simp_all
qed

section \<open>The decision on KVM\<close>

text \<open>C3: for a device that answers the same way each time, \<open>checkKVM\<close> reports exactly the
  identifiers and statuses of the specification \<open>kvm_spec\<close>, in its order, after what was in the
  report: the node, the open (blocked only without root and without permission), the API version,
  the capabilities, the sizes and the creation of a VM and a vCPU.\<close>

theorem kvm_check_refines_spec:
  assumes "steady E d"
  shows "tags (exec (checkKVM E) w) = tags w @ kvm_spec (goarch E) (geteuid E) d"
  by (rule checkKVM_refines [OF assms])

theorem kvm_check_refines_spec_witness:
  "tags (exec (checkKVM calm) fresh) = tags fresh @ kvm_spec (goarch calm) (geteuid calm) sample_device"
  by (rule kvm_check_refines_spec [OF calm_steady])

section \<open>The verdict on the microVMs\<close>

text \<open>C4: however the goroutines interleave and in whatever order they finish, the results of
  several microVMs are the judgement of the outcome of each of them, in the order of their
  numbers: no outcome is lost, duplicated or put in another's place.\<close>

theorem outcomes_independent_of_order:
  assumes "schedule_ok E" and "0 \<le> fl_vms E"
  shows "tags (exec (run_vms E (\<lambda>i. bootOne E net i fcBin kern initramfs workDir)) w) =
    tags w @ judge_spec (vm_outcomes E w (\<lambda>i. bootOne E net i fcBin kern initramfs workDir))"
proof (rule run_vms_tags [OF assms])
  show "vo_Index (result_of (bootOne E net i fcBin kern initramfs workDir) w) = i" for i w
    using bootOne_ok by (simp add: outcome_ok_def)
  show "w_report (exec (bootOne E net i fcBin kern initramfs workDir) w) = w_report w" for i w
    by (rule bootOne_report)
qed

theorem outcomes_independent_of_order_witness:
  "tags (exec (run_vms calm (\<lambda>i. bootOne calm 0xAC1FF000 i ''/fc'' ''/vmlinux'' ''/init'' ''/tmp'')) fresh) =
    tags fresh @ judge_spec (vm_outcomes calm fresh (\<lambda>i. bootOne calm 0xAC1FF000 i ''/fc'' ''/vmlinux'' ''/init'' ''/tmp''))"
  by (rule outcomes_independent_of_order [OF calm_schedule]) (simp add: calm_def)


text \<open>C6: the boot stage stays within a fixed class of events: the only programs it runs are \<open>ip\<close>
  on the taps of its microVMs and the one Firecracker binary on a configuration file, it
  downloads only the pinned artifacts and nothing when offline, and it listens only on the host
  addresses of its microVMs.\<close>

theorem boot_stage_confined:
  assumes "schedule_ok E"
  shows "\<exists>evs. list_all (boot_event E net (nat (fl_vms E))) evs \<and>
    w_trace (exec (runBootStage E net) w) = w_trace w @ evs"
  by (rule emitsD [where w = w, OF emits_runBootStage [OF assms]]) blast

theorem boot_stage_confined_witness:
  "\<exists>evs. list_all (boot_event calm 0xAC1FF000 (nat (fl_vms calm))) evs \<and>
    w_trace (exec (runBootStage calm 0xAC1FF000) fresh) = w_trace fresh @ evs"
  by (rule boot_stage_confined [OF calm_schedule])

section \<open>From the guest to the host\<close>

text \<open>C7: a console that holds, among whole lines of anything that does not carry the prefix, the
  report line of a guest gives the host exactly the report that the guest wrote, field by field,
  and the boot time computed from it: from the bytes of the console through the scanner, the
  prefix, the trimming and the JSON parser, as long as the figures of the report are finite, its
  texts valid and the lines shorter than the buffer of the scanner.\<close>

theorem report_line_roundtrip:
  assumes "finite_report g" and "report_ok g" and "whole_lines a" and "length a < big_token_max"
    and "length (guestReportPrefix @ marshal_report g) < big_token_max"
    and "\<not> contains a guestReportPrefix" and "\<not> contains b guestReportPrefix"
  shows "snd (result_of (read_console E i (fst (scan_lines big_token_max
      (a @ guestReportPrefix @ marshal_report g @ newline # b))) (new_outcome i)) w) =
    (new_outcome i)\<lparr>vo_Guest := Some g, vo_BootMS := f_mul (gr_UptimeAtStart g) (f_of_int 1000)\<rparr>"
  by (rule console_of_report [OF assms])

theorem report_line_roundtrip_witness:
  "vo_Guest (snd (result_of (read_console calm 0 (fst (scan_lines big_token_max
      ((''booting'' @ [newline]) @ guestReportPrefix @ marshal_report fine_report @ newline # ''reset''))) (new_outcome 0)) fresh)) =
    Some fine_report"
proof -
  have "\<not> contains (''booting'' @ [newline]) guestReportPrefix" "\<not> contains ''reset'' guestReportPrefix"
    by (simp_all add: contains_def guestReportPrefix_def sublist_Cons_right)
  moreover have "whole_lines (''booting'' @ [newline])" "length (''booting'' @ [newline]) < big_token_max"
    "length (guestReportPrefix @ marshal_report fine_report) < big_token_max"
    using fine_text(2) by (simp_all add: whole_lines_def big_token_max_def guestReportPrefix_def)
  ultimately show ?thesis by (subst report_line_roundtrip [OF fine_report_ok]) simp_all
qed

text \<open>C8: from the command line to the exit code: with \<open>-stage boot\<close>, a supplied Firecracker and kernel
  and a host that grants what booting asks of it, the program ends with zero when the report on the
  consoles names both virtio drivers and no network error, and with one otherwise, whatever else
  the guest says of its own errors and whatever the exit code of Firecracker is.\<close>

theorem boot_run_verdict:
  assumes "getpid E \<noteq> 1" and "\<not> hasArg E ''-guest''" and "goos E = ''linux''"
    and "parse_flags (tl (os_args E)) default_flags = Parsed vals"
    and "resolveGuestNet (flag_str vals ''guest-net'') (flag_int vals ''vms'') = NetOK net"
    and "boot_ready (with_flags vals E)" and "schedule_ok E" and "host_grants E run" and "reports run g"
    and "flag_str vals ''stage'' = ''boot''" and "flag_str vals ''json'' = []"
  shows "result_of (main E) w = Some
    (if {''virtio_blk'', ''virtio_net''} \<subseteq> set (drivers g) \<and> gr_NetError g = [] then 0 else 1)"
  by (rule main_boot_code [OF assms])

theorem boot_run_verdict_witness: "result_of (main booting) fresh = Some 0"
proof -
  have "resolveGuestNet (flag_str boot_vals ''guest-net'') (flag_int boot_vals ''vms'') = NetOK 0xAC1FF000"
    unfolding boot_vals_sel by (rule resolveGuestNet_default) simp
  from boot_run_verdict [OF booting_args this booting_host fine_vm_reports boot_vals_sel(1,5), of fresh]
  show ?thesis by (simp add: fine_report_sel)
qed

section \<open>The exit code\<close>

text \<open>C9: without a JSON file to write, the exit code is decided by the results alone: one if some
  result is a failure, otherwise three if some check was blocked, otherwise zero; warnings never
  change it.\<close>

theorem exit_code_of_results:
  assumes "fl_json E = []"
  shows "result_of (finish_main E start) w =
    (if \<exists>x \<in> set (results w). res_Status x = Fail then 1
     else if \<exists>x \<in> set (results w). res_Status x = Blocked then 3 else 0)"
  using finish_main_code [of E start w 0] assms by (simp add: exit_code_Finish)

theorem exit_code_of_results_witness:
  "result_of (finish_main calm 0) fresh = 0"
  using exit_code_of_results [of calm 0 fresh] by (simp add: calm_def)

section \<open>The preflight\<close>

text \<open>C10: the preflight only appends to the report, under its own identifiers, with a remedy for
  every failure and every blocked result; everything it does to the host is inspection, and it
  closes every descriptor it opens.\<close>

theorem preflight_contract:
  "\<exists>rs evs. list_all (result_ok preflight_ids) rs \<and>
    w_report (exec (runPreflight E) w) = (w_report w)\<lparr>rep_Results := results w @ rs\<rparr> \<and>
    list_all inspecting evs \<and> w_trace (exec (runPreflight E) w) = w_trace w @ evs \<and>
    open_fds (w_trace (exec (runPreflight E) w)) = open_fds (w_trace w)"
  using preflight.step [of w E] by (auto simp: check_rel_def)

text \<open>C11: a whole run of the program whose command line asks for the stage \<open>preflight\<close> and no JSON
  file only inspects the host, reads the clock and prints.\<close>

theorem preflight_run_leaves_host:
  assumes "getpid E \<noteq> 1" and "\<not> hasArg E ''-guest''" and "parse_flags (tl (os_args E)) default_flags = Parsed vals"
    and "flag_str vals ''stage'' = ''preflight''" and "flag_str vals ''json'' \<in> {[], ''-''}"
  shows "\<exists>evs. list_all quiet evs \<and> w_trace (exec (main E) w) = w_trace w @ evs"
  by (rule emitsD [where w = w, OF emits_main [OF assms]]) blast

theorem preflight_run_leaves_host_witness:
  "\<exists>evs. list_all quiet evs \<and> w_trace (exec (main calm) fresh) = w_trace fresh @ evs"
  by (rule preflight_run_leaves_host [where vals = default_flags]) (simp_all add: calm_def hasArg_def default_flag_values)

section \<open>Artifacts\<close>

text \<open>C12: a path that \<open>resolveArtifact\<close> returns is the cache path of the artifact, and either the
  file there had the pinned digest, or the run is not offline and a complete download with the
  pinned digest was made.\<close>

theorem artifact_verified:
  assumes "result_of (resolveArtifact E cacheDir name a) w = Inr p"
  shows "p = path_join cacheDir name \<and>
    (cached_at E (w_trace w) p (art_sha256 a) \<or> \<not> fl_offline E \<and> verified_download E a)"
  by (rule resolveArtifact_result [OF assms])

theorem artifact_verified_witness:
  "cached_at calm [] (path_join ''/cache'' ''fc'') (sha256_hex [])"
proof -
  have "result_of (resolveArtifact calm ''/cache'' ''fc'' \<lparr>art_url = [], art_sha256 = sha256_hex [], art_member = []\<rparr>) fresh =
      Inr (path_join ''/cache'' ''fc'')"
    by (simp add: resolveArtifact_def Let_def fileHasDigest_def with_defer_def go_open_def go_read_def go_close_def
        calm_def sample_device_def)
  from artifact_verified [OF this] show ?thesis by (simp add: calm_def)
qed

text \<open>C13: offline, an artifact is used exactly when the file in the cache has the digest that is
  pinned for the download; for a tarball that is the digest of the archive, not of the member
  that is kept.\<close>

theorem offline_cache_decides:
  assumes "fl_offline E"
  shows "result_of (resolveArtifact E cacheDir name a) w = Inr (path_join cacheDir name) \<longleftrightarrow>
    cached_at E (w_trace w) (path_join cacheDir name) (art_sha256 a)"
  by (rule resolveArtifact_offline [OF assms])

theorem offline_cache_decides_witness:
  "result_of (resolveArtifact calm ''/cache'' ''fc'' (guestKernelArtifacts ''amd64'')) fresh = Inr (path_join ''/cache'' ''fc'') \<longleftrightarrow>
    cached_at calm (w_trace fresh) (path_join ''/cache'' ''fc'') (art_sha256 (guestKernelArtifacts ''amd64''))"
  by (rule offline_cache_decides) (simp add: calm_def)

section \<open>What is left behind\<close>



text \<open>C15: the boot stage either makes no working directory or removes it as the very last thing it
  does, whichever way it ends, panics included.\<close>

theorem workdir_removed:
  "cleaned (w_trace w) (w_trace (exec (runBootStage E net) w))"
  by (rule cleaned_runBootStage)

section \<open>The guest\<close>

text \<open>C16: the guest reads back from its kernel command line exactly the address, mask, host, port and
  disk that the host appended for its microVM, whatever the boot arguments of the user say.\<close>

theorem guest_settings_from_boot_args:
  "let gs = parseGuestCmdline (boot_args E net i) default_settings in
    gs_IP gs = vmGuestIP net i \<and> gs_Mask gs = guestNetmask \<and> gs_Host gs = vmHostIP net i \<and>
    gs_Port gs = int echoPort \<and> gs_Disk gs = ''/dev/vda''"
  by (simp add: guest_reads_boot_args Let_def)

text \<open>C17: with a kernel that grants its requests, \<open>configureGuestNet\<close> sends the four requests in
  order, for the address the host planned and the mask of a /30, keeps the flags that were set,
  closes its socket and returns no error.\<close>

theorem guest_configures_planned_address:
  assumes "\<And>h. os_socket E h = Inr fd" and "\<And>h req b. os_ifreq E h fd req b = Inr flags"
  shows "w_trace (exec (configureGuestNet E iface (vmGuestIP net i) guestNetmask) w) = w_trace w @
    [EvSocket, EvOpen ''socket'' fd,
     EvIfreq fd siocSIFADDR (ifreqAddr iface (octets_of (vmBase net i + 2))),
     EvIfreq fd siocSIFNETMASK (ifreqAddr iface (octets_of 0xFFFFFFFC)),
     EvIfreq fd siocGIFFLAGS (ifreqFlags iface 0),
     EvIfreq fd siocSIFFLAGS (ifreqFlags iface (or flags 0x41)),
     EvClose fd] \<and>
    result_of (configureGuestNet E iface (vmGuestIP net i) guestNetmask) w = None"
  using configure_requests [OF assms] by blast

theorem guest_configures_planned_address_witness:
  "result_of (configureGuestNet calm ''eth0'' (vmGuestIP 0xAC1FF000 0) guestNetmask) fresh = None"
  using guest_configures_planned_address [of calm 3 0 "''eth0''" "0xAC1FF000" 0 fresh] by (simp add: calm_def)



text \<open>C19: when the guest gets to its report, the last things it does are to print the report line, to
  flush the console, to wait and to reset the machine; the report says \<open>ok\<close> exactly when no mount
  failed; and what it prints altogether is whole lines and then the report line, which is the
  console of C7.\<close>

theorem guest_reports_then_resets:
  assumes "result_of (runGuest E) w = Some rep"
  shows "(\<exists>h. w_trace (exec (runGuest E) w) = h @ [EvStdout (guestReportPrefix @ marshal_report rep @ [newline]),
      EvSync 1, EvSleep 200000000, EvReboot]) \<and> (gr_OK rep \<longleftrightarrow> gr_Errors rep = []) \<and>
    (w_trace w = [] \<longrightarrow> (\<exists>logged. whole_lines logged \<and>
      stdout_of (w_trace (exec (runGuest E) w)) = logged @ guestReportPrefix @ marshal_report rep @ [newline]))"
  using runGuest_reports [OF assms] guest_output [OF assms] by blast

theorem guest_reports_then_resets_witness:
  "\<exists>rep logged. whole_lines logged \<and>
    stdout_of (w_trace (exec (runGuest calm) fresh)) = logged @ guestReportPrefix @ marshal_report rep @ [newline]"
proof -
  obtain rep where "result_of (runGuest calm) fresh = Some rep" using runGuest_ends [OF calm_clock] by blast
  from guest_reports_then_resets [OF this] show ?thesis by auto
qed

section \<open>Outcomes and consoles\<close>



text \<open>C21: the tail that the sliding window keeps is the last 120 lines of the console.\<close>

theorem console_tail_is_last_lines:
  "fst (result_of (read_console E i ls out) w) = take_last consoleTailLines ls"
  by (rule read_console_tail)

section \<open>The report\<close>



text \<open>C23: with \<open>-stage all\<close>, a failed or blocked KVM check of a device that answers the same way
  each time, other than that of an unknown architecture, keeps the boot stage from running: the
  skip is the last result and nothing but inspection has happened.\<close>

theorem all_stage_skips_boot:
  assumes "steady E d" and "fl_stage E = ''all''"
    and "(i, st) \<in> set (kvm_spec (goarch E) (geteuid E) d)" and "st \<in> {Fail, Blocked}" and "i \<noteq> ''kvm.arch''"
  shows "tags (exec (run_stage E net) w) = tags (exec (runPreflight E) w) @ [(''boot.skipped'', Skip)] \<and>
    (\<exists>evs. list_all inspecting evs \<and> w_trace (exec (run_stage E net) w) = w_trace w @ evs)"
  using run_stage_skips [OF assms] by blast

theorem all_stage_skips_boot_witness:
  "tags (exec (run_stage (calm\<lparr>fl_stage := ''all'', os_stat := (\<lambda>h p. Inl enoent)\<rparr>) 0xAC1FF000) fresh) =
    tags (exec (runPreflight (calm\<lparr>fl_stage := ''all'', os_stat := (\<lambda>h p. Inl enoent)\<rparr>)) fresh) @ [(''boot.skipped'', Skip)]"
proof -
  let ?E = "calm\<lparr>fl_stage := ''all'', os_stat := (\<lambda>h p. Inl enoent)\<rparr>"
  let ?d = "sample_device\<lparr>dev_stat := (\<lambda>p. Inl enoent)\<rparr>"
  have "steady ?E ?d" by (simp add: steady_def calm_def)
  moreover have "fl_stage ?E = ''all''" by simp
  moreover have "(''kvm.device'', Fail) \<in> set (kvm_spec (goarch ?E) (geteuid ?E) ?d)"
    by (simp add: kvm_spec_def calm_def caps_of_def)
  ultimately show ?thesis by (rule all_stage_skips_boot [THEN conjunct1]) simp_all
qed

text \<open>C24: the verdict is a failure if some result is one, otherwise blocked if some check was,
  otherwise a pass, and the summary counts the results of each status.\<close>

theorem verdict_and_summary:
  "rep_Verdict (Finish t r) = Some
    (if \<exists>x \<in> set (rep_Results r). res_Status x = Fail then Fail
     else if \<exists>x \<in> set (rep_Results r). res_Status x = Blocked then Blocked else Pass) \<and>
   (case gm_get (rep_Summary (Finish t r)) st of Some n \<Rightarrow> n | None \<Rightarrow> 0) =
    length (filter (\<lambda>x. res_Status x = st) (rep_Results r))"
  using Finish_Verdict Finish_Summary by blast

text \<open>C25: every failure, warning and blocked result is repeated, with its detail and remedy, in the
  lists at the end of the text report.\<close>

theorem render_lists_problems:
  assumes "x \<in> set (rep_Results r)" and "res_Status x \<in> {Fail, Warn, Blocked}"
  shows "sublist (bullet x) (Render r)"
  by (rule Render_lists_result [OF assms])

theorem render_lists_problems_witness:
  "sublist (bullet (mk_result ''kvm.device'' ''KVM device'' Fail ''missing'' ''load kvm''))
    (Render (append_result (mk_result ''kvm.device'' ''KVM device'' Fail ''missing'' ''load kvm'') (w_report fresh)))"
  by (rule render_lists_problems) simp_all

section \<open>The program\<close>

text \<open>C26: a command line of settings \<open>-name=value\<close> is read back as those settings: unless it asks for
  the guest, the program runs with the last value given for each flag and the default of every other.\<close>

theorem command_line_roundtrip:
  assumes "getpid E \<noteq> 1" and "tl (os_args E) = map setting_arg nvs" and "list_all setting_ok nvs"
    and "(''guest'', FBool True) \<notin> set nvs"
  shows "\<exists>vals. main E = do { c \<leftarrow> flagged_main (with_flags vals E); return (Some c) } \<and>
    (\<forall>n. gm_get vals n =
      (case map_of (rev nvs) n of Some v \<Rightarrow> Some v | None \<Rightarrow> map_option fd_default (find_flag n)))"
  by (rule main_settings [OF assms])

theorem command_line_roundtrip_witness:
  "\<exists>vals. main (calm\<lparr>os_args := ''fc-preflight'' # map setting_arg sample_settings\<rparr>) =
      do { c \<leftarrow> flagged_main (with_flags vals (calm\<lparr>os_args := ''fc-preflight'' # map setting_arg sample_settings\<rparr>));
           return (Some c) } \<and>
    (\<forall>n. gm_get vals n = (case map_of (rev sample_settings) n of Some v \<Rightarrow> Some v
       | None \<Rightarrow> map_option fd_default (find_flag n)))"
  by (rule command_line_roundtrip) (simp_all add: calm_def sample_settings)

text \<open>C27: a guest range that is not accepted ends the program with exit code two after one message
  and before anything else.\<close>

theorem bad_guest_net_is_usage:
  assumes "getpid E \<noteq> 1" and "\<not> hasArg E ''-guest''" and "goos E = ''linux''"
    and "parse_flags (tl (os_args E)) default_flags = Parsed vals"
    and "\<nexists>net. resolveGuestNet (flag_str vals ''guest-net'') (flag_int vals ''vms'') = NetOK net"
  shows "result_of (main E) w = Some 2 \<and> (\<exists>s. w_trace (exec (main E) w) = w_trace w @ [EvStderr s])"
  by (rule main_bad_net [OF assms])

theorem bad_guest_net_is_usage_witness:
  "result_of (main (calm\<lparr>os_args := [''fc-preflight'', ''-guest-net=x'']\<rparr>)) fresh = Some 2"
  by (rule bad_guest_net_is_usage [where vals = bad_net_flags, THEN conjunct1])
    (simp_all add: calm_def hasArg_def sample_bad_net del: parse_flags.simps)

text \<open>C28: the number of microVMs is not checked against zero: the default range accepts it, and then
  no microVM is booted and the judgement panics; a negative number panics before that, and any
  positive one returns.\<close>

theorem vm_count_panics:
  "resolveGuestNet ''172.31.240.0/22'' 0 = NetOK 0xAC1FF000 \<and>
   result_of (run_vms E body) w =
    (if fl_vms E < 0 then Panicked ''makeslice: len out of range''
     else if fl_vms E = 0 then Panicked ''index out of range [0] with length 0'' else Returned)"
  by (simp add: run_vms_flow resolveGuestNet_default)


text \<open>C30: when the tap was created and its address cannot be set, \<open>bootOne\<close> returns at once: nothing
  deletes the tap.\<close>

theorem tap_setup_leaks:
  assumes "result_of (run_command E (add_tap (vmTap i))) (exec (run_command E (del_tap (vmTap i))) w) = None"
    and "result_of (run_command E [''ip'', ''addr'', ''add'', vmHostIP net i @ ''/30'', ''dev'', vmTap i])
      (exec (run_command E (add_tap (vmTap i))) (exec (run_command E (del_tap (vmTap i))) w)) = Some e"
  shows "w_trace (exec (bootOne E net i fcBin kern initramfs workDir) w) = w_trace w @
    [EvExec (del_tap (vmTap i)), EvExec (add_tap (vmTap i)),
     EvExec [''ip'', ''addr'', ''add'', vmHostIP net i @ ''/30'', ''dev'', vmTap i]]"
  by (rule setupTap_leaves_tap [OF assms])

theorem tap_setup_leaks_witness:
  "\<exists>E. w_trace (exec (bootOne E 0xAC1FF000 0 ''/fc'' ''/vmlinux'' ''/init'' ''/tmp'') fresh) = w_trace fresh @
    [EvExec (del_tap (vmTap 0)), EvExec (add_tap (vmTap 0)),
     EvExec [''ip'', ''addr'', ''add'', vmHostIP 0xAC1FF000 0 @ ''/30'', ''dev'', vmTap 0]]"
proof -
  let ?E = "calm\<lparr>os_output := (\<lambda>h argv. ([], if argv ! 1 = ''addr'' then Some enoent else None))\<rparr>"
  have "w_trace (exec (bootOne ?E 0xAC1FF000 0 ''/fc'' ''/vmlinux'' ''/init'' ''/tmp'') fresh) = w_trace fresh @
    [EvExec (del_tap (vmTap 0)), EvExec (add_tap (vmTap 0)),
     EvExec [''ip'', ''addr'', ''add'', vmHostIP 0xAC1FF000 0 @ ''/30'', ''dev'', vmTap 0]]"
    by (rule tap_setup_leaks)
      (simp_all add: run_command_def go_output_def add_tap_def del_tap_def case_prod_beta)
  then show ?thesis by blast
qed

text \<open>C31: the build for other systems only prints, whatever its arguments: it ends with the code for bad
  usage, or with zero when only the usage was asked for; outside the guest mode it does exactly
  what the Linux build does on such a system, and in the guest mode it reaches the stub of the
  guest.\<close>

theorem other_platforms_refuse:
  assumes "goos E \<noteq> ''linux''"
  shows "result_of (stub_main E) w =
      (if \<not> (getpid E = 1 \<or> hasArg E ''-guest'') \<and> parse_flags (tl (os_args E)) default_flags = Help then 0 else 2) \<and>
    (\<exists>evs. evs \<noteq> [] \<and> list_all is_message evs \<and> w_trace (exec (stub_main E) w) = w_trace w @ evs) \<and>
    (getpid E = 1 \<or> hasArg E ''-guest'' \<or> main E = do { c \<leftarrow> stub_main E; return (Some c) }) \<and>
    (getpid E = 1 \<or> hasArg E ''-guest'' \<longrightarrow> stub_main E = stub_runGuest)"
  using stub_main_code [OF assms] stub_main_prints [OF assms] stub_main_same [OF assms]
  by (auto simp: stub_main_def)

theorem other_platforms_refuse_witness:
  "result_of (stub_main (calm\<lparr>goos := ''darwin''\<rparr>)) fresh =
    (if \<not> (getpid (calm\<lparr>goos := ''darwin''\<rparr>) = 1 \<or> hasArg (calm\<lparr>goos := ''darwin''\<rparr>) ''-guest'') \<and>
      parse_flags (tl (os_args (calm\<lparr>goos := ''darwin''\<rparr>))) default_flags = Help then 0 else 2)"
  by (rule other_platforms_refuse [THEN conjunct1]) simp

text \<open>C32: the boot stage only appends results of its own; a warning always has a remedy, a failure has
  one except for building the initramfs and the working directory, and the only blocked check is
  the missing privilege.\<close>

theorem boot_results_contract:
  "\<exists>rs. list_all boot_result_ok rs \<and>
    w_report (exec (runBootStage E net) w) = (w_report w)\<lparr>rep_Results := results w @ rs\<rparr>"
  by (rule runBootStage_results [of E net w]) blast





section \<open>What the checks read\<close>

text \<open>C35: the host counts as virtual exactly when the CPU has the hypervisor flag, when
  \<open>systemd-detect-virt\<close> names something, or when the vendor or product names a known hypervisor,
  and it is given a name exactly then.\<close>

theorem hypervisor_verdict:
  "(fst (hypervisor_of flags virt vendor product) \<longleftrightarrow>
    has_flag flags ''hypervisor'' \<or>
    (snd virt = None \<and> trim_space (fst virt) \<notin> {[], ''none''}) \<or>
    (\<exists>(match, name) \<in> set hypervisorDMI. contains vendor match \<or> contains product match)) \<and>
   (fst (snd (hypervisor_of flags virt vendor product)) \<noteq> [] \<longleftrightarrow>
    fst (hypervisor_of flags virt vendor product))"
  using hypervisor_of_nested [of flags virt vendor product] hypervisor_of_name [of flags virt vendor product] by blast


section \<open>The network measurement and the flags\<close>





text \<open>C39: in every state the echo server can reach, with any number of clients and however the copying
  goroutines, the clients and the cancellation interleave, what came back to a client is a prefix
  of what that client sent; while the connection is open nothing is lost, reordered or mixed with
  another's bytes; and the listener is closed only after the cancellation.\<close>

theorem echo_returns_what_was_sent:
  assumes "echo_reachable L s"
  shows "(\<forall>c \<in> set (es_conns s). prefix (ec_back c @ ec_out c) (ec_sent c) \<and>
      (ec_closed c \<or> ec_sent c = ec_back c @ ec_out c @ ec_hold c @ ec_in c)) \<and>
    (es_listening s \<or> es_cancelled s)"
  using echo_reachable_ok [OF assms] by (auto simp: echo_ok_def conn_ok_def)

theorem echo_returns_what_was_sent_witness: "prefix (ec_back echoed @ ec_out echoed) (ec_sent echoed)"
  using echo_returns_what_was_sent [OF sample_echo] by simp



end
